theory Spec2Isabelle
  imports Main "HOL-Library.Word"
begin

unbundle bit_operations_syntax

section \<open>The MutiCipher driver (hica\_muc) of drivers/clk/hisilicon/crg-hi3798.c\<close>

text \<open>
  A shallow embedding of the block-cipher driver: the descriptor ring builder
  (\<open>hica_muc_list_append\<close>), the channel operations (prepare, push, emit,
  unprepare), the channel allocator (\<open>hica_muc_alg_encdec\<close>), the sweeper
  (\<open>hica_muc_process\<close>), the interrupt handler (\<open>hica_muc_handle\<close>), key
  validation (\<open>hica_muc_alg_setkey\<close>) and the channel test of
  \<open>hica_muc_probe\<close>.

  Conventions.
  \<^item> \<open>unsigned int\<close>, \<open>u32\<close> and \<open>__le32\<close> values are \<open>32 word\<close>: addition and
    subtraction wrap, comparisons are unsigned. The target is little-endian ARM, so
    \<open>cpu_to_le32\<close> is the identity.
  \<^item> A function returning \<open>0\<close> or \<open>-Exxx\<close> returns a \<open>retval\<close>.
  \<^item> The device registers behind \<open>priv->base\<close> are a store from byte offsets to
    32-bit values: a read returns what was last written. The hardware's own updates
    happen between the driver's calls, so every theorem holds for all register
    contents at the time of the call.
  \<^item> Pointers to requests and scatterlists are natural numbers into the stores
    \<open>reqs\<close> and \<open>sgls\<close>; \<open>chan\<close> pointers are indices into \<open>priv->chans\<close>, and
    \<open>chan->id\<close> is that index (as \<open>hica_muc_chan_init\<close> sets it).
  \<^item> Each driver entry point runs as one atomic step (\<open>xchg\<close>, \<open>cmpxchg\<close> and the
    memory barriers are plain reads and writes). Logging (\<open>dev_dbg\<close>, \<open>dev_err\<close>,
    \<open>WARN_ON\<close>) and cache maintenance (\<open>dma_sync_*\<close>) have no effect on the state.
  \<^item> The file is compiled without \<open>DEBUG\<close>, so the erasing code is present.
\<close>

type_synonym u8 = "8 word"
type_synonym u32 = "32 word"

datatype errno = EBUSY | EINPROGRESS | EIO | EFAULT | EINVAL | ENODEV | ENOMEM

datatype retval = OK | ERR errno

subsection \<open>Hardware definitions\<close>

definition BIT :: "nat \<Rightarrow> u32" where
  "BIT n = push_bit n 1"

definition MUC_CHAN0_DATA_OUT0 :: nat where "MUC_CHAN0_DATA_OUT0 = 0x00"
definition MUC_CHANn_IV_OUT0 :: "nat \<Rightarrow> nat" where "MUC_CHANn_IV_OUT0 n = 0x10 + 0x10 * n"
definition MUC_CHANn_KEY0 :: "nat \<Rightarrow> nat" where "MUC_CHANn_KEY0 n = 0x90 + 0x20 * n"

definition MUC_SEC_CHAN_CFG :: nat where "MUC_SEC_CHAN_CFG = 0x824"

definition MUC_CHAN0_CTRL :: nat where "MUC_CHAN0_CTRL = 0x1000"
definition MUC_CHAN0_IV_IN0 :: nat where "MUC_CHAN0_IV_IN0 = 0x1004"
definition MUC_CHAN0_DATA_IN0 :: nat where "MUC_CHAN0_DATA_IN0 = 0x1014"

definition MUC_CHANn_IN_BUF_NUM :: "nat \<Rightarrow> nat" where "MUC_CHANn_IN_BUF_NUM n = 0x1000 + 0x80 * n + 0x00"
definition MUC_CHANn_IN_BUF_CNT :: "nat \<Rightarrow> nat" where "MUC_CHANn_IN_BUF_CNT n = 0x1000 + 0x80 * n + 0x04"
definition MUC_CHANn_IN_EMPTY_CNT :: "nat \<Rightarrow> nat" where "MUC_CHANn_IN_EMPTY_CNT n = 0x1000 + 0x80 * n + 0x08"
definition MUC_CHANn_INT_IN_CNT_CFG :: "nat \<Rightarrow> nat" where "MUC_CHANn_INT_IN_CNT_CFG n = 0x1000 + 0x80 * n + 0x0c"
definition MUC_CHANn_CTRL :: "nat \<Rightarrow> nat" where "MUC_CHANn_CTRL n = 0x1000 + 0x80 * n + 0x10"
definition MUC_CHANn_SRC_LST_ADDR :: "nat \<Rightarrow> nat" where "MUC_CHANn_SRC_LST_ADDR n = 0x1000 + 0x80 * n + 0x14"
definition MUC_CHANn_IN_AGE_CNT :: "nat \<Rightarrow> nat" where "MUC_CHANn_IN_AGE_CNT n = 0x1000 + 0x80 * n + 0x1c"
definition MUC_CHANn_SRC_LST_PTR :: "nat \<Rightarrow> nat" where "MUC_CHANn_SRC_LST_PTR n = 0x1000 + 0x80 * n + 0x20"
definition MUC_CHANn_IN_LEFT :: "nat \<Rightarrow> nat" where "MUC_CHANn_IN_LEFT n = 0x1000 + 0x80 * n + 0x2c"

definition MUC_CHANn_OUT_BUF_NUM :: "nat \<Rightarrow> nat" where "MUC_CHANn_OUT_BUF_NUM n = 0x1000 + 0x80 * n + 0x3c"
definition MUC_CHANn_OUT_BUF_CNT :: "nat \<Rightarrow> nat" where "MUC_CHANn_OUT_BUF_CNT n = 0x1000 + 0x80 * n + 0x40"
definition MUC_CHANn_OUT_FULL_CNT :: "nat \<Rightarrow> nat" where "MUC_CHANn_OUT_FULL_CNT n = 0x1000 + 0x80 * n + 0x44"
definition MUC_CHANn_INT_OUT_CNT_CFG :: "nat \<Rightarrow> nat" where "MUC_CHANn_INT_OUT_CNT_CFG n = 0x1000 + 0x80 * n + 0x48"
definition MUC_CHANn_DST_LST_ADDR :: "nat \<Rightarrow> nat" where "MUC_CHANn_DST_LST_ADDR n = 0x1000 + 0x80 * n + 0x4c"
definition MUC_CHANn_OUT_AGE_CNT :: "nat \<Rightarrow> nat" where "MUC_CHANn_OUT_AGE_CNT n = 0x1000 + 0x80 * n + 0x54"
definition MUC_CHANn_DST_LST_PTR :: "nat \<Rightarrow> nat" where "MUC_CHANn_DST_LST_PTR n = 0x1000 + 0x80 * n + 0x58"
definition MUC_CHANn_OUT_LEFT :: "nat \<Rightarrow> nat" where "MUC_CHANn_OUT_LEFT n = 0x1000 + 0x80 * n + 0x64"

text \<open>Fields of the \<open>MUC_CHAN{0,n}_CTRL\<close> register.\<close>

definition MUC_CTRL_DECRYPT :: u32 where "MUC_CTRL_DECRYPT = BIT 0"
definition MUC_CTRL_MODE :: u32 where "MUC_CTRL_MODE = 0xE"
definition MUC_MODE_ECB :: u32 where "MUC_MODE_ECB = 0"
definition MUC_MODE_CBC :: u32 where "MUC_MODE_CBC = 1"
definition MUC_MODE_CFB :: u32 where "MUC_MODE_CFB = 2"
definition MUC_MODE_OFB :: u32 where "MUC_MODE_OFB = 3"
definition MUC_MODE_CTR :: u32 where "MUC_MODE_CTR = 4"
definition MUC_CTRL_ALG :: u32 where "MUC_CTRL_ALG = 0x30"
definition MUC_ALG_DES :: u32 where "MUC_ALG_DES = 0"
definition MUC_ALG_DES3_EDE :: u32 where "MUC_ALG_DES3_EDE = 1"
definition MUC_ALG_AES :: u32 where "MUC_ALG_AES = 2"
definition MUC_CTRL_WIDTH :: u32 where "MUC_CTRL_WIDTH = 0xC0"
definition MUC_WIDTH_BLOCK :: u32 where "MUC_WIDTH_BLOCK = 0"
definition MUC_CTRL_CHAN0_IV_SET :: u32 where "MUC_CTRL_CHAN0_IV_SET = BIT 8"
definition MUC_CTRL_KEY :: u32 where "MUC_CTRL_KEY = 0x600"
definition MUC_KEY_AES_128B :: u32 where "MUC_KEY_AES_128B = 0"
definition MUC_KEY_AES_192B :: u32 where "MUC_KEY_AES_192B = 1"
definition MUC_KEY_AES_256B :: u32 where "MUC_KEY_AES_256B = 2"
definition MUC_KEY_DES :: u32 where "MUC_KEY_DES = 0"
definition MUC_KEY_DES3_EDE_3KEY :: u32 where "MUC_KEY_DES3_EDE_3KEY = 0"
definition MUC_KEY_DES3_EDE_2KEY :: u32 where "MUC_KEY_DES3_EDE_2KEY = 3"
definition MUC_CTRL_KEY_FROM_MKL :: u32 where "MUC_CTRL_KEY_FROM_MKL = BIT 13"
definition MUC_CTRL_KEY_ID :: u32 where "MUC_CTRL_KEY_ID = 0x1C000"

definition MUC_BUF_NUM_MAX :: u32 where "MUC_BUF_NUM_MAX = 0xFFFF"

definition MUC_INT_STATUS :: nat where "MUC_INT_STATUS = 0x1400"
definition MUC_INT_CHANn_IN_BUF :: "nat \<Rightarrow> u32" where "MUC_INT_CHANn_IN_BUF n = BIT n"
definition MUC_INT_CHAN0_DATA_DISPOSE :: u32 where "MUC_INT_CHAN0_DATA_DISPOSE = BIT 8"
definition MUC_INT_CHANn_OUT_BUF :: "nat \<Rightarrow> u32" where "MUC_INT_CHANn_OUT_BUF n = BIT (8 + n)"
definition MUC_INT_CFG :: nat where "MUC_INT_CFG = 0x1404"
definition MUC_INT_CFG_SEC_EN :: u32 where "MUC_INT_CFG_SEC_EN = BIT 30"
definition MUC_INT_CFG_NSEC_EN :: u32 where "MUC_INT_CFG_NSEC_EN = BIT 31"
definition MUC_INT_RAW :: nat where "MUC_INT_RAW = 0x1408"
definition MUC_CHAN0_CFG :: nat where "MUC_CHAN0_CFG = 0x1410"
definition MUC_CHAN0_START :: u32 where "MUC_CHAN0_START = BIT 0"
definition MUC_CHAN0_BUSY :: u32 where "MUC_CHAN0_BUSY = BIT 1"
definition MUC_SRC_ADDR_SMMU_BYPASS :: nat where "MUC_SRC_ADDR_SMMU_BYPASS = 0x1418"
definition MUC_DST_ADDR_SMMU_BYPASS :: nat where "MUC_DST_ADDR_SMMU_BYPASS = 0x141c"

definition MUC_CHAN_PKG1 :: nat where "MUC_CHAN_PKG1 = 0"
definition MUC_CHAN_PKGn_MIN :: nat where "MUC_CHAN_PKGn_MIN = 1"
definition MUC_CHAN_NUM :: nat where "MUC_CHAN_NUM = 8"

definition MUC_IV_SIZE :: nat where "MUC_IV_SIZE = 16"
definition MUC_BLOCK_SIZE :: u32 where "MUC_BLOCK_SIZE = 16"
definition MUC_KEY_SIZE :: u32 where "MUC_KEY_SIZE = 32"

text \<open>
  \<open>struct hica_muc_buf\<close>, the 16-byte descriptor the hardware walks. Bits 20, 21 and
  22 of \<open>flags\<close> are dummy, set-iv and end-of-list.
\<close>

record hica_muc_buf =
  addr :: u32
  flags :: u32
  len :: u32
  iv_addr :: u32

definition MUC_BUF_FLAG_DUMMY :: u32 where "MUC_BUF_FLAG_DUMMY = BIT 20"
definition MUC_BUF_FLAG_SET_IV :: u32 where "MUC_BUF_FLAG_SET_IV = BIT 21"
definition MUC_BUF_FLAG_END_OF_LIST :: u32 where "MUC_BUF_FLAG_END_OF_LIST = BIT 22"
definition MUC_BUF_LEN_MAX :: u32 where "MUC_BUF_LEN_MAX = 0xffff0"

definition MUC_BUF_NUM :: u32 where "MUC_BUF_NUM = 15"

subsection \<open>Driver definitions\<close>

text \<open>
  \<open>struct hica_muc_ctrl\<close>: bit-fields of 3, 2, 2 and 2 bits. The driver only stores
  the constants above in them, which fit.
\<close>

record hica_muc_ctrl =
  mode :: u32
  alg :: u32
  width :: u32
  key :: u32

text \<open>
  \<open>struct hica_muc_tfm_ctx\<close>. \<open>tfm_key\<close> is the key copy, one byte per index.
\<close>

record hica_muc_tfm_ctx =
  ctrl :: hica_muc_ctrl
  ivsize :: u32
  chunksize :: u32
  keysize :: u32
  tfm_key :: "nat \<Rightarrow> u8"

text \<open>
  A scatterlist: its nodes (DMA address and length, as \<open>sg_dma_address\<close> and
  \<open>sg->length\<close> read them) and the bytes it addresses, by offset into the list, which
  is how \<open>scatterwalk_map_and_copy\<close> addresses them.
\<close>

record sg_ent =
  dma_address :: u32
  sg_length :: u32

record scatterlist =
  ents :: "sg_ent list"
  bytes :: "nat \<Rightarrow> u8"

text \<open>
  \<open>struct sg_iter\<close>: \<open>sg\<close> is the list from the current node on, \<open>[]\<close> for
  \<open>NULL\<close>, so \<open>sg_next\<close> is the tail.
\<close>

record sg_iter =
  sg :: "sg_ent list"
  sg_offset :: u32
  offset :: u32

text \<open>
  \<open>struct hica_muc_req_ctx\<close>. The two anonymous structs of its union are kept as
  separate fields: \<open>rc_offset\<close> for channel 0, the rest for the ring channels.
  \<open>r_ctx->tfm\<close> is set by \<open>hica_muc_alg_encdec\<close> to the context of the request's
  transform before any use and never changes, so the model reads \<open>rq_tfm\<close>, the
  transform context of the request, wherever the source reads \<open>r_ctx->tfm\<close>.
\<close>

record hica_muc_req_ctx =
  decrypting :: bool
  rc_offset :: u32
  runlen :: u32
  eof :: bool
  src_nents :: int
  dst_nents :: int
  rc_src :: sg_iter
  rc_dst :: sg_iter

text \<open>
  \<open>struct skcipher_request\<close> with its driver context. \<open>rq_src\<close> and \<open>rq_dst\<close> are
  scatterlist pointers (equal for an in-place request), \<open>rq_iv\<close> the bytes of
  \<open>req->iv\<close>.
\<close>

record skcipher_request =
  cryptlen :: u32
  rq_src :: nat
  rq_dst :: nat
  rq_iv :: "nat \<Rightarrow> u8"
  rq_tfm :: hica_muc_tfm_ctx
  rq_ctx :: hica_muc_req_ctx

text \<open>
  \<open>chan->req\<close>: \<open>NULL\<close> is idle, \<open>ERR_PTR(-e)\<close> is invalid or processing, a request
  pointer is busy.
\<close>

datatype req_slot = NULL | ERR_PTR errno | REQ nat

fun IS_ERR_OR_NULL :: "req_slot \<Rightarrow> bool" where
  "IS_ERR_OR_NULL NULL = True"
| "IS_ERR_OR_NULL (ERR_PTR e) = True"
| "IS_ERR_OR_NULL (REQ r) = False"

text \<open>
  \<open>struct hica_muc_chan\<close>. The union's two structs are separate fields: \<open>inout\<close> and
  \<open>inout_size\<close> for channel 0, the rings for channel n. \<open>chan_iv\<close> is the static IV
  buffer \<open>chan->iv\<close>.
\<close>

record hica_muc_chan =
  dirty :: bool
  req :: req_slot
  inout :: "nat \<Rightarrow> u8"
  inout_size :: u32
  src :: "hica_muc_buf list"
  dst :: "hica_muc_buf list"
  chan_iv :: "nat \<Rightarrow> u8"
  src_addr :: u32
  dst_addr :: u32
  chan_iv_addr :: u32
  pad_addr :: u32
  src_emit_n :: u32
  dst_emit_n :: u32
  list_size :: u32

text \<open>
  \<open>struct hica_muc_priv\<close> together with what the driver works on: the registers, the
  requests and scatterlists it is handed, the module parameters, and a record of its
  calls into the kernel (\<open>completed\<close>: the calls of \<open>skcipher_request_complete\<close>,
  oldest first; \<open>cond\<close>: the number of \<open>complete(&priv->cond)\<close> calls;
  \<open>dma_unmapped\<close>: the calls of \<open>dma_unmap_sg\<close>). \<open>dma_map\<close> holds the results the
  next calls of \<open>dma_map_sg\<close> will return, and \<open>nents_for_len\<close> is
  \<open>sg_nents_for_len\<close> (\<open>None\<close> for \<open>-EINVAL\<close>, its only error): both are kernel
  services outside this file, so the theorems hold for any behaviour of them.
\<close>

record hica_muc_priv =
  regs :: "nat \<Rightarrow> u32"
  no_dma :: bool
  chans :: "nat \<Rightarrow> hica_muc_chan"
  cond :: nat
  reqs :: "nat \<Rightarrow> skcipher_request"
  sgls :: "nat \<Rightarrow> scatterlist"
  completed :: "(nat \<times> retval) list"
  dma_map :: "int list"
  dma_unmapped :: "nat list"
  nents_for_len :: "nat \<Rightarrow> u32 \<Rightarrow> int option"
  extra_check :: bool
  small_request :: u32
  disable :: "nat list"

subsection \<open>Register and buffer access\<close>

definition readl :: "hica_muc_priv \<Rightarrow> nat \<Rightarrow> u32" where
  "readl s a = regs s a"

definition readw :: "hica_muc_priv \<Rightarrow> nat \<Rightarrow> u32" where
  "readw s a = regs s a AND 0xFFFF"

definition writel :: "u32 \<Rightarrow> nat \<Rightarrow> hica_muc_priv \<Rightarrow> hica_muc_priv" where
  "writel v a s = s\<lparr>regs := (regs s)(a := v)\<rparr>"

text \<open>A 16-bit write replaces the low half of the register.\<close>

definition writew :: "u32 \<Rightarrow> nat \<Rightarrow> hica_muc_priv \<Rightarrow> hica_muc_priv" where
  "writew v a s = s\<lparr>regs := (regs s)(a := (regs s a AND 0xFFFF0000) OR (v AND 0xFFFF))\<rparr>"

text \<open>
  The offsets \<open>0, 4, 8, ...\<close> below \<open>len\<close> that the loops
  \<open>for (i = 0; i < len; i += sizeof(u32))\<close> visit.
\<close>

definition seq_offsets :: "u32 \<Rightarrow> nat list" where
  "seq_offsets n = map (\<lambda>k. 4 * k) [0 ..< (unat n + 3) div 4]"

text \<open>Little-endian 32-bit access to a byte buffer.\<close>

definition load32 :: "(nat \<Rightarrow> u8) \<Rightarrow> nat \<Rightarrow> u32" where
  "load32 b i = ucast (b i) OR push_bit 8 (ucast (b (i + 1)))
     OR push_bit 16 (ucast (b (i + 2))) OR push_bit 24 (ucast (b (i + 3)))"

definition store32 :: "(nat \<Rightarrow> u8) \<Rightarrow> nat \<Rightarrow> u32 \<Rightarrow> (nat \<Rightarrow> u8)" where
  "store32 b i w = b(i := ucast w, i + 1 := ucast (drop_bit 8 w),
     i + 2 := ucast (drop_bit 16 w), i + 3 := ucast (drop_bit 24 w))"

text \<open>\<open>hica_readl_seq(buf + off, base + a, len)\<close>: registers into a buffer.\<close>

definition hica_readl_seq :: "(nat \<Rightarrow> u8) \<Rightarrow> nat \<Rightarrow> hica_muc_priv \<Rightarrow> nat \<Rightarrow> u32 \<Rightarrow> (nat \<Rightarrow> u8)" where
  "hica_readl_seq buf off s a n =
     fold (\<lambda>i b. store32 b (off + i) (regs s (a + i))) (seq_offsets n) buf"

text \<open>\<open>hica_writel_seq(buf + off, base + a, len)\<close>: a buffer into registers.\<close>

definition hica_writel_seq :: "(nat \<Rightarrow> u8) \<Rightarrow> nat \<Rightarrow> nat \<Rightarrow> u32 \<Rightarrow> hica_muc_priv \<Rightarrow> hica_muc_priv" where
  "hica_writel_seq buf off a n s =
     s\<lparr>regs := fold (\<lambda>i r. r(a + i := load32 buf (off + i))) (seq_offsets n) (regs s)\<rparr>"

definition hica_setl_seq :: "u32 \<Rightarrow> nat \<Rightarrow> u32 \<Rightarrow> hica_muc_priv \<Rightarrow> hica_muc_priv" where
  "hica_setl_seq v a n s =
     s\<lparr>regs := fold (\<lambda>i r. r(a + i := v)) (seq_offsets n) (regs s)\<rparr>"

subsection \<open>Scatterlist iterator\<close>

definition sg_iter_valid :: "sg_iter \<Rightarrow> bool" where
  "sg_iter_valid iter = (case sg iter of [] \<Rightarrow> False | e # es \<Rightarrow> sg_offset iter < sg_length e)"

text \<open>
  \<open>sg_iter_len\<close> and \<open>sg_iter_dma_address\<close> dereference \<open>iter->sg\<close>; the driver calls
  them on a valid iterator only. On \<open>NULL\<close> the model returns 0.
\<close>

definition sg_iter_len :: "sg_iter \<Rightarrow> u32" where
  "sg_iter_len iter = (case sg iter of [] \<Rightarrow> 0 | e # es \<Rightarrow> sg_length e - sg_offset iter)"

definition sg_iter_dma_address :: "sg_iter \<Rightarrow> u32" where
  "sg_iter_dma_address iter = (case sg iter of [] \<Rightarrow> 0 | e # es \<Rightarrow> dma_address e + sg_offset iter)"

fun sg_iter_normalize_loop :: "sg_ent list \<Rightarrow> u32 \<Rightarrow> sg_ent list \<times> u32" where
  "sg_iter_normalize_loop [] off = ([], off)"
| "sg_iter_normalize_loop (e # es) off =
     (if off \<ge> sg_length e then sg_iter_normalize_loop es (off - sg_length e) else (e # es, off))"

definition sg_iter_normalize :: "sg_iter \<Rightarrow> bool \<times> sg_iter" where
  "sg_iter_normalize iter =
     (let (l, off) = sg_iter_normalize_loop (sg iter) (sg_offset iter)
      in (l \<noteq> [], iter\<lparr>sg := l, sg_offset := off\<rparr>))"

definition sg_iter_inc :: "sg_iter \<Rightarrow> u32 \<Rightarrow> bool \<times> sg_iter" where
  "sg_iter_inc iter n =
     sg_iter_normalize (iter\<lparr>sg_offset := sg_offset iter + n, offset := offset iter + n\<rparr>)"

definition sg_iter_init :: "sg_ent list \<Rightarrow> sg_iter" where
  "sg_iter_init l = \<lparr>sg = l, sg_offset = 0, offset = 0\<rparr>"

subsection \<open>Descriptor ring builder\<close>

text \<open>
  A store into ring slot \<open>i\<close>. The rings have \<open>list_size\<close> slots and the driver
  checks its indices against \<open>list_size\<close> before use; a store past the ring is
  undefined in C and leaves the ring unchanged here.
\<close>

definition ring_write :: "hica_muc_buf list \<Rightarrow> u32 \<Rightarrow> hica_muc_buf \<Rightarrow> hica_muc_buf list" where
  "ring_write l i b = (if unat i < length l then l[unat i := b] else l)"

text \<open>
  One pass of the loop body of \<open>hica_muc_list_append\<close>, up to the three stores into
  \<open>buf\<close>: the descriptor written over \<open>buf\<close> and the length to advance by, or the
  fault. \<open>buf->iv_addr\<close> is stored only when the IV is set.
\<close>

definition list_append_buf ::
  "hica_muc_chan \<Rightarrow> skcipher_request \<Rightarrow> bool \<Rightarrow> sg_iter \<Rightarrow> hica_muc_buf \<Rightarrow> errno + hica_muc_buf" where
  "list_append_buf chan rq is_dst iter buf =
     (let ctx = rq_tfm rq;
          req_remain = runlen (rq_ctx rq) - offset iter;
          pad = (offset iter \<ge> cryptlen rq)
      in if \<not> pad \<and> \<not> sg_iter_valid iter then Inl EFAULT
         else
           let sg_remain = (if pad then 0 else sg_iter_len iter);
               a = (if pad then pad_addr chan else sg_iter_dma_address iter);
               l = (if pad then req_remain else min sg_remain (min req_remain MUC_BUF_LEN_MAX));
               f = (if pad then MUC_BUF_FLAG_END_OF_LIST
                    else if l = req_remain then MUC_BUF_FLAG_END_OF_LIST else 0);
               set_iv = (\<not> is_dst \<and> mode (ctrl ctx) \<noteq> MUC_MODE_ECB \<and>
                         offset iter < chunksize ctx \<and>
                         offset iter + l \<ge> chunksize ctx)
           in Inr (buf\<lparr>addr := a,
                        flags := (if set_iv then MUC_BUF_FLAG_SET_IV OR MUC_BUF_FLAG_END_OF_LIST else f),
                        len := (if set_iv then chunksize ctx - offset iter else l),
                        iv_addr := (if set_iv then chan_iv_addr chan else iv_addr buf)\<rparr>))"

text \<open>
  The loop of \<open>hica_muc_list_append\<close>, from counter \<open>n\<close> and ring index \<open>i\<close>. It
  returns the count \<open>n\<close> or \<open>-EFAULT\<close>, with the ring and the iterator as the loop
  left them (both are updated in place, also before a fault).
\<close>

function list_append_loop ::
  "hica_muc_chan \<Rightarrow> skcipher_request \<Rightarrow> bool \<Rightarrow> nat \<Rightarrow> u32 \<Rightarrow> sg_iter \<Rightarrow> hica_muc_buf list
     \<Rightarrow> (errno + nat) \<times> hica_muc_buf list \<times> sg_iter" where
  "list_append_loop chan rq is_dst n i iter l =
     (if offset iter < runlen (rq_ctx rq) \<and> n < unat (list_size chan) then
        (case list_append_buf chan rq is_dst iter (l ! unat i) of
           Inl e \<Rightarrow> (Inl e, l, iter)
         | Inr b \<Rightarrow>
             list_append_loop chan rq is_dst (Suc n)
               (if i + 1 \<ge> list_size chan then 0 else i + 1)
               (snd (sg_iter_inc iter (len b)))
               (ring_write l i b))
      else (Inr n, l, iter))"
  by pat_completeness auto
termination
  by (relation "measure (\<lambda>(chan, rq, is_dst, n, i, iter, l). unat (list_size chan) - n)") auto

definition hica_muc_list_append ::
  "hica_muc_buf list \<Rightarrow> u32 \<Rightarrow> sg_iter \<Rightarrow> hica_muc_chan \<Rightarrow> skcipher_request \<Rightarrow> bool
     \<Rightarrow> (errno + nat) \<times> hica_muc_buf list \<times> sg_iter" where
  "hica_muc_list_append l i iter chan rq is_dst = list_append_loop chan rq is_dst 0 i iter l"

subsection \<open>State helpers\<close>

definition upd_chan :: "nat \<Rightarrow> (hica_muc_chan \<Rightarrow> hica_muc_chan) \<Rightarrow> hica_muc_priv \<Rightarrow> hica_muc_priv" where
  "upd_chan ch f s = s\<lparr>chans := (chans s)(ch := f (chans s ch))\<rparr>"

definition upd_req :: "nat \<Rightarrow> (skcipher_request \<Rightarrow> skcipher_request) \<Rightarrow> hica_muc_priv \<Rightarrow> hica_muc_priv" where
  "upd_req rid f s = s\<lparr>reqs := (reqs s)(rid := f (reqs s rid))\<rparr>"

definition upd_r_ctx :: "nat \<Rightarrow> (hica_muc_req_ctx \<Rightarrow> hica_muc_req_ctx) \<Rightarrow> hica_muc_priv \<Rightarrow> hica_muc_priv" where
  "upd_r_ctx rid f s = upd_req rid (\<lambda>r. r\<lparr>rq_ctx := f (rq_ctx r)\<rparr>) s"

text \<open>
  Kernel services outside this file. \<open>scatterwalk_map_and_copy(buf, sg, start,
  nbytes, out)\<close> copies \<open>nbytes\<close> bytes between \<open>buf\<close> and the scatterlist from
  its byte \<open>start\<close> on: out of the scatterlist for \<open>out = 0\<close>, into it for
  \<open>out = 1\<close>.
\<close>

definition scatterwalk_copy_from :: "nat \<Rightarrow> nat \<Rightarrow> nat \<Rightarrow> nat \<Rightarrow> hica_muc_priv \<Rightarrow> hica_muc_priv" where
  "scatterwalk_copy_from ch sgp start n s =
     upd_chan ch (\<lambda>c. c\<lparr>inout := (\<lambda>k. if k < n then bytes (sgls s sgp) (start + k) else inout c k)\<rparr>) s"

definition scatterwalk_copy_to :: "nat \<Rightarrow> nat \<Rightarrow> nat \<Rightarrow> nat \<Rightarrow> hica_muc_priv \<Rightarrow> hica_muc_priv" where
  "scatterwalk_copy_to ch sgp start n s =
     s\<lparr>sgls := (sgls s)(sgp := (sgls s sgp)\<lparr>bytes :=
        (\<lambda>p. if start \<le> p \<and> p < start + n then inout (chans s ch) (p - start)
              else bytes (sgls s sgp) p)\<rparr>)\<rparr>"

text \<open>\<open>dma_map_sg\<close> returns the next result of the environment, 0 when none is left.\<close>

definition dma_map_sg :: "hica_muc_priv \<Rightarrow> int \<times> hica_muc_priv" where
  "dma_map_sg s = (case dma_map s of [] \<Rightarrow> (0, s) | r # rs \<Rightarrow> (r, s\<lparr>dma_map := rs\<rparr>))"

definition dma_unmap_sg :: "nat \<Rightarrow> hica_muc_priv \<Rightarrow> hica_muc_priv" where
  "dma_unmap_sg sgp s = s\<lparr>dma_unmapped := dma_unmapped s @ [sgp]\<rparr>"

definition skcipher_request_complete :: "nat \<Rightarrow> retval \<Rightarrow> hica_muc_priv \<Rightarrow> hica_muc_priv" where
  "skcipher_request_complete rid ret s = s\<lparr>completed := completed s @ [(rid, ret)]\<rparr>"

definition complete :: "hica_muc_priv \<Rightarrow> hica_muc_priv" where
  "complete s = s\<lparr>cond := Suc (cond s)\<rparr>"

text \<open>
  Modelled from the spec: the kernel macro \<open>ALIGN\<close> is not among the sources. The run
  length is the "request length rounded up to a multiple of chunk size", computed as
  the kernel does for a power of two: \<open>(x + (a - 1)) & ~(a - 1)\<close>.
\<close>

definition ALIGN :: "u32 \<Rightarrow> u32 \<Rightarrow> u32" where
  "ALIGN x a = (x + (a - 1)) AND NOT (a - 1)"

subsection \<open>Channel\<close>

definition hica_muc_chan_ctrl :: "nat \<Rightarrow> nat \<Rightarrow> bool \<Rightarrow> hica_muc_priv \<Rightarrow> hica_muc_priv" where
  "hica_muc_chan_ctrl ch rid key_from_mkl s =
     (let r_ctx = rq_ctx (reqs s rid);
          ctx = rq_tfm (reqs s rid);
          ctrl_reg = (if ch = MUC_CHAN_PKG1 then MUC_CHAN0_CTRL else MUC_CHANn_CTRL ch);
          v0 = readl s ctrl_reg;
          v1 = (if decrypting r_ctx then v0 OR MUC_CTRL_DECRYPT else v0 AND NOT MUC_CTRL_DECRYPT);
          v2 = (v1 AND NOT MUC_CTRL_MODE) OR (push_bit 1 (mode (ctrl ctx)) AND MUC_CTRL_MODE);
          v3 = (v2 AND NOT MUC_CTRL_ALG) OR (push_bit 4 (alg (ctrl ctx)) AND MUC_CTRL_ALG);
          v4 = (v3 AND NOT MUC_CTRL_WIDTH) OR (push_bit 6 (width (ctrl ctx)) AND MUC_CTRL_WIDTH);
          v5 = (if ch = MUC_CHAN_PKG1 \<and> mode (ctrl ctx) \<noteq> MUC_MODE_ECB
                then v4 OR MUC_CTRL_CHAN0_IV_SET else v4 AND NOT MUC_CTRL_CHAN0_IV_SET);
          v6 = (v5 AND NOT MUC_CTRL_KEY) OR (push_bit 9 (key (ctrl ctx)) AND MUC_CTRL_KEY);
          v7 = (if key_from_mkl then v6 OR MUC_CTRL_KEY_FROM_MKL
                else ((v6 AND NOT MUC_CTRL_KEY_FROM_MKL) AND NOT MUC_CTRL_KEY_ID)
                       OR (push_bit 14 (of_nat ch) AND MUC_CTRL_KEY_ID))
      in writel v7 ctrl_reg s)"

definition hica_muc_chan_iv_get :: "nat \<Rightarrow> nat \<Rightarrow> hica_muc_priv \<Rightarrow> hica_muc_priv" where
  "hica_muc_chan_iv_get ch rid s =
     (let ctx = rq_tfm (reqs s rid)
      in if mode (ctrl ctx) = MUC_MODE_ECB then s
         else upd_req rid (\<lambda>r. r\<lparr>rq_iv := hica_readl_seq (rq_iv r) 0 s (MUC_CHANn_IV_OUT0 ch) (ivsize ctx)\<rparr>) s)"

subsubsection \<open>Channel 0\<close>

definition hica_muc_chan_push_0 :: "nat \<Rightarrow> nat \<Rightarrow> hica_muc_priv \<Rightarrow> retval \<times> hica_muc_priv" where
  "hica_muc_chan_push_0 ch rid s =
     (let chan = chans s ch;
          rq = reqs s rid;
          r_ctx = rq_ctx rq;
          ctx = rq_tfm rq;
          offset_mod = rc_offset r_ctx AND (inout_size chan - 1)
      in if readl s MUC_CHAN0_CFG AND MUC_CHAN0_BUSY \<noteq> 0 then (ERR EBUSY, s)
         else
           let s1 = (if rc_offset r_ctx \<noteq> 0 then
                       upd_chan ch (\<lambda>c. c\<lparr>inout := hica_readl_seq (inout c)
                           (unat ((rc_offset r_ctx - chunksize ctx) AND (inout_size chan - 1)))
                           s MUC_CHAN0_DATA_OUT0 (chunksize ctx)\<rparr>) s
                     else s)
           in if rc_offset r_ctx \<ge> cryptlen rq then (OK, s1)
              else
                let s2 = (if rc_offset r_ctx \<noteq> 0 \<and> offset_mod = 0 then
                            scatterwalk_copy_from ch (rq_src rq) (unat (rc_offset r_ctx))
                              (unat (min (cryptlen rq - rc_offset r_ctx) (inout_size chan)))
                              (scatterwalk_copy_to ch (rq_dst rq)
                                 (unat (rc_offset r_ctx - inout_size chan))
                                 (unat (inout_size chan)) s1)
                          else s1);
                    s3 = (if mode (ctrl ctx) \<noteq> MUC_MODE_ECB \<and> rc_offset r_ctx = chunksize ctx then
                            writel (readl s2 MUC_CHAN0_CTRL AND NOT MUC_CTRL_CHAN0_IV_SET)
                              MUC_CHAN0_CTRL s2
                          else s2);
                    s4 = hica_writel_seq (inout (chans s3 ch)) (unat offset_mod)
                           MUC_CHAN0_DATA_IN0 (chunksize ctx) s3
                in (ERR EINPROGRESS,
                    upd_r_ctx rid (\<lambda>c. c\<lparr>rc_offset := rc_offset c + chunksize ctx\<rparr>) s4))"

definition hica_muc_chan_emit_0 :: "hica_muc_priv \<Rightarrow> hica_muc_priv" where
  "hica_muc_chan_emit_0 s = writel MUC_CHAN0_START MUC_CHAN0_CFG s"

definition memzero_explicit :: "(nat \<Rightarrow> u8) \<Rightarrow> nat \<Rightarrow> (nat \<Rightarrow> u8)" where
  "memzero_explicit b n = (\<lambda>k. if k < n then 0 else b k)"

definition hica_muc_chan_unprepare_0 :: "nat \<Rightarrow> nat \<Rightarrow> bool \<Rightarrow> hica_muc_priv \<Rightarrow> hica_muc_priv" where
  "hica_muc_chan_unprepare_0 ch rid no_output s =
     (let chan = chans s ch;
          rq = reqs s rid;
          ctx = rq_tfm rq;
          s1 = (if \<not> no_output then
                  (let cryptlen_mod = cryptlen rq AND (inout_size chan - 1)
                   in scatterwalk_copy_to ch (rq_dst rq) (unat (cryptlen rq - cryptlen_mod))
                        (unat cryptlen_mod) (hica_muc_chan_iv_get ch rid s))
                else s);
          s2 = hica_setl_seq 0 MUC_CHAN0_DATA_IN0 (chunksize ctx) s1;
          s3 = (if mode (ctrl ctx) \<noteq> MUC_MODE_ECB
                then hica_setl_seq 0 MUC_CHAN0_IV_IN0 (ivsize ctx) s2 else s2)
      in upd_chan ch (\<lambda>c. c\<lparr>inout := memzero_explicit (inout c) (unat (inout_size c))\<rparr>) s3)"

definition hica_muc_chan_prepare_0 :: "nat \<Rightarrow> nat \<Rightarrow> hica_muc_priv \<Rightarrow> retval \<times> hica_muc_priv" where
  "hica_muc_chan_prepare_0 ch rid s =
     (let chan = chans s ch;
          rq = reqs s rid;
          ctx = rq_tfm rq;
          s1 = (if mode (ctrl ctx) \<noteq> MUC_MODE_ECB
                then hica_writel_seq (rq_iv rq) 0 MUC_CHAN0_IV_IN0 (ivsize ctx) s else s);
          s2 = upd_r_ctx rid (\<lambda>c. c\<lparr>rc_offset := 0\<rparr>) s1
      in (OK, scatterwalk_copy_from ch (rq_src rq) 0
                (unat (min (cryptlen rq) (inout_size chan))) s2))"

subsubsection \<open>Channel n\<close>

text \<open>
  The block \<open>if (src_todo) { ... }\<close> of \<open>_hica_muc_chan_push_n\<close> (\<open>is_dst = False\<close>)
  and its twin \<open>if (dst_todo) { ... }\<close> (\<open>is_dst = True\<close>), which differ in the
  registers only: acknowledge the used count, with \<open>extra_check\<close> repair the ring
  address and size, then read the ring pointer and fail with \<open>-EIO\<close> when it lies
  outside the ring.
\<close>

definition push_n_ring_status :: "bool \<Rightarrow> nat \<Rightarrow> hica_muc_priv \<Rightarrow> (errno + u32) \<times> hica_muc_priv" where
  "push_n_ring_status is_dst ch s =
     (let chan = chans s ch;
          cnt = (if is_dst then MUC_CHANn_OUT_FULL_CNT ch else MUC_CHANn_IN_EMPTY_CNT ch);
          val = readw s cnt;
          s1 = (if val \<noteq> 0 then writew val cnt s else s);
          s2 = (if extra_check s1 then
                  (let lst = (if is_dst then MUC_CHANn_DST_LST_ADDR ch else MUC_CHANn_SRC_LST_ADDR ch);
                       a = (if is_dst then dst_addr chan else src_addr chan);
                       s' = (if readl s1 lst \<noteq> a then writel a lst s1 else s1);
                       num = (if is_dst then MUC_CHANn_OUT_BUF_NUM ch else MUC_CHANn_IN_BUF_NUM ch)
                   in if readw s' num \<noteq> list_size chan then writew (list_size chan) num s' else s')
                else s1);
          i = readw s2 (if is_dst then MUC_CHANn_DST_LST_PTR ch else MUC_CHANn_SRC_LST_PTR ch)
      in if i \<ge> list_size chan then (Inl EIO, s2) else (Inr i, s2))"

text \<open>
  \<open>_hica_muc_chan_push_n\<close> from the comment "set buffers" on. Without \<open>eof\<close> the
  rings are filled by \<open>hica_muc_list_append\<close>; with \<open>eof\<close> (the stall fixup) one
  descriptor of \<open>MUC_BLOCK_SIZE\<close> bytes at the pad buffer goes into each ring.
\<close>

definition push_n_set_buffers ::
  "nat \<Rightarrow> nat \<Rightarrow> bool \<Rightarrow> bool \<Rightarrow> u32 \<Rightarrow> u32 \<Rightarrow> u32 \<Rightarrow> hica_muc_priv \<Rightarrow> retval \<times> hica_muc_priv" where
  "push_n_set_buffers ch rid src_todo dst_todo src_i dst_i dst_n s =
     (if \<not> eof (rq_ctx (reqs s rid)) then
        (case (if \<not> src_todo then (Inr 0, src (chans s ch), rc_src (rq_ctx (reqs s rid)))
               else hica_muc_list_append (src (chans s ch)) src_i (rc_src (rq_ctx (reqs s rid)))
                      (chans s ch) (reqs s rid) False) of
           (r1, l1, it1) \<Rightarrow>
             (let s1 = upd_r_ctx rid (\<lambda>c. c\<lparr>rc_src := it1\<rparr>) (upd_chan ch (\<lambda>c. c\<lparr>src := l1\<rparr>) s)
              in case r1 of
                   Inl e \<Rightarrow> (ERR e, s1)
                 | Inr src_emit \<Rightarrow>
                     (case (if \<not> dst_todo then (Inr 0, dst (chans s1 ch), rc_dst (rq_ctx (reqs s1 rid)))
                            else hica_muc_list_append (dst (chans s1 ch)) dst_i
                                   (rc_dst (rq_ctx (reqs s1 rid))) (chans s1 ch) (reqs s1 rid) True) of
                        (r2, l2, it2) \<Rightarrow>
                          (let s2 = upd_r_ctx rid (\<lambda>c. c\<lparr>rc_dst := it2\<rparr>)
                                      (upd_chan ch (\<lambda>c. c\<lparr>dst := l2\<rparr>) s1)
                           in case r2 of
                                Inl e \<Rightarrow> (ERR e, s2)
                              | Inr dst_emit \<Rightarrow>
                                  (ERR EINPROGRESS,
                                   upd_chan ch (\<lambda>c. c\<lparr>src_emit_n := of_nat src_emit,
                                                        dst_emit_n := of_nat dst_emit\<rparr>) s2)))))
      else
        (let chan = chans s ch;
             pad = \<lparr>addr = pad_addr chan, flags = MUC_BUF_FLAG_END_OF_LIST, len = MUC_BLOCK_SIZE,
                    iv_addr = 0\<rparr>;
             l1 = ring_write (src chan) src_i
                    (pad\<lparr>iv_addr := iv_addr (src chan ! unat src_i)\<rparr>);
             dst_i1 = dst_i + dst_n;
             dst_i2 = (if dst_i1 \<ge> list_size chan then dst_i1 - list_size chan else dst_i1);
             l2 = ring_write (dst chan) dst_i2
                    (pad\<lparr>iv_addr := iv_addr (dst chan ! unat dst_i2)\<rparr>)
         in (ERR EINPROGRESS,
             upd_chan ch (\<lambda>c. c\<lparr>src := l1, dst := l2, src_emit_n := 1, dst_emit_n := 1\<rparr>) s)))"

definition push_n_rings ::
  "nat \<Rightarrow> nat \<Rightarrow> bool \<Rightarrow> bool \<Rightarrow> u32 \<Rightarrow> hica_muc_priv \<Rightarrow> retval \<times> hica_muc_priv" where
  "push_n_rings ch rid src_todo dst_todo dst_n s =
     (case (if src_todo then push_n_ring_status False ch s else (Inr 0, s)) of
        (Inl e, s1) \<Rightarrow> (ERR e, s1)
      | (Inr src_i, s1) \<Rightarrow>
          (case (if dst_todo then push_n_ring_status True ch s1 else (Inr 0, s1)) of
             (Inl e, s2) \<Rightarrow> (ERR e, s2)
           | (Inr dst_i, s2) \<Rightarrow>
               push_n_set_buffers ch rid src_todo dst_todo src_i dst_i dst_n s2))"

definition hica_muc_chan_push_n :: "nat \<Rightarrow> nat \<Rightarrow> hica_muc_priv \<Rightarrow> retval \<times> hica_muc_priv" where
  "hica_muc_chan_push_n ch rid s =
     (let r_ctx = rq_ctx (reqs s rid);
          src_eof = (offset (rc_src r_ctx) \<ge> runlen r_ctx);
          src_n = readl s (MUC_CHANn_IN_BUF_CNT ch);
          dst_eof = (offset (rc_dst r_ctx) \<ge> runlen r_ctx);
          dst_n = readl s (MUC_CHANn_OUT_BUF_CNT ch)
      in if src_n = 0 \<and> dst_n = 0 \<and> eof r_ctx then (OK, s)
         else if (src_n \<noteq> 0 \<and> dst_n \<noteq> 0) \<or> eof r_ctx then (ERR EBUSY, s)
         else if src_eof \<and> dst_eof \<and> src_n = 0 then
           (let s1 = hica_muc_chan_iv_get ch rid (upd_r_ctx rid (\<lambda>c. c\<lparr>eof := True\<rparr>) s)
            in if dst_n = 0 then (OK, s1)
               else if drop_bit 24 (readl s1 (MUC_CHANn_OUT_LEFT ch)) = 0 then (ERR EBUSY, s1)
               else push_n_rings ch rid True True dst_n s1)
         else push_n_rings ch rid (src_n = 0 \<and> \<not> src_eof) (dst_n = 0 \<and> \<not> dst_eof) dst_n s)"

definition hica_muc_chan_emit_n :: "nat \<Rightarrow> hica_muc_priv \<Rightarrow> hica_muc_priv" where
  "hica_muc_chan_emit_n ch s =
     (let src_emit = src_emit_n (chans s ch);
          dst_emit = dst_emit_n (chans s ch);
          s1 = upd_chan ch (\<lambda>c. c\<lparr>src_emit_n := 0, dst_emit_n := 0\<rparr>) s;
          s2 = (if dst_emit \<noteq> 0 then
                  writew dst_emit (MUC_CHANn_OUT_BUF_CNT ch)
                    (writew dst_emit (MUC_CHANn_INT_OUT_CNT_CFG ch) s1)
                else s1)
      in if src_emit \<noteq> 0 then
           writew src_emit (MUC_CHANn_IN_BUF_CNT ch)
             (writew src_emit (MUC_CHANn_INT_IN_CNT_CFG ch) s2)
         else s2)"

definition hica_muc_chan_unprepare_n :: "nat \<Rightarrow> nat \<Rightarrow> bool \<Rightarrow> hica_muc_priv \<Rightarrow> hica_muc_priv" where
  "hica_muc_chan_unprepare_n ch rid no_output s =
     (let rq = reqs s rid;
          bidirectional = (rq_src rq = rq_dst rq);
          ctx = rq_tfm rq;
          s1 = dma_unmap_sg (rq_src rq) s;
          s2 = (if \<not> bidirectional then dma_unmap_sg (rq_dst rq) s1 else s1)
      in if mode (ctrl ctx) \<noteq> MUC_MODE_ECB
         then upd_chan ch (\<lambda>c. c\<lparr>chan_iv := memzero_explicit (chan_iv c) MUC_IV_SIZE\<rparr>) s2
         else s2)"

text \<open>
  \<open>_hica_muc_chan_prepare_n\<close> after both scatterlists are mapped.
\<close>

definition prepare_n_setup :: "nat \<Rightarrow> nat \<Rightarrow> int \<Rightarrow> int \<Rightarrow> hica_muc_priv \<Rightarrow> hica_muc_priv" where
  "prepare_n_setup ch rid src_n dst_n s =
     (let chan = chans s ch;
          rq = reqs s rid;
          ctx = rq_tfm rq;
          s1 = upd_r_ctx rid (\<lambda>c. c\<lparr>src_nents := src_n, dst_nents := dst_n,
                 runlen := ALIGN (cryptlen rq) (chunksize ctx), eof := False,
                 rc_src := sg_iter_init (ents (sgls s (rq_src rq))),
                 rc_dst := sg_iter_init (ents (sgls s (rq_dst rq)))\<rparr>) s;
          s2 = writew 0 (MUC_CHANn_IN_AGE_CNT ch)
                 (writew (list_size chan) (MUC_CHANn_IN_BUF_NUM ch)
                   (writel (src_addr chan) (MUC_CHANn_SRC_LST_ADDR ch) s1));
          s3 = writew 0 (MUC_CHANn_OUT_AGE_CNT ch)
                 (writew (list_size chan) (MUC_CHANn_OUT_BUF_NUM ch)
                   (writel (dst_addr chan) (MUC_CHANn_DST_LST_ADDR ch) s2));
          s4 = writel 0 (MUC_CHANn_IN_LEFT ch) s3;
          val = readw s4 (MUC_CHANn_OUT_BUF_CNT ch);
          s5 = (if val \<noteq> 0 then writew (0x10000 - val) (MUC_CHANn_OUT_BUF_CNT ch) s4 else s4)
      in if mode (ctrl ctx) \<noteq> MUC_MODE_ECB
         then upd_chan ch (\<lambda>c. c\<lparr>chan_iv := (\<lambda>k. if k < MUC_IV_SIZE then rq_iv rq k else chan_iv c k)\<rparr>) s5
         else s5)"

definition hica_muc_chan_prepare_n :: "nat \<Rightarrow> nat \<Rightarrow> hica_muc_priv \<Rightarrow> retval \<times> hica_muc_priv" where
  "hica_muc_chan_prepare_n ch rid s =
     (let rq = reqs s rid;
          bidirectional = (rq_src rq = rq_dst rq)
      in case nents_for_len s (rq_src rq) (cryptlen rq) of
           None \<Rightarrow> (ERR EINVAL, s)
         | Some n1 \<Rightarrow>
             (case (if \<not> bidirectional then nents_for_len s (rq_dst rq) (cryptlen rq) else Some 0) of
                None \<Rightarrow> (ERR EINVAL, s)
              | Some n2 \<Rightarrow>
                  (case dma_map_sg s of
                     (src_n, s1) \<Rightarrow>
                       if src_n \<le> 0 then (ERR EIO, s1)
                       else if bidirectional then (OK, prepare_n_setup ch rid src_n src_n s1)
                       else
                         (case dma_map_sg s1 of
                            (dst_n, s2) \<Rightarrow>
                              if dst_n \<le> 0 then (ERR EIO, dma_unmap_sg (rq_src rq) s2)
                              else (OK, prepare_n_setup ch rid src_n dst_n s2)))))"

subsubsection \<open>Both kinds of channel\<close>

definition hica_muc_chan_push :: "nat \<Rightarrow> nat \<Rightarrow> hica_muc_priv \<Rightarrow> retval \<times> hica_muc_priv" where
  "hica_muc_chan_push ch rid s =
     (if dirty (chans s ch) then (ERR EBUSY, s)
      else
        (case (if ch = MUC_CHAN_PKG1 then hica_muc_chan_push_0 ch rid s
               else hica_muc_chan_push_n ch rid s) of
           (ret, s1) \<Rightarrow>
             (ret, if ret = ERR EINPROGRESS then upd_chan ch (\<lambda>c. c\<lparr>dirty := True\<rparr>) s1 else s1)))"

definition hica_muc_chan_emit :: "nat \<Rightarrow> hica_muc_priv \<Rightarrow> hica_muc_priv" where
  "hica_muc_chan_emit ch s =
     (if \<not> dirty (chans s ch) then s
      else if ch = MUC_CHAN_PKG1 then hica_muc_chan_emit_0 s
      else hica_muc_chan_emit_n ch s)"

definition hica_muc_chan_unprepare :: "nat \<Rightarrow> nat \<Rightarrow> bool \<Rightarrow> hica_muc_priv \<Rightarrow> hica_muc_priv" where
  "hica_muc_chan_unprepare ch rid no_output s =
     (let ctx = rq_tfm (reqs s rid);
          s1 = (if keysize ctx \<noteq> 0 then hica_setl_seq 0 (MUC_CHANn_KEY0 ch) (keysize ctx) s else s);
          s2 = (if ch = MUC_CHAN_PKG1 then hica_muc_chan_unprepare_0 ch rid no_output s1
                else hica_muc_chan_unprepare_n ch rid no_output s1)
      in if mode (ctrl ctx) \<noteq> MUC_MODE_ECB
         then hica_setl_seq 0 (MUC_CHANn_IV_OUT0 ch) (ivsize ctx) s2
         else s2)"

definition hica_muc_chan_prepare :: "nat \<Rightarrow> nat \<Rightarrow> hica_muc_priv \<Rightarrow> retval \<times> hica_muc_priv" where
  "hica_muc_chan_prepare ch rid s =
     (let ctx = rq_tfm (reqs s rid)
      in case (if ch = MUC_CHAN_PKG1 then hica_muc_chan_prepare_0 ch rid s
               else hica_muc_chan_prepare_n ch rid s) of
           (ret, s1) \<Rightarrow>
             if ret \<noteq> OK then (ret, s1)
             else
               (let s2 = hica_muc_chan_ctrl ch rid (keysize ctx = 0) s1
                in (OK, if keysize ctx \<noteq> 0
                        then hica_writel_seq (tfm_key ctx) 0 (MUC_CHANn_KEY0 ch) (keysize ctx) s2
                        else s2)))"

subsection \<open>Sweeper and interrupt handler\<close>

text \<open>
  The body of the loop of \<open>hica_muc_process\<close> for channel \<open>ch\<close>. The \<open>xchg\<close> takes
  the request out of the channel and leaves \<open>ERR_PTR(-EBUSY)\<close>; the final store puts
  the request back, or \<open>NULL\<close> once it is completed.
\<close>

definition process_chan :: "nat \<Rightarrow> u32 \<times> hica_muc_priv \<Rightarrow> u32 \<times> hica_muc_priv" where
  "process_chan ch ms =
     (case ms of (msk, s) \<Rightarrow>
        (case req (chans s ch) of
           NULL \<Rightarrow> (msk, s)
         | ERR_PTR e \<Rightarrow> (msk, s)
         | REQ rid \<Rightarrow>
             (case hica_muc_chan_push ch rid (upd_chan ch (\<lambda>c. c\<lparr>req := ERR_PTR EBUSY\<rparr>) s) of
                (ret, s1) \<Rightarrow>
                  if ret = ERR EBUSY then (msk, upd_chan ch (\<lambda>c. c\<lparr>req := REQ rid\<rparr>) s1)
                  else if ret = ERR EINPROGRESS then
                    (msk OR BIT ch,
                     hica_muc_chan_emit ch (upd_chan ch (\<lambda>c. c\<lparr>req := REQ rid\<rparr>) s1))
                  else
                    (msk OR BIT ch,
                     upd_chan ch (\<lambda>c. c\<lparr>req := NULL\<rparr>)
                       (skcipher_request_complete rid ret
                          (hica_muc_chan_unprepare ch rid (ret \<noteq> OK) s1))))))"

definition hica_muc_process :: "hica_muc_priv \<Rightarrow> u32 \<times> hica_muc_priv" where
  "hica_muc_process s = fold process_chan [0 ..< MUC_CHAN_NUM] (0, s)"

datatype irqreturn = IRQ_NONE | IRQ_HANDLED

definition clear_dirty_bits :: "u32 \<Rightarrow> hica_muc_priv \<Rightarrow> hica_muc_priv" where
  "clear_dirty_bits val s =
     fold (\<lambda>ch t. if val AND BIT ch \<noteq> 0 then upd_chan ch (\<lambda>c. c\<lparr>dirty := False\<rparr>) t else t)
       [0 ..< MUC_CHAN_NUM] s"

definition hica_muc_handle :: "hica_muc_priv \<Rightarrow> irqreturn \<times> hica_muc_priv" where
  "hica_muc_handle s =
     (let val0 = readl s MUC_INT_STATUS
      in if val0 = 0 then (IRQ_NONE, s)
         else
           (let s1 = writel val0 MUC_INT_RAW s;
                val = val0 OR drop_bit MUC_CHAN_NUM val0;
                s2 = clear_dirty_bits val s1
            in if val \<noteq> MUC_INT_CHAN0_DATA_DISPOSE then (IRQ_HANDLED, complete s2)
               else
                 (let slot = req (chans s2 MUC_CHAN_PKG1)
                  in if slot = ERR_PTR EBUSY then (IRQ_HANDLED, complete s2)
                     else
                       (case (case slot of
                                REQ rid \<Rightarrow> hica_muc_chan_push MUC_CHAN_PKG1 rid
                                  (upd_chan MUC_CHAN_PKG1 (\<lambda>c. c\<lparr>req := ERR_PTR EBUSY\<rparr>) s2)
                              | _ \<Rightarrow> (OK, upd_chan MUC_CHAN_PKG1 (\<lambda>c. c\<lparr>req := ERR_PTR EBUSY\<rparr>) s2)) of
                          (ret, s3) \<Rightarrow>
                            (let s4 = upd_chan MUC_CHAN_PKG1 (\<lambda>c. c\<lparr>req := slot\<rparr>) s3
                             in if ret = ERR EINPROGRESS
                                then (IRQ_HANDLED, hica_muc_chan_emit MUC_CHAN_PKG1 s4)
                                else (IRQ_HANDLED, complete s4))))))"

subsection \<open>skcipher\_alg\<close>

text \<open>
  Key sizes of \<open>crypto/aes.h\<close> and \<open>crypto/des.h\<close>, and \<open>aes_check_keylen\<close>, which
  accepts exactly the three AES key sizes. The headers are not among the sources.
\<close>

definition AES_KEYSIZE_128 :: u32 where "AES_KEYSIZE_128 = 16"
definition AES_KEYSIZE_192 :: u32 where "AES_KEYSIZE_192 = 24"
definition AES_KEYSIZE_256 :: u32 where "AES_KEYSIZE_256 = 32"
definition DES_KEY_SIZE :: u32 where "DES_KEY_SIZE = 8"
definition DES3_EDE_KEY_SIZE :: u32 where "DES3_EDE_KEY_SIZE = 24"

definition aes_check_keylen :: "u32 \<Rightarrow> retval" where
  "aes_check_keylen keylen =
     (if keylen = AES_KEYSIZE_128 \<or> keylen = AES_KEYSIZE_192 \<or> keylen = AES_KEYSIZE_256
      then OK else ERR EINVAL)"

definition hica_muc_ctrl_key_maps :: "(u32 \<times> u32 \<times> u32) list" where
  "hica_muc_ctrl_key_maps =
     [(MUC_ALG_AES, MUC_KEY_AES_256B, AES_KEYSIZE_256),
      (MUC_ALG_AES, MUC_KEY_AES_192B, AES_KEYSIZE_192),
      (MUC_ALG_AES, MUC_KEY_AES_128B, AES_KEYSIZE_128),
      (MUC_ALG_DES, MUC_KEY_DES, DES_KEY_SIZE),
      (MUC_ALG_DES3_EDE, MUC_KEY_DES3_EDE_3KEY, DES3_EDE_KEY_SIZE),
      (MUC_ALG_DES3_EDE, MUC_KEY_DES3_EDE_2KEY, 2 * DES_KEY_SIZE),
      (0, 0, 0)]"

fun key_lookup_loop :: "(u32 \<times> u32 \<times> u32) list \<Rightarrow> u32 \<Rightarrow> u32 \<Rightarrow> u32" where
  "key_lookup_loop [] a keylen = 0"
| "key_lookup_loop ((a', k, kl) # rest) a keylen =
     (if kl = 0 then 0
      else if a' = a \<and> kl = keylen then k
      else key_lookup_loop rest a keylen)"

definition hica_muc_ctrl_key_lookup :: "u32 \<Rightarrow> u32 \<Rightarrow> u32" where
  "hica_muc_ctrl_key_lookup a keylen = key_lookup_loop hica_muc_ctrl_key_maps a keylen"

text \<open>
  \<open>des_check_weakkey_half(key + off)\<close>: \<open>0\<close> as soon as one of the bytes 1, 2, 3
  differs from byte 0 in a bit other than the lowest (the parity bit), \<open>-EINVAL\<close>
  when none does.
\<close>

definition des_check_weakkey_half :: "(nat \<Rightarrow> u8) \<Rightarrow> nat \<Rightarrow> retval" where
  "des_check_weakkey_half k off =
     (if list_ex (\<lambda>i. drop_bit 1 (k (off + i) XOR k off) \<noteq> 0) [1 ..< unat DES_KEY_SIZE div 2]
      then OK else ERR EINVAL)"

definition des_check_weakkey :: "(nat \<Rightarrow> u8) \<Rightarrow> retval" where
  "des_check_weakkey k =
     (if des_check_weakkey_half k 0 \<noteq> OK then des_check_weakkey_half k 0
      else des_check_weakkey_half k (unat DES_KEY_SIZE div 2))"

text \<open>The three stores at the end of \<open>hica_muc_alg_setkey\<close>.\<close>

definition setkey_store :: "hica_muc_tfm_ctx \<Rightarrow> (nat \<Rightarrow> u8) \<Rightarrow> u32 \<Rightarrow> hica_muc_tfm_ctx" where
  "setkey_store ctx k keylen =
     ctx\<lparr>ctrl := (ctrl ctx)\<lparr>key := hica_muc_ctrl_key_lookup (alg (ctrl ctx)) keylen\<rparr>,
         tfm_key := (\<lambda>i. if i < unat keylen then k i else tfm_key ctx i),
         keysize := keylen\<rparr>"

text \<open>
  \<open>hica_muc_alg_setkey\<close> works on the transform context alone: it has no access to
  the device state, which is not among its arguments.
\<close>

definition hica_muc_alg_setkey :: "hica_muc_tfm_ctx \<Rightarrow> (nat \<Rightarrow> u8) \<Rightarrow> u32 \<Rightarrow> retval \<times> hica_muc_tfm_ctx" where
  "hica_muc_alg_setkey ctx k keylen =
     (if keylen > MUC_KEY_SIZE then (ERR EINVAL, ctx)
      else if alg (ctrl ctx) = MUC_ALG_AES then
        (if aes_check_keylen keylen \<noteq> OK then (ERR EINVAL, ctx)
         else (OK, setkey_store ctx k keylen))
      else if alg (ctrl ctx) = MUC_ALG_DES then
        (if keylen \<noteq> DES_KEY_SIZE then (ERR EINVAL, ctx)
         else if des_check_weakkey k \<noteq> OK then (ERR EINVAL, ctx)
         else (OK, setkey_store ctx k keylen))
      else if alg (ctrl ctx) = MUC_ALG_DES3_EDE then
        (if keylen \<noteq> DES3_EDE_KEY_SIZE then (ERR EINVAL, ctx)
         else (OK, setkey_store ctx k keylen))
      else (ERR EINVAL, ctx))"

definition hica_muc_req_is_short :: "hica_muc_priv \<Rightarrow> nat \<Rightarrow> bool" where
  "hica_muc_req_is_short s rid = (cryptlen (reqs s rid) \<le> small_request s)"

text \<open>
  The loop "get an idle channel" of \<open>hica_muc_alg_encdec\<close>: the first channel from
  the start index on whose \<open>req\<close> is \<open>NULL\<close>, which the \<open>cmpxchg\<close> then claims.
\<close>

definition get_idle_channel :: "nat \<Rightarrow> hica_muc_priv \<Rightarrow> nat option" where
  "get_idle_channel rid s =
     find (\<lambda>ch. req (chans s ch) = NULL)
       [(if no_dma s \<or> hica_muc_req_is_short s rid then MUC_CHAN_PKG1 else MUC_CHAN_PKGn_MIN)
          ..< MUC_CHAN_NUM]"

definition hica_muc_alg_encdec :: "nat \<Rightarrow> bool \<Rightarrow> hica_muc_priv \<Rightarrow> retval \<times> hica_muc_priv" where
  "hica_muc_alg_encdec rid decr s =
     (case get_idle_channel rid s of
        None \<Rightarrow> (ERR EBUSY, s)
      | Some ch \<Rightarrow>
          (let s1 = upd_chan ch (\<lambda>c. c\<lparr>req := ERR_PTR EBUSY\<rparr>) s;
               s2 = upd_r_ctx rid (\<lambda>c. c\<lparr>decrypting := decr\<rparr>) s1
           in case hica_muc_chan_prepare ch rid s2 of
                (ret, s3) \<Rightarrow>
                  if ret \<noteq> OK then (ret, upd_chan ch (\<lambda>c. c\<lparr>req := NULL\<rparr>) s3)
                  else (ERR EINPROGRESS, complete (upd_chan ch (\<lambda>c. c\<lparr>req := REQ rid\<rparr>) s3))))"

definition hica_muc_alg_encrypt :: "nat \<Rightarrow> hica_muc_priv \<Rightarrow> retval \<times> hica_muc_priv" where
  "hica_muc_alg_encrypt rid s = hica_muc_alg_encdec rid False s"

definition hica_muc_alg_decrypt :: "nat \<Rightarrow> hica_muc_priv \<Rightarrow> retval \<times> hica_muc_priv" where
  "hica_muc_alg_decrypt rid s = hica_muc_alg_encdec rid True s"

subsection \<open>Device\<close>

text \<open>
  What \<open>hica_muc_probe\<close> gets from the kernel and from the hardware: the outcome of
  each service it calls, in the order of the calls, and \<open>pe_int_cfg\<close>, the value the
  hardware returns for \<open>MUC_INT_CFG\<close> after the interrupts were enabled (the bit of
  a channel that is absent does not stick, which is how the probe finds the usable
  channels). \<open>pe_request_irq\<close> and \<open>pe_alg_register\<close> are the outcome of the whole
  loop, \<open>pe_chan_alloc\<close> the DMA address of the block allocated for a channel
  (\<open>None\<close>: the allocation fails).
\<close>

record probe_env =
  pe_kzalloc :: bool
  pe_ioremap :: retval
  pe_clk_bulk_get_all :: retval
  pe_reset_control_get :: retval
  pe_get_irq :: retval
  pe_kmalloc_array :: bool
  pe_reset_assert :: retval
  pe_clk_enable :: retval
  pe_reset_deassert :: retval
  pe_state_valid :: bool
  pe_int_cfg :: u32
  pe_request_irq :: retval
  pe_chan_alloc :: "nat \<Rightarrow> u32 option"
  pe_kthread_create :: retval
  pe_alg_register :: retval

definition hica_muc_chan_init :: "probe_env \<Rightarrow> nat \<Rightarrow> hica_muc_priv \<Rightarrow> retval \<times> hica_muc_priv" where
  "hica_muc_chan_init env ch s =
     (let s1 = upd_chan ch (\<lambda>c. c\<lparr>req := NULL\<rparr>) s
      in if ch = MUC_CHAN_PKG1 then
           (let s2 = upd_chan ch (\<lambda>c. c\<lparr>inout_size := small_request s\<rparr>) s1
            in case pe_chan_alloc env ch of None \<Rightarrow> (ERR ENOMEM, s2) | Some a \<Rightarrow> (OK, s2))
         else
           (let n = min MUC_BUF_NUM MUC_BUF_NUM_MAX;
                s2 = upd_chan ch (\<lambda>c. c\<lparr>list_size := n\<rparr>) s1;
                src_i = readw s2 (MUC_CHANn_SRC_LST_PTR ch);
                dst_i = readw s2 (MUC_CHANn_DST_LST_PTR ch)
            in if src_i \<ge> n \<or> dst_i \<ge> n then (ERR EINVAL, s2)
               else
                 (case pe_chan_alloc env ch of
                    None \<Rightarrow> (ERR ENOMEM, s2)
                  | Some a \<Rightarrow>
                      (let list_memsize = n * 16;
                           zero = \<lparr>addr = 0, flags = 0, len = 0, iv_addr = 0\<rparr>
                       in (OK, upd_chan ch (\<lambda>c. c\<lparr>src := replicate (unat n) zero,
                                  dst := replicate (unat n) zero,
                                  chan_iv := (\<lambda>k. 0),
                                  src_addr := a,
                                  dst_addr := a + list_memsize,
                                  chan_iv_addr := a + list_memsize + list_memsize,
                                  pad_addr := a + list_memsize + list_memsize + of_nat MUC_IV_SIZE\<rparr>) s2)))))"

fun setup_channels :: "probe_env \<Rightarrow> u32 \<Rightarrow> nat list \<Rightarrow> hica_muc_priv \<Rightarrow> retval \<times> hica_muc_priv" where
  "setup_channels env chan_mask [] s = (OK, s)"
| "setup_channels env chan_mask (ch # chs) s =
     (if chan_mask AND BIT ch = 0
      then setup_channels env chan_mask chs (upd_chan ch (\<lambda>c. c\<lparr>req := ERR_PTR EINVAL\<rparr>) s)
      else (case hica_muc_chan_init env ch s of
              (ret, s1) \<Rightarrow> if ret \<noteq> OK then (ret, s1) else setup_channels env chan_mask chs s1))"

text \<open>\<open>__fls\<close>: the index of the highest bit set (of a word that is not 0).\<close>

definition fls :: "u32 \<Rightarrow> nat" where
  "fls w = last (filter (bit w) [0 ..< 32])"

definition set_req_of_mask :: "u32 \<Rightarrow> req_slot \<Rightarrow> hica_muc_priv \<Rightarrow> hica_muc_priv" where
  "set_req_of_mask m r s =
     fold (\<lambda>ch t. if m AND BIT ch \<noteq> 0 then upd_chan ch (\<lambda>c. c\<lparr>req := r\<rparr>) t else t)
       [0 ..< MUC_CHAN_NUM] s"

text \<open>\<open>hica_muc_probe\<close> from the comment "clear bypass" on.\<close>

definition probe_finish :: "probe_env \<Rightarrow> u32 \<Rightarrow> hica_muc_priv \<Rightarrow> retval \<times> hica_muc_priv" where
  "probe_finish env chan_mask s =
     (let s1 = writel (readl s MUC_SRC_ADDR_SMMU_BYPASS AND NOT 0xFF) MUC_SRC_ADDR_SMMU_BYPASS s;
          s2 = writel (readl s1 MUC_DST_ADDR_SMMU_BYPASS AND NOT 0xFF) MUC_DST_ADDR_SMMU_BYPASS s1
      in if pe_request_irq env \<noteq> OK then (pe_request_irq env, s2)
         else
           (case setup_channels env chan_mask [0 ..< MUC_CHAN_NUM] s2 of
              (ret, s3) \<Rightarrow>
                if ret \<noteq> OK then (ret, s3)
                else
                  (let hold = (if chan_mask AND (chan_mask - 1) = 0 \<or> extra_check s3 then 0
                               else chan_mask AND NOT (BIT (fls chan_mask)));
                       s4 = set_req_of_mask hold (ERR_PTR EBUSY) s3
                   in if pe_kthread_create env \<noteq> OK then (pe_kthread_create env, s4)
                      else if pe_alg_register env \<noteq> OK then (pe_alg_register env, s4)
                      else (OK, set_req_of_mask hold NULL s4))))"

text \<open>
  The channel test of \<open>hica_muc_probe\<close>: \<open>disable_mask\<close> from the module parameter
  \<open>disable\<close>, and \<open>chan_mask\<close>, the channels whose interrupt bit reads back set and
  which are not disabled. (\<open>BIT\<close> of a number above 31 is undefined in C and 0
  here.)
\<close>

definition probe_disable_mask :: "nat list \<Rightarrow> u32" where
  "probe_disable_mask ds = fold (\<lambda>d m. m OR BIT d) ds 0"

definition int_ok :: "u32 \<Rightarrow> nat \<Rightarrow> bool" where
  "int_ok val ch = (val AND MUC_INT_CHANn_OUT_BUF ch \<noteq> 0)"

definition enabled :: "u32 \<Rightarrow> nat \<Rightarrow> bool" where
  "enabled disable_mask ch = (disable_mask AND BIT ch = 0)"

definition probe_chan_mask :: "u32 \<Rightarrow> u32 \<Rightarrow> u32" where
  "probe_chan_mask val disable_mask =
     fold (\<lambda>ch m. if int_ok val ch \<and> enabled disable_mask ch then m OR BIT ch else m)
       [0 ..< MUC_CHAN_NUM] 0"

text \<open>\<open>hica_muc_probe\<close> from the comment "clear all interrupts" on.\<close>

definition probe_bring_up :: "probe_env \<Rightarrow> hica_muc_priv \<Rightarrow> retval \<times> hica_muc_priv" where
  "probe_bring_up env s =
     (let s1 = writel (- 1) MUC_INT_RAW s;
          s2 = writel (fold (\<lambda>ch v. v OR BIT ch) [0 ..< MUC_CHAN_NUM] (readl s1 MUC_SEC_CHAN_CFG))
                 MUC_SEC_CHAN_CFG s1;
          en = fold (\<lambda>ch v. v OR MUC_INT_CHANn_IN_BUF ch OR MUC_INT_CHANn_OUT_BUF ch)
                 [MUC_CHAN_PKGn_MIN ..< MUC_CHAN_NUM] (readl s2 MUC_INT_CFG);
          s3 = writel (en OR MUC_INT_CHAN0_DATA_DISPOSE OR MUC_INT_CFG_SEC_EN OR MUC_INT_CFG_NSEC_EN)
                 MUC_INT_CFG s2;
          s4 = s3\<lparr>regs := (regs s3)(MUC_INT_CFG := pe_int_cfg env)\<rparr>;
          disable_mask = probe_disable_mask (disable s4);
          chan_mask = probe_chan_mask (readl s4 MUC_INT_CFG) disable_mask
      in if chan_mask = 0 then (ERR ENODEV, s4)
         else
           (let s5 = s4\<lparr>no_dma := (chan_mask = BIT MUC_CHAN_PKG1)\<rparr>
            in if no_dma s5 \<and> disable_mask = 0 then (ERR EINVAL, s5)
               else probe_finish env chan_mask s5))"

text \<open>
  \<open>hica_muc_probe\<close>. A result other than \<open>OK\<close> is a failed probe: the driver core
  drops the device, and the error labels only switch the clocks off and assert the
  reset again.
\<close>

definition hica_muc_probe :: "probe_env \<Rightarrow> hica_muc_priv \<Rightarrow> retval \<times> hica_muc_priv" where
  "hica_muc_probe env s =
     (if \<not> pe_kzalloc env then (ERR ENOMEM, s)
      else if pe_ioremap env \<noteq> OK then (pe_ioremap env, s)
      else if pe_clk_bulk_get_all env \<noteq> OK then (pe_clk_bulk_get_all env, s)
      else if pe_reset_control_get env \<noteq> OK then (pe_reset_control_get env, s)
      else if pe_get_irq env \<noteq> OK then (pe_get_irq env, s)
      else if \<not> pe_kmalloc_array env then (ERR ENOMEM, s)
      else if pe_reset_assert env \<noteq> OK then (pe_reset_assert env, s)
      else if pe_clk_enable env \<noteq> OK then (pe_clk_enable env, s)
      else if pe_reset_deassert env \<noteq> OK then (pe_reset_deassert env, s)
      else if \<not> pe_state_valid env then (ERR ENODEV, s)
      else probe_bring_up env s)"

subsection \<open>Concrete devices, transforms and requests\<close>

text \<open>
  A device after a successful probe with all eight channels usable and idle: the
  registers read 0, the rings are zeroed as \<open>dmam_alloc_attrs\<close> with \<open>__GFP_ZERO\<close>
  leaves them, channel \<open>ch\<close> has its DMA block at \<open>0x40000 + 0x1000 * ch\<close>, and
  the module parameters have their defaults. \<open>rs\<close> and \<open>sgs\<close> are the requests and
  scatterlists the caller holds, \<open>dm\<close> the results of the coming \<open>dma_map_sg\<close>
  calls.
\<close>

definition zero_buf :: hica_muc_buf where
  "zero_buf = \<lparr>addr = 0, flags = 0, len = 0, iv_addr = 0\<rparr>"

definition idle_chan :: "u32 \<Rightarrow> hica_muc_chan" where
  "idle_chan a =
     \<lparr>dirty = False, req = NULL, inout = (\<lambda>k. 0), inout_size = 256,
      src = replicate 15 zero_buf, dst = replicate 15 zero_buf, chan_iv = (\<lambda>k. 0),
      src_addr = a, dst_addr = a + 240, chan_iv_addr = a + 480, pad_addr = a + 496,
      src_emit_n = 0, dst_emit_n = 0, list_size = 15\<rparr>"

definition idle_priv ::
  "(nat \<Rightarrow> skcipher_request) \<Rightarrow> (nat \<Rightarrow> scatterlist) \<Rightarrow> int list \<Rightarrow> hica_muc_priv" where
  "idle_priv rs sgs dm =
     \<lparr>regs = (\<lambda>a. 0), no_dma = False,
      chans = (\<lambda>ch. idle_chan (0x40000 + 0x1000 * of_nat ch)),
      cond = 0, reqs = rs, sgls = sgs, completed = [], dma_map = dm, dma_unmapped = [],
      nents_for_len = (\<lambda>p n. Some 1), extra_check = False, small_request = 256,
      disable = []\<rparr>"

text \<open>Transform contexts as \<open>hica_muc_alg_init\<close> and a key of 16 or 8 bytes leave them.\<close>

definition tfm_of :: "u32 \<Rightarrow> u32 \<Rightarrow> u32 \<Rightarrow> u32 \<Rightarrow> hica_muc_tfm_ctx" where
  "tfm_of a m bs ks =
     \<lparr>ctrl = \<lparr>mode = m, alg = a, width = MUC_WIDTH_BLOCK, key = 0\<rparr>,
      ivsize = bs, chunksize = bs, keysize = ks, tfm_key = (\<lambda>i. of_nat i + 1)\<rparr>"

definition zero_req_ctx :: hica_muc_req_ctx where
  "zero_req_ctx =
     \<lparr>decrypting = False, rc_offset = 0, runlen = 0, eof = False, src_nents = 0, dst_nents = 0,
      rc_src = \<lparr>sg = [], sg_offset = 0, offset = 0\<rparr>,
      rc_dst = \<lparr>sg = [], sg_offset = 0, offset = 0\<rparr>\<rparr>"

text \<open>
  A request of \<open>n\<close> bytes from scatterlist 0 to scatterlist 1, and a scatterlist of
  one node of \<open>n\<close> bytes at DMA address \<open>a\<close>.
\<close>

definition request_of :: "hica_muc_tfm_ctx \<Rightarrow> u32 \<Rightarrow> skcipher_request" where
  "request_of ctx n =
     \<lparr>cryptlen = n, rq_src = 0, rq_dst = 1, rq_iv = (\<lambda>k. 0xA5), rq_tfm = ctx,
      rq_ctx = zero_req_ctx\<rparr>"

definition one_node :: "u32 \<Rightarrow> u32 \<Rightarrow> scatterlist" where
  "one_node a n = \<lparr>ents = [\<lparr>dma_address = a, sg_length = n\<rparr>], bytes = (\<lambda>k. 0x5A)\<rparr>"

definition key_of :: "u8 list \<Rightarrow> nat \<Rightarrow> u8" where
  "key_of xs i = (if i < length xs then xs ! i else 0)"

text \<open>
  The idle device whose caller holds requests of \<open>n\<close> bytes under the transform
  \<open>ctx\<close>, each from a one-node scatterlist.
\<close>

definition aes_cbc :: hica_muc_tfm_ctx where
  "aes_cbc = tfm_of MUC_ALG_AES MUC_MODE_CBC 16 16"

definition dev_of :: "hica_muc_tfm_ctx \<Rightarrow> u32 \<Rightarrow> int list \<Rightarrow> hica_muc_priv" where
  "dev_of ctx n dm = idle_priv (\<lambda>r. request_of ctx n) (\<lambda>p. one_node 0x10000 n) dm"

text \<open>
  A probe environment in which every kernel service succeeds and the hardware returns
  \<open>v\<close> for \<open>MUC_INT_CFG\<close>.
\<close>

definition probe_env_of :: "u32 \<Rightarrow> probe_env" where
  "probe_env_of v =
     \<lparr>pe_kzalloc = True, pe_ioremap = OK, pe_clk_bulk_get_all = OK, pe_reset_control_get = OK,
      pe_get_irq = OK, pe_kmalloc_array = True, pe_reset_assert = OK, pe_clk_enable = OK,
      pe_reset_deassert = OK, pe_state_valid = True, pe_int_cfg = v, pe_request_irq = OK,
      pe_chan_alloc = (\<lambda>ch. Some (0x40000 + 0x1000 * of_nat ch)), pe_kthread_create = OK,
      pe_alg_register = OK\<rparr>"

text \<open>
  A half of a DES key (the four bytes from \<open>off\<close> on) is uniform when its bytes
  agree in all bits but the lowest, the parity bit. The four weak keys of DES have two
  uniform halves; its semi-weak keys alternate two different bytes and have none.
\<close>

definition half_uniform :: "(nat \<Rightarrow> u8) \<Rightarrow> nat \<Rightarrow> bool" where
  "half_uniform k off = (\<forall>i \<in> {1, 2, 3}. drop_bit 1 (k (off + i)) = drop_bit 1 (k off))"

definition des_weak_keys :: "u8 list list" where
  "des_weak_keys =
     [[0x01, 0x01, 0x01, 0x01, 0x01, 0x01, 0x01, 0x01],
      [0xFE, 0xFE, 0xFE, 0xFE, 0xFE, 0xFE, 0xFE, 0xFE],
      [0xE0, 0xE0, 0xE0, 0xE0, 0xF1, 0xF1, 0xF1, 0xF1],
      [0x1F, 0x1F, 0x1F, 0x1F, 0x0E, 0x0E, 0x0E, 0x0E]]"

definition des_semi_weak_key :: "u8 list" where
  "des_semi_weak_key = [0x01, 0xFE, 0x01, 0xFE, 0x01, 0xFE, 0x01, 0xFE]"

text \<open>
  The device after request 0 of \<open>dev_of ctx n [1, 1]\<close> was submitted for encryption,
  and an idle device on which channel 1 has an outstanding submission.
\<close>

definition accepted_dev :: "hica_muc_tfm_ctx \<Rightarrow> u32 \<Rightarrow> hica_muc_priv" where
  "accepted_dev ctx n = snd (hica_muc_alg_encdec 0 False (dev_of ctx n [1, 1]))"

definition dirty_dev :: hica_muc_priv where
  "dirty_dev = upd_chan 1 (\<lambda>c. c\<lparr>dirty := True\<rparr>) (dev_of aes_cbc 4096 [])"

text \<open>
  The registers that the 32-bit accesses to \<open>n\<close> bytes from offset \<open>a\<close> on touch,
  and the key and IV registers of channel \<open>ch\<close>: its eight key registers, its four
  IV-output registers and, for channel 0, the four IV-input registers.
\<close>

definition seq_regs :: "nat \<Rightarrow> u32 \<Rightarrow> nat list" where
  "seq_regs a n = map (\<lambda>i. a + i) (seq_offsets n)"

definition key_iv_regs :: "nat \<Rightarrow> nat list" where
  "key_iv_regs ch =
     seq_regs (MUC_CHANn_KEY0 ch) MUC_KEY_SIZE @ seq_regs (MUC_CHANn_IV_OUT0 ch) (of_nat MUC_IV_SIZE)
       @ (if ch = MUC_CHAN_PKG1 then seq_regs MUC_CHAN0_IV_IN0 (of_nat MUC_IV_SIZE) else [])"

text \<open>
  A descriptor without the dummy flag, and a device none of whose ring slots holds a
  descriptor with the dummy flag.
\<close>

definition no_dummy :: "hica_muc_buf \<Rightarrow> bool" where
  "no_dummy b = (flags b AND MUC_BUF_FLAG_DUMMY = 0)"

definition rings_clean :: "hica_muc_chan \<Rightarrow> bool" where
  "rings_clean c = ((\<forall>b \<in> set (src c). no_dummy b) \<and> (\<forall>b \<in> set (dst c). no_dummy b))"

definition all_rings_clean :: "hica_muc_priv \<Rightarrow> bool" where
  "all_rings_clean s = (\<forall>ch. rings_clean (chans s ch))"

text \<open>
  The descriptor of the stall fixup: \<open>MUC_BLOCK_SIZE\<close> bytes at the pad buffer,
  flagged end-of-list only; \<open>old\<close> is the slot it is stored into, whose \<open>iv_addr\<close>
  stays.
\<close>

definition fixup_buf :: "hica_muc_chan \<Rightarrow> hica_muc_buf \<Rightarrow> hica_muc_buf" where
  "fixup_buf chan old =
     \<lparr>addr = pad_addr chan, flags = MUC_BUF_FLAG_END_OF_LIST, len = MUC_BLOCK_SIZE,
      iv_addr = iv_addr old\<rparr>"

text \<open>
  The device after request 0 of \<open>dev_of ctx n [1, 1]\<close> was submitted while channel 0
  was held by somebody else, so that it went to ring channel 1 whatever its length;
  and AES in CFB mode, a stream mode.
\<close>

definition ring_dev :: "hica_muc_tfm_ctx \<Rightarrow> u32 \<Rightarrow> hica_muc_priv" where
  "ring_dev ctx n =
     snd (hica_muc_alg_encdec 0 False
            (upd_chan 0 (\<lambda>c. c\<lparr>req := ERR_PTR EBUSY\<rparr>) (dev_of ctx n [1, 1])))"

definition aes_cfb :: hica_muc_tfm_ctx where
  "aes_cfb = tfm_of MUC_ALG_AES MUC_MODE_CFB 16 16"

text \<open>
  The device \<open>dev_of aes_cbc 4096 [1, 1]\<close> on which \<open>sg_nents_for_len\<close> fails for
  scatterlist \<open>p\<close>: the list is shorter than the request.
\<close>

definition unsized_dev :: "nat \<Rightarrow> hica_muc_priv" where
  "unsized_dev p =
     (dev_of aes_cbc 4096 [1, 1])\<lparr>nents_for_len := (\<lambda>q n. if q = p then None else Some 1)\<rparr>"



text \<open>
  Reading a ring: the \<open>n\<close> descriptors stored from slot \<open>i\<close> on, in the order
  of their slots, and the bytes of the request before descriptor \<open>k\<close> of such a
  list and up to its end.
\<close>

definition emitted :: "hica_muc_buf list \<Rightarrow> u32 \<Rightarrow> nat \<Rightarrow> hica_muc_buf list" where
  "emitted l i n = map (\<lambda>k. l ! ((unat i + k) mod length l)) [0 ..< n]"

definition desc_start :: "hica_muc_buf list \<Rightarrow> nat \<Rightarrow> nat" where
  "desc_start ds k = sum_list (map (\<lambda>b. unat (len b)) (take k ds))"

definition desc_end :: "hica_muc_buf list \<Rightarrow> nat \<Rightarrow> nat" where
  "desc_end ds k = desc_start ds k + unat (len (ds ! k))"

section \<open>Properties\<close>

subsection \<open>Bits\<close>

lemma bit_BIT: "bit (BIT n) k \<longleftrightarrow> k = n \<and> n < 32"
  by (auto simp: BIT_def bit_exp_iff)

lemma and_BIT_0: "(w AND BIT n = 0) \<longleftrightarrow> \<not> bit w n"
proof
  assume h: "w AND BIT n = 0"
  show "\<not> bit w n"
  proof
    assume b: "bit w n"
    then have "n < 32" using bit_imp_le_length[of w n] by simp
    with b have "bit (w AND BIT n) n" by (simp add: bit_and_iff bit_BIT)
    with h show False by simp
  qed
next
  assume "\<not> bit w n"
  then show "w AND BIT n = 0"
    by (intro bit_word_eqI) (auto simp: bit_and_iff bit_BIT)
qed

subsection \<open>Frame lemmas of the primitive state updates\<close>

lemma writel_fields [simp]:
  "no_dma (writel v a s) = no_dma s" "chans (writel v a s) = chans s" "cond (writel v a s) = cond s"
  "reqs (writel v a s) = reqs s" "sgls (writel v a s) = sgls s" "completed (writel v a s) = completed s"
  "dma_map (writel v a s) = dma_map s" "dma_unmapped (writel v a s) = dma_unmapped s"
  "nents_for_len (writel v a s) = nents_for_len s" "extra_check (writel v a s) = extra_check s"
  "small_request (writel v a s) = small_request s" "disable (writel v a s) = disable s"
  by (simp_all add: writel_def)

lemma writew_fields [simp]:
  "no_dma (writew v a s) = no_dma s" "chans (writew v a s) = chans s" "cond (writew v a s) = cond s"
  "reqs (writew v a s) = reqs s" "sgls (writew v a s) = sgls s" "completed (writew v a s) = completed s"
  "dma_map (writew v a s) = dma_map s" "dma_unmapped (writew v a s) = dma_unmapped s"
  "nents_for_len (writew v a s) = nents_for_len s" "extra_check (writew v a s) = extra_check s"
  "small_request (writew v a s) = small_request s" "disable (writew v a s) = disable s"
  by (simp_all add: writew_def)

lemma hica_writel_seq_fields [simp]:
  "no_dma (hica_writel_seq b off a n s) = no_dma s" "chans (hica_writel_seq b off a n s) = chans s"
  "cond (hica_writel_seq b off a n s) = cond s" "reqs (hica_writel_seq b off a n s) = reqs s"
  "sgls (hica_writel_seq b off a n s) = sgls s" "completed (hica_writel_seq b off a n s) = completed s"
  "dma_map (hica_writel_seq b off a n s) = dma_map s"
  "dma_unmapped (hica_writel_seq b off a n s) = dma_unmapped s"
  "nents_for_len (hica_writel_seq b off a n s) = nents_for_len s"
  "extra_check (hica_writel_seq b off a n s) = extra_check s"
  "small_request (hica_writel_seq b off a n s) = small_request s"
  "disable (hica_writel_seq b off a n s) = disable s"
  by (simp_all add: hica_writel_seq_def)

lemma hica_setl_seq_fields [simp]:
  "no_dma (hica_setl_seq v a n s) = no_dma s" "chans (hica_setl_seq v a n s) = chans s"
  "cond (hica_setl_seq v a n s) = cond s" "reqs (hica_setl_seq v a n s) = reqs s"
  "sgls (hica_setl_seq v a n s) = sgls s" "completed (hica_setl_seq v a n s) = completed s"
  "dma_map (hica_setl_seq v a n s) = dma_map s"
  "dma_unmapped (hica_setl_seq v a n s) = dma_unmapped s"
  "nents_for_len (hica_setl_seq v a n s) = nents_for_len s"
  "extra_check (hica_setl_seq v a n s) = extra_check s"
  "small_request (hica_setl_seq v a n s) = small_request s"
  "disable (hica_setl_seq v a n s) = disable s"
  by (simp_all add: hica_setl_seq_def)

lemma upd_chan_fields [simp]:
  "regs (upd_chan ch f s) = regs s" "no_dma (upd_chan ch f s) = no_dma s"
  "chans (upd_chan ch f s) = (chans s)(ch := f (chans s ch))"
  "cond (upd_chan ch f s) = cond s" "reqs (upd_chan ch f s) = reqs s"
  "sgls (upd_chan ch f s) = sgls s" "completed (upd_chan ch f s) = completed s"
  "dma_map (upd_chan ch f s) = dma_map s" "dma_unmapped (upd_chan ch f s) = dma_unmapped s"
  "nents_for_len (upd_chan ch f s) = nents_for_len s" "extra_check (upd_chan ch f s) = extra_check s"
  "small_request (upd_chan ch f s) = small_request s" "disable (upd_chan ch f s) = disable s"
  by (simp_all add: upd_chan_def)

lemma upd_req_fields [simp]:
  "regs (upd_req rid f s) = regs s" "no_dma (upd_req rid f s) = no_dma s"
  "chans (upd_req rid f s) = chans s"
  "cond (upd_req rid f s) = cond s" "reqs (upd_req rid f s) = (reqs s)(rid := f (reqs s rid))"
  "sgls (upd_req rid f s) = sgls s" "completed (upd_req rid f s) = completed s"
  "dma_map (upd_req rid f s) = dma_map s" "dma_unmapped (upd_req rid f s) = dma_unmapped s"
  "nents_for_len (upd_req rid f s) = nents_for_len s" "extra_check (upd_req rid f s) = extra_check s"
  "small_request (upd_req rid f s) = small_request s" "disable (upd_req rid f s) = disable s"
  by (simp_all add: upd_req_def)

lemma upd_r_ctx_fields [simp]:
  "regs (upd_r_ctx rid g s) = regs s" "no_dma (upd_r_ctx rid g s) = no_dma s"
  "chans (upd_r_ctx rid g s) = chans s"
  "cond (upd_r_ctx rid g s) = cond s"
  "reqs (upd_r_ctx rid g s) = (reqs s)(rid := (reqs s rid)\<lparr>rq_ctx := g (rq_ctx (reqs s rid))\<rparr>)"
  "sgls (upd_r_ctx rid g s) = sgls s" "completed (upd_r_ctx rid g s) = completed s"
  "dma_map (upd_r_ctx rid g s) = dma_map s" "dma_unmapped (upd_r_ctx rid g s) = dma_unmapped s"
  "nents_for_len (upd_r_ctx rid g s) = nents_for_len s" "extra_check (upd_r_ctx rid g s) = extra_check s"
  "small_request (upd_r_ctx rid g s) = small_request s" "disable (upd_r_ctx rid g s) = disable s"
  by (simp_all add: upd_r_ctx_def)

lemma scatterwalk_copy_from_fields [simp]:
  "regs (scatterwalk_copy_from ch p st n s) = regs s" "no_dma (scatterwalk_copy_from ch p st n s) = no_dma s"
  "cond (scatterwalk_copy_from ch p st n s) = cond s" "reqs (scatterwalk_copy_from ch p st n s) = reqs s"
  "sgls (scatterwalk_copy_from ch p st n s) = sgls s"
  "completed (scatterwalk_copy_from ch p st n s) = completed s"
  "dma_map (scatterwalk_copy_from ch p st n s) = dma_map s"
  "dma_unmapped (scatterwalk_copy_from ch p st n s) = dma_unmapped s"
  "nents_for_len (scatterwalk_copy_from ch p st n s) = nents_for_len s"
  "extra_check (scatterwalk_copy_from ch p st n s) = extra_check s"
  "small_request (scatterwalk_copy_from ch p st n s) = small_request s"
  "disable (scatterwalk_copy_from ch p st n s) = disable s"
  by (simp_all add: scatterwalk_copy_from_def)

lemma scatterwalk_copy_to_fields [simp]:
  "regs (scatterwalk_copy_to ch p st n s) = regs s" "no_dma (scatterwalk_copy_to ch p st n s) = no_dma s"
  "chans (scatterwalk_copy_to ch p st n s) = chans s"
  "cond (scatterwalk_copy_to ch p st n s) = cond s" "reqs (scatterwalk_copy_to ch p st n s) = reqs s"
  "completed (scatterwalk_copy_to ch p st n s) = completed s"
  "dma_map (scatterwalk_copy_to ch p st n s) = dma_map s"
  "dma_unmapped (scatterwalk_copy_to ch p st n s) = dma_unmapped s"
  "nents_for_len (scatterwalk_copy_to ch p st n s) = nents_for_len s"
  "extra_check (scatterwalk_copy_to ch p st n s) = extra_check s"
  "small_request (scatterwalk_copy_to ch p st n s) = small_request s"
  "disable (scatterwalk_copy_to ch p st n s) = disable s"
  by (simp_all add: scatterwalk_copy_to_def)

lemma dma_unmap_sg_fields [simp]:
  "regs (dma_unmap_sg p s) = regs s" "no_dma (dma_unmap_sg p s) = no_dma s"
  "chans (dma_unmap_sg p s) = chans s"
  "cond (dma_unmap_sg p s) = cond s" "reqs (dma_unmap_sg p s) = reqs s"
  "sgls (dma_unmap_sg p s) = sgls s" "completed (dma_unmap_sg p s) = completed s"
  "dma_map (dma_unmap_sg p s) = dma_map s"
  "nents_for_len (dma_unmap_sg p s) = nents_for_len s" "extra_check (dma_unmap_sg p s) = extra_check s"
  "small_request (dma_unmap_sg p s) = small_request s" "disable (dma_unmap_sg p s) = disable s"
  by (simp_all add: dma_unmap_sg_def)

lemma dma_map_sg_fields [simp]:
  "regs (snd (dma_map_sg s)) = regs s" "no_dma (snd (dma_map_sg s)) = no_dma s"
  "chans (snd (dma_map_sg s)) = chans s"
  "cond (snd (dma_map_sg s)) = cond s" "reqs (snd (dma_map_sg s)) = reqs s"
  "sgls (snd (dma_map_sg s)) = sgls s" "completed (snd (dma_map_sg s)) = completed s"
  "dma_unmapped (snd (dma_map_sg s)) = dma_unmapped s"
  "nents_for_len (snd (dma_map_sg s)) = nents_for_len s" "extra_check (snd (dma_map_sg s)) = extra_check s"
  "small_request (snd (dma_map_sg s)) = small_request s" "disable (snd (dma_map_sg s)) = disable s"
  by (simp_all add: dma_map_sg_def split: list.splits)

lemma skcipher_request_complete_fields [simp]:
  "regs (skcipher_request_complete r v s) = regs s" "no_dma (skcipher_request_complete r v s) = no_dma s"
  "chans (skcipher_request_complete r v s) = chans s"
  "cond (skcipher_request_complete r v s) = cond s" "reqs (skcipher_request_complete r v s) = reqs s"
  "sgls (skcipher_request_complete r v s) = sgls s"
  "completed (skcipher_request_complete r v s) = completed s @ [(r, v)]"
  "dma_map (skcipher_request_complete r v s) = dma_map s"
  "dma_unmapped (skcipher_request_complete r v s) = dma_unmapped s"
  "nents_for_len (skcipher_request_complete r v s) = nents_for_len s"
  "extra_check (skcipher_request_complete r v s) = extra_check s"
  "small_request (skcipher_request_complete r v s) = small_request s"
  "disable (skcipher_request_complete r v s) = disable s"
  by (simp_all add: skcipher_request_complete_def)

lemma complete_fields [simp]:
  "regs (complete s) = regs s" "no_dma (complete s) = no_dma s"
  "chans (complete s) = chans s"
  "cond (complete s) = Suc (cond s)" "reqs (complete s) = reqs s"
  "sgls (complete s) = sgls s" "completed (complete s) = completed s"
  "dma_map (complete s) = dma_map s" "dma_unmapped (complete s) = dma_unmapped s"
  "nents_for_len (complete s) = nents_for_len s" "extra_check (complete s) = extra_check s"
  "small_request (complete s) = small_request s" "disable (complete s) = disable s"
  by (simp_all add: complete_def)

lemma hica_muc_chan_ctrl_fields [simp]:
  "no_dma (hica_muc_chan_ctrl ch rid m s) = no_dma s" "chans (hica_muc_chan_ctrl ch rid m s) = chans s"
  "cond (hica_muc_chan_ctrl ch rid m s) = cond s" "reqs (hica_muc_chan_ctrl ch rid m s) = reqs s"
  "sgls (hica_muc_chan_ctrl ch rid m s) = sgls s" "completed (hica_muc_chan_ctrl ch rid m s) = completed s"
  "dma_map (hica_muc_chan_ctrl ch rid m s) = dma_map s"
  "dma_unmapped (hica_muc_chan_ctrl ch rid m s) = dma_unmapped s"
  "nents_for_len (hica_muc_chan_ctrl ch rid m s) = nents_for_len s"
  "extra_check (hica_muc_chan_ctrl ch rid m s) = extra_check s"
  "small_request (hica_muc_chan_ctrl ch rid m s) = small_request s"
  "disable (hica_muc_chan_ctrl ch rid m s) = disable s"
  by (simp_all add: hica_muc_chan_ctrl_def Let_def)

lemma hica_muc_chan_iv_get_fields [simp]:
  "regs (hica_muc_chan_iv_get ch rid s) = regs s"
  "no_dma (hica_muc_chan_iv_get ch rid s) = no_dma s" "chans (hica_muc_chan_iv_get ch rid s) = chans s"
  "cond (hica_muc_chan_iv_get ch rid s) = cond s"
  "sgls (hica_muc_chan_iv_get ch rid s) = sgls s" "completed (hica_muc_chan_iv_get ch rid s) = completed s"
  "dma_map (hica_muc_chan_iv_get ch rid s) = dma_map s"
  "dma_unmapped (hica_muc_chan_iv_get ch rid s) = dma_unmapped s"
  "nents_for_len (hica_muc_chan_iv_get ch rid s) = nents_for_len s"
  "extra_check (hica_muc_chan_iv_get ch rid s) = extra_check s"
  "small_request (hica_muc_chan_iv_get ch rid s) = small_request s"
  "disable (hica_muc_chan_iv_get ch rid s) = disable s"
  by (simp_all add: hica_muc_chan_iv_get_def Let_def)

subsection \<open>Probe\<close>

lemma bit_fold_chan_mask:
  "bit (fold (\<lambda>ch m. if int_ok val ch \<and> enabled dm ch then m OR BIT ch else m) chs m0) k \<longleftrightarrow>
     bit m0 k \<or> (k \<in> set chs \<and> k < 32 \<and> int_ok val k \<and> enabled dm k)"
  by (induction chs arbitrary: m0) (auto simp: bit_or_iff bit_BIT)

lemma bit_probe_chan_mask:
  "bit (probe_chan_mask val dm) ch \<longleftrightarrow> ch < MUC_CHAN_NUM \<and> int_ok val ch \<and> enabled dm ch"
  by (auto simp: probe_chan_mask_def bit_fold_chan_mask MUC_CHAN_NUM_def)

lemma probe_chan_mask_none:
  assumes "\<forall>ch < MUC_CHAN_NUM. \<not> (int_ok val ch \<and> enabled dm ch)"
  shows "probe_chan_mask val dm = 0"
  by (rule bit_word_eqI) (use assms in \<open>auto simp: bit_probe_chan_mask\<close>)

lemma probe_chan_mask_slow_only:
  assumes "int_ok val MUC_CHAN_PKG1" "enabled dm MUC_CHAN_PKG1"
    and "\<forall>ch < MUC_CHAN_NUM. MUC_CHAN_PKG1 < ch \<longrightarrow> \<not> (int_ok val ch \<and> enabled dm ch)"
  shows "probe_chan_mask val dm = BIT MUC_CHAN_PKG1"
  by (rule bit_word_eqI)
     (use assms in \<open>auto simp: bit_probe_chan_mask bit_BIT MUC_CHAN_PKG1_def MUC_CHAN_NUM_def\<close>)

lemma probe_disable_mask_Nil: "probe_disable_mask [] = 0"
  by (simp add: probe_disable_mask_def)

lemma enabled_0: "enabled 0 ch"
  by (simp add: enabled_def)

lemma int_ok_iff: "int_ok val ch \<longleftrightarrow> bit val (8 + ch)"
  by (simp add: int_ok_def MUC_INT_CHANn_OUT_BUF_def and_BIT_0)

lemma BIT0_neq_0: "BIT MUC_CHAN_PKG1 \<noteq> 0"
  by (simp add: BIT_def MUC_CHAN_PKG1_def)

lemma probe_fails_before_bring_up:
  "fst (hica_muc_probe env s) = OK \<Longrightarrow> fst (probe_bring_up env s) = OK"
  by (auto simp: hica_muc_probe_def split: if_splits)

lemma bring_up_no_channel:
  "probe_chan_mask (pe_int_cfg env) (probe_disable_mask (disable s)) = 0
     \<Longrightarrow> fst (probe_bring_up env s) = ERR ENODEV"
  by (simp add: probe_bring_up_def Let_def readl_def writel_def)

lemma bring_up_slow_only:
  "probe_chan_mask (pe_int_cfg env) (probe_disable_mask (disable s)) = BIT MUC_CHAN_PKG1
     \<Longrightarrow> probe_disable_mask (disable s) = 0
     \<Longrightarrow> fst (probe_bring_up env s) = ERR EINVAL"
  by (simp add: probe_bring_up_def Let_def readl_def writel_def BIT0_neq_0)

text \<open>
  C9. The probe fails when no channel passes the channel test (its interrupt bit reads
  back set and it is not disabled by the module parameter): the channel test returns
  \<open>-ENODEV\<close>. It also fails when only channel 0 has its interrupt bit set and the
  module parameter \<open>disable\<close> is empty: the channel test returns \<open>-EINVAL\<close>. Steps
  before the channel test can only fail earlier, so the probe never returns \<open>0\<close> in
  either case.
\<close>

theorem probe_refuses_unusable:
  "((\<forall>ch < MUC_CHAN_NUM.
        \<not> (int_ok (pe_int_cfg env) ch \<and> enabled (probe_disable_mask (disable s)) ch))
      \<longrightarrow> fst (hica_muc_probe env s) \<noteq> OK \<and> fst (probe_bring_up env s) = ERR ENODEV)
   \<and> (int_ok (pe_int_cfg env) MUC_CHAN_PKG1
        \<and> (\<forall>ch < MUC_CHAN_NUM. MUC_CHAN_PKG1 < ch \<longrightarrow> \<not> int_ok (pe_int_cfg env) ch)
        \<and> disable s = []
      \<longrightarrow> fst (hica_muc_probe env s) \<noteq> OK \<and> fst (probe_bring_up env s) = ERR EINVAL)"
proof (intro conjI impI)
  assume a: "\<forall>ch < MUC_CHAN_NUM.
        \<not> (int_ok (pe_int_cfg env) ch \<and> enabled (probe_disable_mask (disable s)) ch)"
  show e: "fst (probe_bring_up env s) = ERR ENODEV"
    by (rule bring_up_no_channel) (rule probe_chan_mask_none [OF a])
  show "fst (hica_muc_probe env s) \<noteq> OK"
    using e probe_fails_before_bring_up [of env s] by auto
next
  assume a: "int_ok (pe_int_cfg env) MUC_CHAN_PKG1
        \<and> (\<forall>ch < MUC_CHAN_NUM. MUC_CHAN_PKG1 < ch \<longrightarrow> \<not> int_ok (pe_int_cfg env) ch)
        \<and> disable s = []"
  then have d: "probe_disable_mask (disable s) = 0"
    by (simp add: probe_disable_mask_Nil)
  have m: "probe_chan_mask (pe_int_cfg env) (probe_disable_mask (disable s)) = BIT MUC_CHAN_PKG1"
    by (rule probe_chan_mask_slow_only) (use a d in \<open>auto simp: enabled_0\<close>)
  show e: "fst (probe_bring_up env s) = ERR EINVAL"
    by (rule bring_up_slow_only [OF m d])
  show "fst (hica_muc_probe env s) \<noteq> OK"
    using e probe_fails_before_bring_up [of env s] by auto
qed

theorem probe_refuses_unusable_witness:
  "fst (hica_muc_probe (probe_env_of 0) (dev_of aes_cbc 256 [])) \<noteq> OK
   \<and> fst (probe_bring_up (probe_env_of 0) (dev_of aes_cbc 256 [])) = ERR ENODEV
   \<and> int_ok (BIT 8) MUC_CHAN_PKG1
   \<and> fst (hica_muc_probe (probe_env_of (BIT 8)) (dev_of aes_cbc 256 [])) \<noteq> OK
   \<and> fst (probe_bring_up (probe_env_of (BIT 8)) (dev_of aes_cbc 256 [])) = ERR EINVAL"
proof -
  have a: "\<forall>ch < MUC_CHAN_NUM. \<not> (int_ok (pe_int_cfg (probe_env_of 0)) ch
             \<and> enabled (probe_disable_mask (disable (dev_of aes_cbc 256 []))) ch)"
    by (simp add: probe_env_of_def int_ok_def)
  have b: "int_ok (pe_int_cfg (probe_env_of (BIT 8))) MUC_CHAN_PKG1
        \<and> (\<forall>ch < MUC_CHAN_NUM. MUC_CHAN_PKG1 < ch \<longrightarrow> \<not> int_ok (pe_int_cfg (probe_env_of (BIT 8))) ch)
        \<and> disable (dev_of aes_cbc 256 []) = []"
    by (simp add: probe_env_of_def int_ok_iff bit_BIT MUC_CHAN_PKG1_def idle_priv_def dev_of_def)
  from a b probe_refuses_unusable [of "probe_env_of 0" "dev_of aes_cbc 256 []"]
    probe_refuses_unusable [of "probe_env_of (BIT 8)" "dev_of aes_cbc 256 []"]
  show ?thesis
    by (simp add: probe_env_of_def int_ok_iff bit_BIT MUC_CHAN_PKG1_def)
qed

subsection \<open>Evaluation of concrete scenarios\<close>

lemmas reg_defs = MUC_CHAN0_DATA_OUT0_def MUC_CHANn_IV_OUT0_def MUC_CHANn_KEY0_def MUC_SEC_CHAN_CFG_def
  MUC_CHAN0_CTRL_def MUC_CHAN0_IV_IN0_def MUC_CHAN0_DATA_IN0_def MUC_CHANn_IN_BUF_NUM_def
  MUC_CHANn_IN_BUF_CNT_def MUC_CHANn_IN_EMPTY_CNT_def MUC_CHANn_INT_IN_CNT_CFG_def MUC_CHANn_CTRL_def
  MUC_CHANn_SRC_LST_ADDR_def MUC_CHANn_IN_AGE_CNT_def MUC_CHANn_SRC_LST_PTR_def MUC_CHANn_IN_LEFT_def
  MUC_CHANn_OUT_BUF_NUM_def MUC_CHANn_OUT_BUF_CNT_def MUC_CHANn_OUT_FULL_CNT_def
  MUC_CHANn_INT_OUT_CNT_CFG_def MUC_CHANn_DST_LST_ADDR_def MUC_CHANn_OUT_AGE_CNT_def
  MUC_CHANn_DST_LST_PTR_def MUC_CHANn_OUT_LEFT_def MUC_INT_STATUS_def MUC_INT_CFG_def MUC_INT_RAW_def
  MUC_CHAN0_CFG_def MUC_SRC_ADDR_SMMU_BYPASS_def MUC_DST_ADDR_SMMU_BYPASS_def

lemmas const_defs = BIT_def MUC_CTRL_DECRYPT_def MUC_CTRL_MODE_def MUC_MODE_ECB_def MUC_MODE_CBC_def
  MUC_MODE_CFB_def MUC_MODE_OFB_def MUC_MODE_CTR_def MUC_CTRL_ALG_def MUC_ALG_DES_def
  MUC_ALG_DES3_EDE_def MUC_ALG_AES_def MUC_CTRL_WIDTH_def MUC_WIDTH_BLOCK_def MUC_CTRL_CHAN0_IV_SET_def
  MUC_CTRL_KEY_def MUC_CTRL_KEY_FROM_MKL_def MUC_CTRL_KEY_ID_def MUC_BUF_NUM_MAX_def
  MUC_INT_CHANn_IN_BUF_def MUC_INT_CHAN0_DATA_DISPOSE_def MUC_INT_CHANn_OUT_BUF_def
  MUC_INT_CFG_SEC_EN_def MUC_INT_CFG_NSEC_EN_def MUC_CHAN0_START_def MUC_CHAN0_BUSY_def
  MUC_CHAN_PKG1_def MUC_CHAN_PKGn_MIN_def MUC_CHAN_NUM_def MUC_IV_SIZE_def MUC_BLOCK_SIZE_def
  MUC_KEY_SIZE_def MUC_BUF_FLAG_DUMMY_def MUC_BUF_FLAG_SET_IV_def MUC_BUF_FLAG_END_OF_LIST_def
  MUC_BUF_LEN_MAX_def MUC_BUF_NUM_def

lemmas fixture_defs = zero_buf_def idle_chan_def idle_priv_def tfm_of_def zero_req_ctx_def
  request_of_def one_node_def key_of_def aes_cbc_def dev_of_def

lemmas prim_defs = readl_def readw_def writel_def writew_def seq_offsets_def load32_def store32_def
  hica_readl_seq_def hica_writel_seq_def hica_setl_seq_def upd_chan_def upd_req_def upd_r_ctx_def
  scatterwalk_copy_from_def scatterwalk_copy_to_def dma_map_sg_def dma_unmap_sg_def
  skcipher_request_complete_def complete_def memzero_explicit_def ring_write_def ALIGN_def

lemmas process_eval = hica_muc_process_def process_chan_def

lemmas encdec_eval = hica_muc_alg_encdec_def hica_muc_alg_encrypt_def hica_muc_alg_decrypt_def
  get_idle_channel_def hica_muc_req_is_short_def
  hica_muc_chan_prepare_def hica_muc_chan_prepare_n_def hica_muc_chan_prepare_0_def
  Let_def upt_rec

lemmas push_eval = hica_muc_chan_push_def hica_muc_chan_push_n_def push_n_rings_def
  push_n_ring_status_def push_n_set_buffers_def hica_muc_list_append_def list_append_buf_def
  sg_iter_valid_def sg_iter_len_def sg_iter_dma_address_def sg_iter_normalize_def
  sg_iter_inc_def sg_iter_init_def hica_muc_chan_iv_get_def prepare_n_setup_def
  hica_muc_chan_ctrl_def

text \<open>
  A concrete scenario is evaluated by rewriting with all definitions, the argument of
  a \<open>let\<close> or \<open>case\<close> before its body.
\<close>

lemmas eval_defs = encdec_eval push_eval process_eval prim_defs fixture_defs const_defs reg_defs

lemmas eval_congs = let_weak_cong prod.case_cong_weak option.case_cong_weak sum.case_cong_weak
  list.case_cong_weak req_slot.case_cong_weak

lemma ring_wrap_1: "\<not> (15::u32) \<le> 1"
  by (simp add: word_le_nat_alt)

subsection \<open>Key validation\<close>

lemma word_xor_eq_0: "(a::'a::len word) XOR b = 0 \<longleftrightarrow> a = b"
proof
  assume "a XOR b = 0"
  then have "(a XOR b) XOR b = b" by simp
  then show "a = b" by (simp add: xor.assoc)
qed simp

lemma des_half_iff:
  "des_check_weakkey_half k off \<noteq> OK \<longleftrightarrow> half_uniform k off"
  by (auto simp: des_check_weakkey_half_def half_uniform_def DES_KEY_SIZE_def upt_rec word_xor_eq_0
      numeral_3_eq_3)

lemma des_check_weakkey_iff:
  "des_check_weakkey k \<noteq> OK \<longleftrightarrow> half_uniform k 0 \<or> half_uniform k 4"
  by (auto simp: des_check_weakkey_def des_half_iff DES_KEY_SIZE_def)

lemma setkey_cases:
  "hica_muc_alg_setkey ctx k keylen =
     (if (alg (ctrl ctx) = MUC_ALG_AES \<and> (keylen = 16 \<or> keylen = 24 \<or> keylen = 32))
         \<or> (alg (ctrl ctx) = MUC_ALG_DES \<and> keylen = 8 \<and> \<not> (half_uniform k 0 \<or> half_uniform k 4))
         \<or> (alg (ctrl ctx) = MUC_ALG_DES3_EDE \<and> keylen = 24)
      then (OK, setkey_store ctx k keylen)
      else (ERR EINVAL, ctx))"
  using des_check_weakkey_iff [of k]
  by (auto simp: hica_muc_alg_setkey_def aes_check_keylen_def MUC_KEY_SIZE_def
      AES_KEYSIZE_128_def AES_KEYSIZE_192_def AES_KEYSIZE_256_def DES_KEY_SIZE_def
      DES3_EDE_KEY_SIZE_def MUC_ALG_AES_def MUC_ALG_DES_def MUC_ALG_DES3_EDE_def)

lemma weak_keys_uniform:
  "w \<in> set des_weak_keys \<Longrightarrow> half_uniform (key_of w) 0"
  by (auto simp: des_weak_keys_def half_uniform_def key_of_def)

text \<open>
  C7 (as amended). \<open>hica_muc_alg_setkey\<close> accepts exactly: an AES key of 16, 24 or 32
  bytes, a DES key of 8 bytes neither of whose halves is uniform, and a 3DES key of 24
  bytes. An accepted key is copied, its length recorded and the key-selector bits set
  from the table. Every other call returns \<open>-EINVAL\<close> and leaves the transform
  context as it was; this holds for each of the four weak keys of DES. The function
  takes no device state, so nothing reaches the hardware.
\<close>

theorem setkey_validates:
  "hica_muc_alg_setkey ctx k keylen =
     (if (alg (ctrl ctx) = MUC_ALG_AES \<and> (keylen = 16 \<or> keylen = 24 \<or> keylen = 32))
         \<or> (alg (ctrl ctx) = MUC_ALG_DES \<and> keylen = 8 \<and> \<not> (half_uniform k 0 \<or> half_uniform k 4))
         \<or> (alg (ctrl ctx) = MUC_ALG_DES3_EDE \<and> keylen = 24)
      then (OK, ctx\<lparr>ctrl := (ctrl ctx)\<lparr>key := hica_muc_ctrl_key_lookup (alg (ctrl ctx)) keylen\<rparr>,
                     tfm_key := (\<lambda>i. if i < unat keylen then k i else tfm_key ctx i),
                     keysize := keylen\<rparr>)
      else (ERR EINVAL, ctx))
   \<and> (\<forall>w \<in> set des_weak_keys. alg (ctrl ctx) = MUC_ALG_DES
          \<longrightarrow> hica_muc_alg_setkey ctx (key_of w) 8 = (ERR EINVAL, ctx))"
  by (auto simp: setkey_cases setkey_store_def dest: weak_keys_uniform)

theorem setkey_validates_witness:
  "hica_muc_alg_setkey (tfm_of MUC_ALG_DES MUC_MODE_CBC 8 0) (key_of [0xE0, 0xE0, 0xE0, 0xE0, 0xF1, 0xF1, 0xF1, 0xF1]) 8
     = (ERR EINVAL, tfm_of MUC_ALG_DES MUC_MODE_CBC 8 0)
   \<and> fst (hica_muc_alg_setkey (tfm_of MUC_ALG_AES MUC_MODE_CBC 16 0) (key_of [1, 2, 3]) 24) = OK
   \<and> keysize (snd (hica_muc_alg_setkey (tfm_of MUC_ALG_AES MUC_MODE_CBC 16 0) (key_of [1, 2, 3]) 24)) = 24
   \<and> fst (hica_muc_alg_setkey (tfm_of MUC_ALG_AES MUC_MODE_CBC 16 0) (key_of [1, 2, 3]) 17) = ERR EINVAL"
  using setkey_validates [of "tfm_of MUC_ALG_DES MUC_MODE_CBC 8 0" k 8]
    setkey_validates [of "tfm_of MUC_ALG_AES MUC_MODE_CBC 16 0" "key_of [1, 2, 3]" 24]
    setkey_validates [of "tfm_of MUC_ALG_AES MUC_MODE_CBC 16 0" "key_of [1, 2, 3]" 17]
  by (simp add: des_weak_keys_def tfm_of_def MUC_ALG_DES_def MUC_ALG_AES_def)

text \<open>
  C7 as stated fails: the semi-weak DES key \<open>01FE 01FE 01FE 01FE\<close> is accepted.
\<close>

theorem setkey_semi_weak_counterexample:
  "fst (hica_muc_alg_setkey (tfm_of MUC_ALG_DES MUC_MODE_CBC 8 0) (key_of des_semi_weak_key) 8) = OK"
  by (simp add: setkey_cases tfm_of_def half_uniform_def key_of_def des_semi_weak_key_def
      MUC_ALG_DES_def MUC_ALG_AES_def)

subsection \<open>Channel allocator\<close>

lemma upt_chan_from0: "[0 ..< MUC_CHAN_NUM] = 0 # [MUC_CHAN_PKGn_MIN ..< MUC_CHAN_NUM]"
  by (simp add: MUC_CHAN_NUM_def MUC_CHAN_PKGn_MIN_def upt_rec)

lemma get_idle_channel_short:
  assumes "req (chans s MUC_CHAN_PKG1) = NULL" "no_dma s \<or> hica_muc_req_is_short s rid"
  shows "get_idle_channel rid s = Some MUC_CHAN_PKG1"
  using assms by (auto simp: get_idle_channel_def upt_chan_from0 MUC_CHAN_PKG1_def)

lemma find_upt_Some:
  assumes "find P [a ..< b] = Some c"
  shows "a \<le> c \<and> c < b \<and> P c \<and> (\<forall>c'. a \<le> c' \<and> c' < c \<longrightarrow> \<not> P c')"
proof -
  from assms obtain i where i: "i < length [a ..< b]" "P ([a ..< b] ! i)" "c = [a ..< b] ! i"
    "\<forall>j < i. \<not> P ([a ..< b] ! j)"
    by (auto simp: find_Some_iff)
  then have c: "c = a + i" "i < b - a" by auto
  have "\<not> P c'" if "a \<le> c'" "c' < c" for c'
  proof -
    from that c have "c' - a < i" by arith
    with i(4) have "\<not> P ([a ..< b] ! (c' - a))" by blast
    moreover have "[a ..< b] ! (c' - a) = c'" using that c by simp
    ultimately show ?thesis by simp
  qed
  with c i show ?thesis by auto
qed

lemma find_upt_None: "find P [a ..< b] = None \<Longrightarrow> a \<le> c \<Longrightarrow> c < b \<Longrightarrow> \<not> P c"
  by (auto simp: find_None_iff)

lemma get_idle_channel_long:
  assumes "\<not> no_dma s" "\<not> hica_muc_req_is_short s rid"
    and "MUC_CHAN_PKGn_MIN \<le> c" "c < MUC_CHAN_NUM" "req (chans s c) = NULL"
  shows "\<exists>ch. get_idle_channel rid s = Some ch \<and> MUC_CHAN_PKGn_MIN \<le> ch \<and> ch \<le> c
           \<and> req (chans s ch) = NULL
           \<and> (\<forall>c'. MUC_CHAN_PKGn_MIN \<le> c' \<and> c' < ch \<longrightarrow> req (chans s c') \<noteq> NULL)"
proof (cases "get_idle_channel rid s")
  case None
  with assms find_upt_None [of "\<lambda>ch. req (chans s ch) = NULL" MUC_CHAN_PKGn_MIN MUC_CHAN_NUM c]
  show ?thesis by (simp add: get_idle_channel_def)
next
  case (Some ch)
  with assms have f: "find (\<lambda>ch. req (chans s ch) = NULL) [MUC_CHAN_PKGn_MIN ..< MUC_CHAN_NUM] = Some ch"
    by (simp add: get_idle_channel_def)
  note p = find_upt_Some [OF f]
  have "ch \<le> c"
  proof (rule ccontr)
    assume "\<not> ch \<le> c"
    with p assms show False by auto
  qed
  with p Some show ?thesis by auto
qed

lemma prepare_n_ret:
  "fst (hica_muc_chan_prepare_n ch rid s) \<in> {OK, ERR EIO, ERR EINVAL}"
  by (auto simp: hica_muc_chan_prepare_n_def Let_def split: option.splits prod.splits)

lemma prepare_0_ret: "fst (hica_muc_chan_prepare_0 ch rid s) = OK"
  by (simp add: hica_muc_chan_prepare_0_def Let_def)

lemma prepare_ret:
  "fst (hica_muc_chan_prepare ch rid s) \<in> {OK, ERR EIO, ERR EINVAL}"
  using prepare_n_ret [of ch rid s] prepare_0_ret [of ch rid s]
  by (auto simp: hica_muc_chan_prepare_def Let_def split: prod.splits)

lemma encdec_binds:
  assumes "get_idle_channel rid s = Some ch"
  shows "fst (hica_muc_alg_encdec rid decr s) = ERR EINPROGRESS
           \<longrightarrow> req (chans (snd (hica_muc_alg_encdec rid decr s)) ch) = REQ rid"
  using assms prepare_ret [of ch rid "upd_r_ctx rid (\<lambda>c. c\<lparr>decrypting := decr\<rparr>)
      (upd_chan ch (\<lambda>c. c\<lparr>req := ERR_PTR EBUSY\<rparr>) s)"]
  by (auto simp: hica_muc_alg_encdec_def Let_def split: prod.splits)


lemma prepare_n_setup_frame [simp]:
  "completed (prepare_n_setup ch rid a b s) = completed s"
  "cond (prepare_n_setup ch rid a b s) = cond s"
  "dma_map (prepare_n_setup ch rid a b s) = dma_map s"
  "dma_unmapped (prepare_n_setup ch rid a b s) = dma_unmapped s"
  "req (chans (prepare_n_setup ch rid a b s) c) = req (chans s c)"
  "dirty (chans (prepare_n_setup ch rid a b s) c) = dirty (chans s c)"
  by (simp_all add: prepare_n_setup_def Let_def)

lemma prepare_n_frame [simp]:
  "completed (snd (hica_muc_chan_prepare_n ch rid s)) = completed s"
  "cond (snd (hica_muc_chan_prepare_n ch rid s)) = cond s"
  "req (chans (snd (hica_muc_chan_prepare_n ch rid s)) c) = req (chans s c)"
  "dirty (chans (snd (hica_muc_chan_prepare_n ch rid s)) c) = dirty (chans s c)"
  by (auto simp: hica_muc_chan_prepare_n_def Let_def dma_map_sg_def split: option.splits prod.splits list.splits)

lemma prepare_0_frame [simp]:
  "completed (snd (hica_muc_chan_prepare_0 ch rid s)) = completed s"
  "cond (snd (hica_muc_chan_prepare_0 ch rid s)) = cond s"
  "dma_map (snd (hica_muc_chan_prepare_0 ch rid s)) = dma_map s"
  "dma_unmapped (snd (hica_muc_chan_prepare_0 ch rid s)) = dma_unmapped s"
  "req (chans (snd (hica_muc_chan_prepare_0 ch rid s)) c) = req (chans s c)"
  "dirty (chans (snd (hica_muc_chan_prepare_0 ch rid s)) c) = dirty (chans s c)"
  by (simp_all add: hica_muc_chan_prepare_0_def Let_def scatterwalk_copy_from_def)

lemma prepare_frame [simp]:
  "completed (snd (hica_muc_chan_prepare ch rid s)) = completed s"
  "cond (snd (hica_muc_chan_prepare ch rid s)) = cond s"
  "req (chans (snd (hica_muc_chan_prepare ch rid s)) c) = req (chans s c)"
  "dirty (chans (snd (hica_muc_chan_prepare ch rid s)) c) = dirty (chans s c)"
  by (simp_all add: hica_muc_chan_prepare_def Let_def case_prod_beta)


lemma prepare_slow_ok: "fst (hica_muc_chan_prepare MUC_CHAN_PKG1 rid s) = OK"
  by (simp add: hica_muc_chan_prepare_def Let_def case_prod_beta prepare_0_ret)

lemma encdec_slow_accepts:
  assumes "get_idle_channel rid s = Some MUC_CHAN_PKG1"
  shows "fst (hica_muc_alg_encdec rid decr s) = ERR EINPROGRESS"
  using assms by (simp add: hica_muc_alg_encdec_def Let_def case_prod_beta prepare_slow_ok)

text \<open>
  C1 (as amended). With channel 0 and some ring channel \<open>c\<close> idle on a device that has
  ring channels (\<open>no_dma\<close> is false; the probe sets it only when every ring channel is
  unusable): a request with \<open>cryptlen \<le> small_request\<close> claims channel 0, is
  accepted and ends up in the slot of channel 0; a request with
  \<open>cryptlen > small_request\<close> claims the lowest-numbered idle ring channel and, when
  it is accepted, ends up in the slot of that channel.
\<close>

theorem allocator_by_length:
  assumes "req (chans s MUC_CHAN_PKG1) = NULL"
    and "MUC_CHAN_PKGn_MIN \<le> c" "c < MUC_CHAN_NUM" "req (chans s c) = NULL"
    and "\<not> no_dma s"
  shows "(cryptlen (reqs s rid) \<le> small_request s \<longrightarrow>
            get_idle_channel rid s = Some MUC_CHAN_PKG1
            \<and> fst (hica_muc_alg_encdec rid decr s) = ERR EINPROGRESS
            \<and> req (chans (snd (hica_muc_alg_encdec rid decr s)) MUC_CHAN_PKG1) = REQ rid)
       \<and> (small_request s < cryptlen (reqs s rid) \<longrightarrow>
            (\<exists>ch. get_idle_channel rid s = Some ch
               \<and> MUC_CHAN_PKGn_MIN \<le> ch \<and> ch \<le> c \<and> req (chans s ch) = NULL
               \<and> (\<forall>c'. MUC_CHAN_PKGn_MIN \<le> c' \<and> c' < ch \<longrightarrow> req (chans s c') \<noteq> NULL)
               \<and> (fst (hica_muc_alg_encdec rid decr s) = ERR EINPROGRESS
                    \<longrightarrow> req (chans (snd (hica_muc_alg_encdec rid decr s)) ch) = REQ rid)))"
proof (intro conjI impI)
  assume "cryptlen (reqs s rid) \<le> small_request s"
  then have g: "get_idle_channel rid s = Some MUC_CHAN_PKG1"
    using assms(1) by (intro get_idle_channel_short) (simp_all add: hica_muc_req_is_short_def)
  then show "get_idle_channel rid s = Some MUC_CHAN_PKG1" .
  show e: "fst (hica_muc_alg_encdec rid decr s) = ERR EINPROGRESS"
    by (rule encdec_slow_accepts [OF g])
  show "req (chans (snd (hica_muc_alg_encdec rid decr s)) MUC_CHAN_PKG1) = REQ rid"
    using encdec_binds [OF g, of decr] e by simp
next
  assume "small_request s < cryptlen (reqs s rid)"
  then have "\<not> hica_muc_req_is_short s rid"
    by (simp add: hica_muc_req_is_short_def not_le)
  from get_idle_channel_long [OF assms(5) this assms(2,3,4)]
  obtain ch where ch: "get_idle_channel rid s = Some ch" "MUC_CHAN_PKGn_MIN \<le> ch" "ch \<le> c"
    "req (chans s ch) = NULL"
    "\<forall>c'. MUC_CHAN_PKGn_MIN \<le> c' \<and> c' < ch \<longrightarrow> req (chans s c') \<noteq> NULL"
    by blast
  with encdec_binds [OF ch(1), of decr]
  show "\<exists>ch. get_idle_channel rid s = Some ch
               \<and> MUC_CHAN_PKGn_MIN \<le> ch \<and> ch \<le> c \<and> req (chans s ch) = NULL
               \<and> (\<forall>c'. MUC_CHAN_PKGn_MIN \<le> c' \<and> c' < ch \<longrightarrow> req (chans s c') \<noteq> NULL)
               \<and> (fst (hica_muc_alg_encdec rid decr s) = ERR EINPROGRESS
                    \<longrightarrow> req (chans (snd (hica_muc_alg_encdec rid decr s)) ch) = REQ rid)"
    by blast
qed

theorem allocator_by_length_witness:
  "get_idle_channel 0 (dev_of aes_cbc 16 [1, 1]) = Some 0
   \<and> req (chans (snd (hica_muc_alg_encdec 0 False (dev_of aes_cbc 16 [1, 1]))) 0) = REQ 0
   \<and> get_idle_channel 0 (dev_of aes_cbc 4096 [1, 1]) = Some 1
   \<and> req (chans (snd (hica_muc_alg_encdec 0 False (dev_of aes_cbc 4096 [1, 1]))) 1) = REQ 0"
proof -
  have a: "req (chans (dev_of aes_cbc n [1, 1]) MUC_CHAN_PKG1) = NULL"
    "MUC_CHAN_PKGn_MIN \<le> 1" "1 < MUC_CHAN_NUM"
    "req (chans (dev_of aes_cbc n [1, 1]) 1) = NULL" "\<not> no_dma (dev_of aes_cbc n [1, 1])" for n
    by (simp_all add: dev_of_def idle_priv_def idle_chan_def MUC_CHAN_PKGn_MIN_def MUC_CHAN_NUM_def)
  have b: "cryptlen (reqs (dev_of aes_cbc 16 [1, 1]) 0) \<le> small_request (dev_of aes_cbc 16 [1, 1])"
    "small_request (dev_of aes_cbc 4096 [1, 1]) < cryptlen (reqs (dev_of aes_cbc 4096 [1, 1]) 0)"
    by (simp_all add: dev_of_def idle_priv_def request_of_def)
  have c: "fst (hica_muc_alg_encdec 0 False (dev_of aes_cbc 4096 [1, 1])) = ERR EINPROGRESS"
    by (simp add: eval_defs cong: eval_congs)
  from allocator_by_length [OF a, of 16 0 False] allocator_by_length [OF a, of 4096 0 False] b c
  show ?thesis
    by (auto simp: MUC_CHAN_PKG1_def MUC_CHAN_PKGn_MIN_def)
qed

text \<open>
  C1 as stated fails at the threshold: with all channels idle, a request of exactly
  \<open>small_request\<close> bytes is bound to channel 0 and no ring channel is touched.
\<close>

theorem allocator_at_threshold_counterexample:
  "small_request (dev_of aes_cbc 256 [1, 1]) \<le> cryptlen (reqs (dev_of aes_cbc 256 [1, 1]) 0)
   \<and> list_all (\<lambda>ch. req (chans (dev_of aes_cbc 256 [1, 1]) ch) = NULL) [0 ..< 8]
   \<and> \<not> no_dma (dev_of aes_cbc 256 [1, 1])
   \<and> fst (hica_muc_alg_encrypt 0 (dev_of aes_cbc 256 [1, 1])) = ERR EINPROGRESS
   \<and> req (chans (snd (hica_muc_alg_encrypt 0 (dev_of aes_cbc 256 [1, 1]))) 0) = REQ 0
   \<and> list_all (\<lambda>ch. req (chans (snd (hica_muc_alg_encrypt 0 (dev_of aes_cbc 256 [1, 1]))) ch) = NULL)
        [1 ..< 8]"
  by (simp add: eval_defs cong: eval_congs)

subsection \<open>Failure at prepare time\<close>

lemma dma_unmap_sg_unmapped [simp]: "dma_unmapped (dma_unmap_sg p s) = dma_unmapped s @ [p]"
  by (simp add: dma_unmap_sg_def)

lemma encdec_failure:
  assumes g: "get_idle_channel rid s = Some ch"
    and f: "fst (hica_muc_alg_encdec rid decr s) \<noteq> ERR EINPROGRESS"
  shows "fst (hica_muc_alg_encdec rid decr s) \<in> {ERR EIO, ERR EINVAL}"
    and "completed (snd (hica_muc_alg_encdec rid decr s)) = completed s"
    and "cond (snd (hica_muc_alg_encdec rid decr s)) = cond s"
    and "req (chans (snd (hica_muc_alg_encdec rid decr s)) c) = req (chans s c)"
proof -
  let ?s2 = "upd_r_ctx rid (\<lambda>c. c\<lparr>decrypting := decr\<rparr>) (upd_chan ch (\<lambda>c. c\<lparr>req := ERR_PTR EBUSY\<rparr>) s)"
  have n: "req (chans s ch) = NULL"
    using g by (auto simp: get_idle_channel_def dest: find_upt_Some)
  have p: "fst (hica_muc_chan_prepare ch rid ?s2) \<noteq> OK"
    using g f by (auto simp: hica_muc_alg_encdec_def Let_def case_prod_beta split: if_splits)
  then have e: "hica_muc_alg_encdec rid decr s =
      (fst (hica_muc_chan_prepare ch rid ?s2),
       upd_chan ch (\<lambda>c. c\<lparr>req := NULL\<rparr>) (snd (hica_muc_chan_prepare ch rid ?s2)))"
    using g by (simp add: hica_muc_alg_encdec_def Let_def case_prod_beta)
  show "fst (hica_muc_alg_encdec rid decr s) \<in> {ERR EIO, ERR EINVAL}"
    using p prepare_ret [of ch rid ?s2] by (auto simp: e)
  show "completed (snd (hica_muc_alg_encdec rid decr s)) = completed s"
    by (simp add: e)
  show "cond (snd (hica_muc_alg_encdec rid decr s)) = cond s"
    by (simp add: e)
  show "req (chans (snd (hica_muc_alg_encdec rid decr s)) c) = req (chans s c)"
    using n by (simp add: e)
qed

lemma encdec_first_map_fails:
  assumes g: "get_idle_channel rid s = Some ch" and ch: "ch \<noteq> MUC_CHAN_PKG1"
    and n1: "nents_for_len s (rq_src (reqs s rid)) (cryptlen (reqs s rid)) \<noteq> None"
    and n2: "nents_for_len s (rq_dst (reqs s rid)) (cryptlen (reqs s rid)) \<noteq> None"
    and m: "dma_map s = m # ms" "m \<le> 0"
  shows "hica_muc_alg_encdec rid decr s = (ERR EIO, t) \<Longrightarrow> dma_map t = ms \<and> dma_unmapped t = dma_unmapped s"
    and "fst (hica_muc_alg_encdec rid decr s) = ERR EIO"
  using assms
  by (auto simp: hica_muc_alg_encdec_def hica_muc_chan_prepare_def hica_muc_chan_prepare_n_def
      Let_def dma_map_sg_def split: option.splits)

lemma encdec_second_map_fails:
  assumes g: "get_idle_channel rid s = Some ch" and ch: "ch \<noteq> MUC_CHAN_PKG1"
    and n1: "nents_for_len s (rq_src (reqs s rid)) (cryptlen (reqs s rid)) \<noteq> None"
    and n2: "nents_for_len s (rq_dst (reqs s rid)) (cryptlen (reqs s rid)) \<noteq> None"
    and d: "rq_src (reqs s rid) \<noteq> rq_dst (reqs s rid)"
    and m: "dma_map s = m1 # m2 # ms" "0 < m1" "m2 \<le> 0"
  shows "hica_muc_alg_encdec rid decr s = (ERR EIO, t) \<Longrightarrow>
           dma_map t = ms \<and> dma_unmapped t = dma_unmapped s @ [rq_src (reqs s rid)]"
    and "fst (hica_muc_alg_encdec rid decr s) = ERR EIO"
  using assms
  by (auto simp: hica_muc_alg_encdec_def hica_muc_chan_prepare_def hica_muc_chan_prepare_n_def
      Let_def dma_map_sg_def split: option.splits)

lemma encdec_sizing_fails:
  assumes g: "get_idle_channel rid s = Some ch" and ch: "ch \<noteq> MUC_CHAN_PKG1"
    and n: "nents_for_len s (rq_src (reqs s rid)) (cryptlen (reqs s rid)) = None
            \<or> (rq_src (reqs s rid) \<noteq> rq_dst (reqs s rid)
                \<and> nents_for_len s (rq_dst (reqs s rid)) (cryptlen (reqs s rid)) = None)"
  shows "fst (hica_muc_alg_encdec rid decr s) = ERR EINVAL"
    and "dma_map (snd (hica_muc_alg_encdec rid decr s)) = dma_map s"
    and "dma_unmapped (snd (hica_muc_alg_encdec rid decr s)) = dma_unmapped s"
  using assms
  by (auto simp: hica_muc_alg_encdec_def hica_muc_chan_prepare_def hica_muc_chan_prepare_n_def
      Let_def split: option.splits)

text \<open>
  C6 (as amended). When \<open>hica_muc_alg_encdec\<close> has claimed channel \<open>ch\<close> and the
  prepare step fails, the error (\<open>-EIO\<close> or \<open>-EINVAL\<close>) is the return value of the
  call: the completion callback is not invoked, the sweeper is not woken, and every
  channel slot is as before the call, so the claimed channel is idle again. A failing
  \<open>dma_map_sg\<close> on a ring channel gives \<open>-EIO\<close> after exactly one attempt for the
  source list; when the destination list fails to map, after one attempt for each
  list, with the source list unmapped again. A failing \<open>sg_nents_for_len\<close> on a ring
  channel, for the source list or for a destination list that is not the source list,
  gives \<open>-EINVAL\<close> with no mapping attempted.
\<close>

theorem prepare_failure_synchronous:
  assumes "get_idle_channel rid s = Some ch"
  shows "(fst (hica_muc_alg_encdec rid decr s) \<noteq> ERR EINPROGRESS \<longrightarrow>
            fst (hica_muc_alg_encdec rid decr s) \<in> {ERR EIO, ERR EINVAL}
            \<and> completed (snd (hica_muc_alg_encdec rid decr s)) = completed s
            \<and> cond (snd (hica_muc_alg_encdec rid decr s)) = cond s
            \<and> (\<forall>c. req (chans (snd (hica_muc_alg_encdec rid decr s)) c) = req (chans s c)))
       \<and> (ch \<noteq> MUC_CHAN_PKG1
            \<and> nents_for_len s (rq_src (reqs s rid)) (cryptlen (reqs s rid)) \<noteq> None
            \<and> nents_for_len s (rq_dst (reqs s rid)) (cryptlen (reqs s rid)) \<noteq> None
            \<and> (\<exists>m ms. dma_map s = m # ms \<and> m \<le> 0) \<longrightarrow>
            fst (hica_muc_alg_encdec rid decr s) = ERR EIO
            \<and> dma_map (snd (hica_muc_alg_encdec rid decr s)) = tl (dma_map s)
            \<and> dma_unmapped (snd (hica_muc_alg_encdec rid decr s)) = dma_unmapped s)
       \<and> (ch \<noteq> MUC_CHAN_PKG1
            \<and> nents_for_len s (rq_src (reqs s rid)) (cryptlen (reqs s rid)) \<noteq> None
            \<and> nents_for_len s (rq_dst (reqs s rid)) (cryptlen (reqs s rid)) \<noteq> None
            \<and> rq_src (reqs s rid) \<noteq> rq_dst (reqs s rid)
            \<and> (\<exists>m1 m2 ms. dma_map s = m1 # m2 # ms \<and> 0 < m1 \<and> m2 \<le> 0) \<longrightarrow>
            fst (hica_muc_alg_encdec rid decr s) = ERR EIO
            \<and> dma_map (snd (hica_muc_alg_encdec rid decr s)) = tl (tl (dma_map s))
            \<and> dma_unmapped (snd (hica_muc_alg_encdec rid decr s))
                = dma_unmapped s @ [rq_src (reqs s rid)])
       \<and> (ch \<noteq> MUC_CHAN_PKG1
            \<and> (nents_for_len s (rq_src (reqs s rid)) (cryptlen (reqs s rid)) = None
                \<or> (rq_src (reqs s rid) \<noteq> rq_dst (reqs s rid)
                    \<and> nents_for_len s (rq_dst (reqs s rid)) (cryptlen (reqs s rid)) = None)) \<longrightarrow>
            fst (hica_muc_alg_encdec rid decr s) = ERR EINVAL
            \<and> dma_map (snd (hica_muc_alg_encdec rid decr s)) = dma_map s
            \<and> dma_unmapped (snd (hica_muc_alg_encdec rid decr s)) = dma_unmapped s)"
proof (intro conjI impI)
  assume f: "fst (hica_muc_alg_encdec rid decr s) \<noteq> ERR EINPROGRESS"
  note r = encdec_failure [OF assms f]
  show "fst (hica_muc_alg_encdec rid decr s) \<in> {ERR EIO, ERR EINVAL}" by (rule r)
  show "completed (snd (hica_muc_alg_encdec rid decr s)) = completed s" by (rule r)
  show "cond (snd (hica_muc_alg_encdec rid decr s)) = cond s" by (rule r)
  show "\<forall>c. req (chans (snd (hica_muc_alg_encdec rid decr s)) c) = req (chans s c)"
    by (simp add: r)
next
  assume a: "ch \<noteq> MUC_CHAN_PKG1
            \<and> nents_for_len s (rq_src (reqs s rid)) (cryptlen (reqs s rid)) \<noteq> None
            \<and> nents_for_len s (rq_dst (reqs s rid)) (cryptlen (reqs s rid)) \<noteq> None
            \<and> (\<exists>m ms. dma_map s = m # ms \<and> m \<le> 0)"
  then obtain m ms where m: "dma_map s = m # ms" "m \<le> 0" by blast
  from a have b: "ch \<noteq> MUC_CHAN_PKG1"
    "nents_for_len s (rq_src (reqs s rid)) (cryptlen (reqs s rid)) \<noteq> None"
    "nents_for_len s (rq_dst (reqs s rid)) (cryptlen (reqs s rid)) \<noteq> None" by auto
  note r = encdec_first_map_fails [OF assms b m, of decr]
  show e: "fst (hica_muc_alg_encdec rid decr s) = ERR EIO" by (rule r)
  then have "hica_muc_alg_encdec rid decr s = (ERR EIO, snd (hica_muc_alg_encdec rid decr s))"
    by (metis prod.collapse)
  from r(1) [OF this] m
  show "dma_map (snd (hica_muc_alg_encdec rid decr s)) = tl (dma_map s)"
    "dma_unmapped (snd (hica_muc_alg_encdec rid decr s)) = dma_unmapped s" by simp_all
next
  assume a: "ch \<noteq> MUC_CHAN_PKG1
            \<and> nents_for_len s (rq_src (reqs s rid)) (cryptlen (reqs s rid)) \<noteq> None
            \<and> nents_for_len s (rq_dst (reqs s rid)) (cryptlen (reqs s rid)) \<noteq> None
            \<and> rq_src (reqs s rid) \<noteq> rq_dst (reqs s rid)
            \<and> (\<exists>m1 m2 ms. dma_map s = m1 # m2 # ms \<and> 0 < m1 \<and> m2 \<le> 0)"
  then obtain m1 m2 ms where m: "dma_map s = m1 # m2 # ms" "0 < m1" "m2 \<le> 0" by blast
  from a have b: "ch \<noteq> MUC_CHAN_PKG1"
    "nents_for_len s (rq_src (reqs s rid)) (cryptlen (reqs s rid)) \<noteq> None"
    "nents_for_len s (rq_dst (reqs s rid)) (cryptlen (reqs s rid)) \<noteq> None"
    "rq_src (reqs s rid) \<noteq> rq_dst (reqs s rid)" by auto
  note r = encdec_second_map_fails [OF assms b m, of decr]
  show e: "fst (hica_muc_alg_encdec rid decr s) = ERR EIO" by (rule r)
  then have "hica_muc_alg_encdec rid decr s = (ERR EIO, snd (hica_muc_alg_encdec rid decr s))"
    by (metis prod.collapse)
  from r(1) [OF this] m
  show "dma_map (snd (hica_muc_alg_encdec rid decr s)) = tl (tl (dma_map s))"
    "dma_unmapped (snd (hica_muc_alg_encdec rid decr s)) = dma_unmapped s @ [rq_src (reqs s rid)]"
    by simp_all
next
  assume a: "ch \<noteq> MUC_CHAN_PKG1
            \<and> (nents_for_len s (rq_src (reqs s rid)) (cryptlen (reqs s rid)) = None
                \<or> (rq_src (reqs s rid) \<noteq> rq_dst (reqs s rid)
                    \<and> nents_for_len s (rq_dst (reqs s rid)) (cryptlen (reqs s rid)) = None))"
  then have b: "ch \<noteq> MUC_CHAN_PKG1"
    "nents_for_len s (rq_src (reqs s rid)) (cryptlen (reqs s rid)) = None
     \<or> (rq_src (reqs s rid) \<noteq> rq_dst (reqs s rid)
         \<and> nents_for_len s (rq_dst (reqs s rid)) (cryptlen (reqs s rid)) = None)" by auto
  note r = encdec_sizing_fails [OF assms b, of decr]
  show "fst (hica_muc_alg_encdec rid decr s) = ERR EINVAL" by (rule r)
  show "dma_map (snd (hica_muc_alg_encdec rid decr s)) = dma_map s" by (rule r)
  show "dma_unmapped (snd (hica_muc_alg_encdec rid decr s)) = dma_unmapped s" by (rule r)
qed

theorem prepare_failure_synchronous_witness:
  "get_idle_channel 0 (dev_of aes_cbc 4096 [0, 1]) = Some 1
   \<and> fst (hica_muc_alg_encdec 0 False (dev_of aes_cbc 4096 [0, 1])) = ERR EIO
   \<and> completed (snd (hica_muc_alg_encdec 0 False (dev_of aes_cbc 4096 [0, 1]))) = []
   \<and> req (chans (snd (hica_muc_alg_encdec 0 False (dev_of aes_cbc 4096 [0, 1]))) 1) = NULL
   \<and> dma_map (snd (hica_muc_alg_encdec 0 False (dev_of aes_cbc 4096 [0, 1]))) = [1]
   \<and> fst (hica_muc_alg_encdec 0 False (dev_of aes_cbc 4096 [1, 0, 1])) = ERR EIO
   \<and> dma_map (snd (hica_muc_alg_encdec 0 False (dev_of aes_cbc 4096 [1, 0, 1]))) = [1]
   \<and> dma_unmapped (snd (hica_muc_alg_encdec 0 False (dev_of aes_cbc 4096 [1, 0, 1]))) = [0]
   \<and> get_idle_channel 0 (unsized_dev 0) = Some 1
   \<and> fst (hica_muc_alg_encdec 0 False (unsized_dev 0)) = ERR EINVAL
   \<and> fst (hica_muc_alg_encdec 0 False (unsized_dev 1)) = ERR EINVAL
   \<and> completed (snd (hica_muc_alg_encdec 0 False (unsized_dev 1))) = []
   \<and> req (chans (snd (hica_muc_alg_encdec 0 False (unsized_dev 1))) 1) = NULL
   \<and> dma_map (snd (hica_muc_alg_encdec 0 False (unsized_dev 1))) = [1, 1]
   \<and> dma_unmapped (snd (hica_muc_alg_encdec 0 False (unsized_dev 1))) = []"
proof -
  have g: "get_idle_channel 0 (dev_of aes_cbc 4096 dm) = Some 1" for dm
    by (simp add: eval_defs cong: eval_congs)
  have h: "completed (dev_of aes_cbc 4096 dm) = []" "req (chans (dev_of aes_cbc 4096 dm) c) = NULL"
    "dma_map (dev_of aes_cbc 4096 dm) = dm" "dma_unmapped (dev_of aes_cbc 4096 dm) = []"
    "nents_for_len (dev_of aes_cbc 4096 dm) p n = Some 1"
    "rq_src (reqs (dev_of aes_cbc 4096 dm) 0) = 0" "rq_dst (reqs (dev_of aes_cbc 4096 dm) 0) = 1"
    for dm p n c
    by (simp_all add: fixture_defs)
  have u: "get_idle_channel 0 (unsized_dev p) = Some 1" for p
    by (simp add: unsized_dev_def eval_defs cong: eval_congs)
  have k: "completed (unsized_dev q) = []" "req (chans (unsized_dev q) c) = NULL"
    "dma_map (unsized_dev q) = [1, 1]" "dma_unmapped (unsized_dev q) = []"
    "nents_for_len (unsized_dev q) p n = (if p = q then None else Some 1)"
    "rq_src (reqs (unsized_dev q) 0) = 0" "rq_dst (reqs (unsized_dev q) 0) = 1"
    "cryptlen (reqs (unsized_dev q) 0) = 4096"
    for q p n c
    by (simp_all add: unsized_dev_def fixture_defs)
  from prepare_failure_synchronous [OF g [of "[0, 1]"], of False]
    prepare_failure_synchronous [OF g [of "[1, 0, 1]"], of False]
    prepare_failure_synchronous [OF u [of 0], of False]
    prepare_failure_synchronous [OF u [of 1], of False]
  show ?thesis
    by (simp add: g h u k MUC_CHAN_PKG1_def)
qed

text \<open>
  C6 as stated fails: a failed mapping returns \<open>-EIO\<close> from the call and no
  completion is ever delivered, neither by the call nor by the next sweep.
\<close>

theorem prepare_failure_counterexample:
  "fst (hica_muc_alg_encrypt 0 (dev_of aes_cbc 4096 [0, 1])) = ERR EIO
   \<and> completed (snd (hica_muc_alg_encrypt 0 (dev_of aes_cbc 4096 [0, 1]))) = []
   \<and> completed (snd (hica_muc_process (snd (hica_muc_alg_encrypt 0 (dev_of aes_cbc 4096 [0, 1]))))) = []"
  by (simp add: eval_defs cong: eval_congs)

subsection \<open>The dirty flag\<close>

lemma scatterwalk_copy_from_chans [simp]:
  "dirty (chans (scatterwalk_copy_from ch p st n s) c) = dirty (chans s c)"
  "req (chans (scatterwalk_copy_from ch p st n s) c) = req (chans s c)"
  by (simp_all add: scatterwalk_copy_from_def)

lemma push_0_frame [simp]:
  "dirty (chans (snd (hica_muc_chan_push_0 ch rid s)) c) = dirty (chans s c)"
  "req (chans (snd (hica_muc_chan_push_0 ch rid s)) c) = req (chans s c)"
  "completed (snd (hica_muc_chan_push_0 ch rid s)) = completed s"
  "cond (snd (hica_muc_chan_push_0 ch rid s)) = cond s"
  by (simp_all add: hica_muc_chan_push_0_def Let_def)

lemma push_n_ring_status_frame [simp]:
  "chans (snd (push_n_ring_status is_dst ch s)) = chans s"
  "reqs (snd (push_n_ring_status is_dst ch s)) = reqs s"
  "completed (snd (push_n_ring_status is_dst ch s)) = completed s"
  "cond (snd (push_n_ring_status is_dst ch s)) = cond s"
  "extra_check (snd (push_n_ring_status is_dst ch s)) = extra_check s"
  by (simp_all add: push_n_ring_status_def Let_def)

lemma push_n_set_buffers_frame [simp]:
  "dirty (chans (snd (push_n_set_buffers ch rid st dt si di dn s)) c) = dirty (chans s c)"
  "req (chans (snd (push_n_set_buffers ch rid st dt si di dn s)) c) = req (chans s c)"
  "completed (snd (push_n_set_buffers ch rid st dt si di dn s)) = completed s"
  "cond (snd (push_n_set_buffers ch rid st dt si di dn s)) = cond s"
  by (simp_all add: push_n_set_buffers_def Let_def case_prod_beta split: sum.splits)

lemma push_n_rings_frame [simp]:
  "dirty (chans (snd (push_n_rings ch rid st dt dn s)) c) = dirty (chans s c)"
  "req (chans (snd (push_n_rings ch rid st dt dn s)) c) = req (chans s c)"
  "completed (snd (push_n_rings ch rid st dt dn s)) = completed s"
  "cond (snd (push_n_rings ch rid st dt dn s)) = cond s"
  by (simp_all add: push_n_rings_def case_prod_beta split: sum.splits)

lemma push_n_frame [simp]:
  "dirty (chans (snd (hica_muc_chan_push_n ch rid s)) c) = dirty (chans s c)"
  "req (chans (snd (hica_muc_chan_push_n ch rid s)) c) = req (chans s c)"
  "completed (snd (hica_muc_chan_push_n ch rid s)) = completed s"
  "cond (snd (hica_muc_chan_push_n ch rid s)) = cond s"
  by (simp_all add: hica_muc_chan_push_n_def Let_def)

lemma push_frame [simp]:
  "req (chans (snd (hica_muc_chan_push ch rid s)) c) = req (chans s c)"
  "completed (snd (hica_muc_chan_push ch rid s)) = completed s"
  "cond (snd (hica_muc_chan_push ch rid s)) = cond s"
  by (simp_all add: hica_muc_chan_push_def case_prod_beta)

lemma push_dirty:
  "dirty (chans (snd (hica_muc_chan_push ch rid s)) c) =
     (dirty (chans s c) \<or> (c = ch \<and> fst (hica_muc_chan_push ch rid s) = ERR EINPROGRESS))"
  by (auto simp: hica_muc_chan_push_def case_prod_beta)

lemma emit_frame [simp]:
  "dirty (chans (hica_muc_chan_emit ch s) c) = dirty (chans s c)"
  "req (chans (hica_muc_chan_emit ch s) c) = req (chans s c)"
  "completed (hica_muc_chan_emit ch s) = completed s"
  "cond (hica_muc_chan_emit ch s) = cond s"
  by (simp_all add: hica_muc_chan_emit_def hica_muc_chan_emit_0_def hica_muc_chan_emit_n_def Let_def)

lemma unprepare_frame [simp]:
  "dirty (chans (hica_muc_chan_unprepare ch rid no s) c) = dirty (chans s c)"
  "req (chans (hica_muc_chan_unprepare ch rid no s) c) = req (chans s c)"
  "completed (hica_muc_chan_unprepare ch rid no s) = completed s"
  "cond (hica_muc_chan_unprepare ch rid no s) = cond s"
  by (simp_all add: hica_muc_chan_unprepare_def hica_muc_chan_unprepare_0_def
      hica_muc_chan_unprepare_n_def Let_def)

lemma encdec_dirty [simp]:
  "dirty (chans (snd (hica_muc_alg_encdec rid decr s)) c) = dirty (chans s c)"
  by (simp add: hica_muc_alg_encdec_def Let_def case_prod_beta split: option.splits)


lemma process_chan_dirty:
  "dirty (chans s c) \<Longrightarrow> dirty (chans (snd (process_chan ch (m, s))) c)"
  by (auto simp: process_chan_def case_prod_beta push_dirty split: req_slot.splits)

lemma fold_process_chan_dirty:
  "dirty (chans (snd ms) c) \<Longrightarrow> dirty (chans (snd (fold process_chan chs ms)) c)"
proof (induction chs arbitrary: ms)
  case Nil
  then show ?case by simp
next
  case (Cons ch chs)
  have "dirty (chans (snd (process_chan ch ms)) c)"
    using process_chan_dirty [of "snd ms" c ch "fst ms"] Cons.prems by simp
  then show ?case by (simp add: Cons.IH)
qed

lemma process_dirty:
  "dirty (chans s c) \<Longrightarrow> dirty (chans (snd (hica_muc_process s)) c)"
  by (simp add: hica_muc_process_def fold_process_chan_dirty)

lemma fold_clear_dirty:
  "dirty (chans (fold (\<lambda>ch t. if val AND BIT ch \<noteq> 0 then upd_chan ch (\<lambda>c. c\<lparr>dirty := False\<rparr>) t else t) chs s) c)
     = (dirty (chans s c) \<and> \<not> (c \<in> set chs \<and> bit val c))"
  by (induction chs arbitrary: s) (auto simp: and_BIT_0)

lemma clear_dirty_bits_dirty:
  "dirty (chans (clear_dirty_bits val s) c) = (dirty (chans s c) \<and> \<not> (c < MUC_CHAN_NUM \<and> bit val c))"
  by (auto simp: clear_dirty_bits_def fold_clear_dirty)

lemma clear_dirty_bits_frame [simp]:
  "req (chans (clear_dirty_bits val s) c) = req (chans s c)"
  "completed (clear_dirty_bits val s) = completed s"
proof -
  have "req (chans (fold (\<lambda>ch t. if val AND BIT ch \<noteq> 0 then upd_chan ch (\<lambda>c. c\<lparr>dirty := False\<rparr>) t else t) chs s) c)
      = req (chans s c)
    \<and> completed (fold (\<lambda>ch t. if val AND BIT ch \<noteq> 0 then upd_chan ch (\<lambda>c. c\<lparr>dirty := False\<rparr>) t else t) chs s)
      = completed s" for chs
    by (induction chs arbitrary: s) auto
  then show "req (chans (clear_dirty_bits val s) c) = req (chans s c)"
    "completed (clear_dirty_bits val s) = completed s"
    by (simp_all add: clear_dirty_bits_def)
qed

text \<open>
  The status word after \<open>val |= val >> MUC_CHAN_NUM\<close> never equals
  \<open>MUC_INT_CHAN0_DATA_DISPOSE\<close>: bit 8 of it can only come from bit 8 or bit 16 of the
  status, and then bit 0 or bit 16 is set as well. So the branch of
  \<open>hica_muc_handle\<close> that feeds channel 0 is never taken.
\<close>

lemma handle_val_neq:
  "(v::u32) OR drop_bit MUC_CHAN_NUM v \<noteq> MUC_INT_CHAN0_DATA_DISPOSE"
proof
  assume e: "v OR drop_bit MUC_CHAN_NUM v = MUC_INT_CHAN0_DATA_DISPOSE"
  have b: "bit (v OR drop_bit MUC_CHAN_NUM v) n \<longleftrightarrow> n = 8" for n
    by (simp add: e MUC_INT_CHAN0_DATA_DISPOSE_def bit_BIT)
  from b [of 8] have "bit v 8 \<or> bit v 16"
    by (simp add: bit_or_iff bit_drop_bit_eq MUC_CHAN_NUM_def)
  moreover from b [of 0] have "\<not> bit v 8"
    by (simp add: bit_or_iff bit_drop_bit_eq MUC_CHAN_NUM_def)
  moreover from b [of 16] have "\<not> bit v 16"
    by (simp add: bit_or_iff bit_drop_bit_eq MUC_CHAN_NUM_def)
  ultimately show False by simp
qed

lemma handle_eq:
  "hica_muc_handle s =
     (if readl s MUC_INT_STATUS = 0 then (IRQ_NONE, s)
      else (IRQ_HANDLED,
            complete (clear_dirty_bits (readl s MUC_INT_STATUS OR drop_bit MUC_CHAN_NUM (readl s MUC_INT_STATUS))
              (writel (readl s MUC_INT_STATUS) MUC_INT_RAW s))))"
  by (simp add: hica_muc_handle_def Let_def handle_val_neq)

lemma handle_dirty:
  "dirty (chans (snd (hica_muc_handle s)) c) =
     (dirty (chans s c) \<and>
      \<not> (c < MUC_CHAN_NUM \<and> (bit (readl s MUC_INT_STATUS) c \<or> bit (readl s MUC_INT_STATUS) (MUC_CHAN_NUM + c))))"
  by (auto simp: handle_eq clear_dirty_bits_dirty bit_or_iff bit_drop_bit_eq)

text \<open>
  C8. A push on a channel whose dirty flag is set returns \<open>-EBUSY\<close> and changes nothing
  (so repeating it changes nothing either). A push on a channel whose flag is clear
  leaves the flag set exactly when it returns \<open>-EINPROGRESS\<close>, and never touches the
  flag of another channel. Emit, unprepare, prepare and request submission leave every
  flag as it is; the sweeper never clears a flag; the interrupt handler never sets one,
  and clears the flag of every channel whose input or output bit is set in the
  interrupt status.
\<close>

theorem dirty_flag_protocol:
  "(dirty (chans s ch) \<longrightarrow> hica_muc_chan_push ch rid s = (ERR EBUSY, s))
   \<and> (\<not> dirty (chans s ch) \<longrightarrow>
        dirty (chans (snd (hica_muc_chan_push ch rid s)) ch)
          = (fst (hica_muc_chan_push ch rid s) = ERR EINPROGRESS))
   \<and> (c \<noteq> ch \<longrightarrow> dirty (chans (snd (hica_muc_chan_push ch rid s)) c) = dirty (chans s c))
   \<and> dirty (chans (hica_muc_chan_emit ch s) c) = dirty (chans s c)
   \<and> dirty (chans (hica_muc_chan_unprepare ch rid no_output s) c) = dirty (chans s c)
   \<and> dirty (chans (snd (hica_muc_chan_prepare ch rid s)) c) = dirty (chans s c)
   \<and> dirty (chans (snd (hica_muc_alg_encdec rid decr s)) c) = dirty (chans s c)
   \<and> (dirty (chans s c) \<longrightarrow> dirty (chans (snd (hica_muc_process s)) c))
   \<and> (dirty (chans (snd (hica_muc_handle s)) c) \<longrightarrow> dirty (chans s c))
   \<and> (c < MUC_CHAN_NUM
        \<and> (bit (readl s MUC_INT_STATUS) c \<or> bit (readl s MUC_INT_STATUS) (MUC_CHAN_NUM + c))
        \<longrightarrow> \<not> dirty (chans (snd (hica_muc_handle s)) c))"
  by (simp add: push_dirty process_dirty handle_dirty) (simp add: hica_muc_chan_push_def)

theorem dirty_flag_protocol_witness:
  "fst (hica_muc_chan_push 1 0 dirty_dev) = ERR EBUSY
   \<and> dirty (chans (snd (hica_muc_process dirty_dev)) 1)
   \<and> \<not> dirty (chans (snd (hica_muc_handle (writel (BIT 1) MUC_INT_STATUS dirty_dev))) 1)
   \<and> \<not> dirty (chans (accepted_dev aes_cbc 4096) 1)
   \<and> fst (hica_muc_chan_push 1 0 (accepted_dev aes_cbc 4096)) = ERR EINPROGRESS
   \<and> dirty (chans (snd (hica_muc_chan_push 1 0 (accepted_dev aes_cbc 4096))) 1)"
proof -
  have d: "dirty (chans dirty_dev 1)"
    by (simp add: dirty_dev_def)
  have b: "bit (readl (writel (BIT 1) MUC_INT_STATUS dirty_dev) MUC_INT_STATUS) 1" "1 < MUC_CHAN_NUM"
    "dirty (chans (writel (BIT 1) MUC_INT_STATUS dirty_dev) 1)"
    by (simp_all add: readl_def writel_def MUC_CHAN_NUM_def dirty_dev_def bit_BIT)
  have n: "\<not> dirty (chans (accepted_dev aes_cbc 4096) 1)"
    by (simp add: accepted_dev_def fixture_defs)
  have e: "fst (hica_muc_chan_push 1 0 (accepted_dev aes_cbc 4096)) = ERR EINPROGRESS"
    by (simp add: accepted_dev_def eval_defs cong: eval_congs)
  from dirty_flag_protocol [of dirty_dev 1 0 1 no False]
    dirty_flag_protocol [of "writel (BIT 1) MUC_INT_STATUS dirty_dev" 1 0 1 no False]
    dirty_flag_protocol [of "accepted_dev aes_cbc 4096" 1 0 1 no False] d b n e
  show ?thesis by simp
qed

subsection \<open>Erasing key and IV material\<close>

lemma seq_offsets_iff: "i \<in> set (seq_offsets n) \<longleftrightarrow> 4 dvd i \<and> i < unat n"
proof -
  have "i \<in> set (seq_offsets n) \<longleftrightarrow> (\<exists>k. k < (unat n + 3) div 4 \<and> i = 4 * k)"
    by (auto simp: seq_offsets_def)
  also have "\<dots> \<longleftrightarrow> 4 dvd i \<and> i < unat n"
  proof
    assume "\<exists>k. k < (unat n + 3) div 4 \<and> i = 4 * k"
    then obtain k where "k < (unat n + 3) div 4" "i = 4 * k" by blast
    then show "4 dvd i \<and> i < unat n" by auto
  next
    assume a: "4 dvd i \<and> i < unat n"
    then obtain k where k: "i = 4 * k" by (auto elim: dvdE)
    with a have "k < (unat n + 3) div 4" by arith
    with k show "\<exists>k. k < (unat n + 3) div 4 \<and> i = 4 * k" by blast
  qed
  finally show ?thesis .
qed

lemma fold_setl_regs:
  "fold (\<lambda>i r. r(a + i := v)) is r0 x = (if x \<in> (\<lambda>i. a + i) ` set is then v else r0 x)"
  by (induction "is" arbitrary: r0) auto

lemma seq_regs_iff: "x \<in> set (seq_regs a n) \<longleftrightarrow> (\<exists>i. 4 dvd i \<and> i < unat n \<and> x = a + i)"
  unfolding seq_regs_def set_map image_iff Bex_def seq_offsets_iff by blast

lemma setl_seq_regs:
  "regs (hica_setl_seq v a n s) x = (if x \<in> set (seq_regs a n) then v else regs s x)"
  by (auto simp: hica_setl_seq_def fold_setl_regs seq_regs_def)

lemma fold_writel_regs:
  "x \<notin> (\<lambda>i. a + i) ` set is \<Longrightarrow> fold (\<lambda>i r. r(a + i := f i)) is r0 x = r0 x"
  by (induction "is" arbitrary: r0) auto

lemma writel_seq_regs:
  "x \<notin> set (seq_regs a n) \<Longrightarrow> regs (hica_writel_seq b off a n s) x = regs s x"
  by (simp add: hica_writel_seq_def fold_writel_regs seq_regs_def)

lemma unprepare_0_regs:
  "regs (hica_muc_chan_unprepare_0 ch rid no s) x =
     (if x \<in> set (seq_regs MUC_CHAN0_DATA_IN0 (chunksize (rq_tfm (reqs s rid))))
         \<or> (mode (ctrl (rq_tfm (reqs s rid))) \<noteq> MUC_MODE_ECB
             \<and> x \<in> set (seq_regs MUC_CHAN0_IV_IN0 (ivsize (rq_tfm (reqs s rid)))))
      then 0 else regs s x)"
  by (simp add: hica_muc_chan_unprepare_0_def Let_def setl_seq_regs)

lemma unprepare_n_regs: "regs (hica_muc_chan_unprepare_n ch rid no s) = regs s"
  by (simp add: hica_muc_chan_unprepare_n_def Let_def)

lemma iv_get_tfm [simp]: "rq_tfm (reqs (hica_muc_chan_iv_get ch rid s) r) = rq_tfm (reqs s r)"
  by (simp add: hica_muc_chan_iv_get_def Let_def)

lemma unprepare_0_tfm [simp]:
  "rq_tfm (reqs (hica_muc_chan_unprepare_0 ch rid no s) r) = rq_tfm (reqs s r)"
  by (simp add: hica_muc_chan_unprepare_0_def Let_def)

lemma unprepare_n_tfm [simp]:
  "rq_tfm (reqs (hica_muc_chan_unprepare_n ch rid no s) r) = rq_tfm (reqs s r)"
  by (simp add: hica_muc_chan_unprepare_n_def Let_def)

lemma unprepare_0_inout:
  "k < unat (inout_size (chans s ch)) \<Longrightarrow> inout (chans (hica_muc_chan_unprepare_0 ch rid no s) ch) k = 0"
  by (simp add: hica_muc_chan_unprepare_0_def Let_def memzero_explicit_def)

lemma unprepare_n_iv:
  "mode (ctrl (rq_tfm (reqs s rid))) \<noteq> MUC_MODE_ECB \<Longrightarrow> k < MUC_IV_SIZE
     \<Longrightarrow> chan_iv (chans (hica_muc_chan_unprepare_n ch rid no s) ch) k = 0"
  by (simp add: hica_muc_chan_unprepare_n_def Let_def memzero_explicit_def)


lemma unprepare_regs:
  "regs (hica_muc_chan_unprepare ch rid no s) x =
     (if x \<in> set (seq_regs (MUC_CHANn_KEY0 ch) (keysize (rq_tfm (reqs s rid))))
         \<or> (mode (ctrl (rq_tfm (reqs s rid))) \<noteq> MUC_MODE_ECB
             \<and> x \<in> set (seq_regs (MUC_CHANn_IV_OUT0 ch) (ivsize (rq_tfm (reqs s rid)))))
         \<or> (ch = MUC_CHAN_PKG1
             \<and> (x \<in> set (seq_regs MUC_CHAN0_DATA_IN0 (chunksize (rq_tfm (reqs s rid))))
                \<or> (mode (ctrl (rq_tfm (reqs s rid))) \<noteq> MUC_MODE_ECB
                    \<and> x \<in> set (seq_regs MUC_CHAN0_IV_IN0 (ivsize (rq_tfm (reqs s rid)))))))
      then 0 else regs s x)"
proof -
  have k0: "seq_regs a 0 = []" for a
    by (simp add: seq_regs_def seq_offsets_def)
  show ?thesis
    by (simp add: hica_muc_chan_unprepare_def Let_def setl_seq_regs unprepare_0_regs
        unprepare_n_regs k0)
qed

lemma unprepare_inout:
  "k < unat (inout_size (chans s MUC_CHAN_PKG1))
     \<Longrightarrow> inout (chans (hica_muc_chan_unprepare MUC_CHAN_PKG1 rid no s) MUC_CHAN_PKG1) k = 0"
  by (simp add: hica_muc_chan_unprepare_def Let_def unprepare_0_inout)

lemma unprepare_chan_iv:
  "ch \<noteq> MUC_CHAN_PKG1 \<Longrightarrow> mode (ctrl (rq_tfm (reqs s rid))) \<noteq> MUC_MODE_ECB \<Longrightarrow> k < MUC_IV_SIZE
     \<Longrightarrow> chan_iv (chans (hica_muc_chan_unprepare ch rid no s) ch) k = 0"
  by (simp add: hica_muc_chan_unprepare_def Let_def unprepare_n_iv)


lemma key_iv_regs_cases:
  assumes "x \<in> set (key_iv_regs c)" "c < MUC_CHAN_NUM"
  shows "x < 0x1000 \<or> (c = MUC_CHAN_PKG1 \<and> 0x1004 \<le> x \<and> x < 0x1014)"
  using assms
  by (auto simp: key_iv_regs_def seq_regs_iff MUC_CHANn_KEY0_def MUC_CHANn_IV_OUT0_def
      MUC_CHAN0_IV_IN0_def MUC_KEY_SIZE_def MUC_IV_SIZE_def MUC_CHAN_NUM_def split: if_splits)

lemma writel_regs: "regs (writel v a s) x = (if x = a then v else regs s x)"
  by (simp add: writel_def)

lemma writew_regs_other: "x \<noteq> a \<Longrightarrow> regs (writew v a s) x = regs s x"
  by (simp add: writew_def)

lemma chan_ctrl_regs_other:
  "x \<noteq> (if ch = MUC_CHAN_PKG1 then MUC_CHAN0_CTRL else MUC_CHANn_CTRL ch)
     \<Longrightarrow> regs (hica_muc_chan_ctrl ch rid m s) x = regs s x"
  by (simp add: hica_muc_chan_ctrl_def Let_def writel_regs)

lemma prepare_n_setup_regs_low:
  "x < 0x1000 \<Longrightarrow> regs (prepare_n_setup ch rid a b s) x = regs s x"
  by (simp add: prepare_n_setup_def Let_def writel_regs writew_regs_other reg_defs)

lemma prepare_n_regs_low:
  "x < 0x1000 \<Longrightarrow> regs (snd (hica_muc_chan_prepare_n ch rid s)) x = regs s x"
  by (simp add: hica_muc_chan_prepare_n_def Let_def case_prod_beta prepare_n_setup_regs_low
      split: option.splits)

lemma prepare_0_regs:
  "x \<notin> set (seq_regs MUC_CHAN0_IV_IN0 (ivsize (rq_tfm (reqs s rid))))
     \<or> mode (ctrl (rq_tfm (reqs s rid))) = MUC_MODE_ECB
     \<Longrightarrow> regs (snd (hica_muc_chan_prepare_0 ch rid s)) x = regs s x"
  by (auto simp: hica_muc_chan_prepare_0_def Let_def writel_seq_regs)

lemma prepare_n_tfm [simp]:
  "rq_tfm (reqs (snd (hica_muc_chan_prepare_n ch rid s)) r) = rq_tfm (reqs s r)"
  by (simp add: hica_muc_chan_prepare_n_def prepare_n_setup_def Let_def case_prod_beta
      split: option.splits)

lemma prepare_0_tfm [simp]:
  "rq_tfm (reqs (snd (hica_muc_chan_prepare_0 ch rid s)) r) = rq_tfm (reqs s r)"
  by (simp add: hica_muc_chan_prepare_0_def Let_def)

lemma prepare_tfm [simp]:
  "rq_tfm (reqs (snd (hica_muc_chan_prepare ch rid s)) r) = rq_tfm (reqs s r)"
  by (simp add: hica_muc_chan_prepare_def Let_def case_prod_beta)

text \<open>
  Among the key and IV registers of its channel, prepare writes only those that
  unprepare erases.
\<close>

lemma prepare_key_iv_regs:
  assumes x: "x \<in> set (key_iv_regs ch)" and ch: "ch < MUC_CHAN_NUM"
    and k: "x \<notin> set (seq_regs (MUC_CHANn_KEY0 ch) (keysize (rq_tfm (reqs s rid))))"
    and i: "ch = MUC_CHAN_PKG1 \<Longrightarrow> mode (ctrl (rq_tfm (reqs s rid))) \<noteq> MUC_MODE_ECB
              \<Longrightarrow> x \<notin> set (seq_regs MUC_CHAN0_IV_IN0 (ivsize (rq_tfm (reqs s rid))))"
  shows "regs (snd (hica_muc_chan_prepare ch rid s)) x = regs s x"
proof -
  from key_iv_regs_cases [OF x ch]
  have c: "x \<noteq> (if ch = MUC_CHAN_PKG1 then MUC_CHAN0_CTRL else MUC_CHANn_CTRL ch)"
    by (auto simp: MUC_CHAN0_CTRL_def MUC_CHANn_CTRL_def)
  have p: "regs (snd (if ch = MUC_CHAN_PKG1 then hica_muc_chan_prepare_0 ch rid s
                      else hica_muc_chan_prepare_n ch rid s)) x = regs s x"
  proof (cases "ch = MUC_CHAN_PKG1")
    case True
    show ?thesis
    proof (cases "mode (ctrl (rq_tfm (reqs s rid))) = MUC_MODE_ECB")
      case True
      then show ?thesis using \<open>ch = MUC_CHAN_PKG1\<close> by (simp add: prepare_0_regs)
    next
      case False
      with i [OF \<open>ch = MUC_CHAN_PKG1\<close>] show ?thesis
        using \<open>ch = MUC_CHAN_PKG1\<close> by (simp add: prepare_0_regs)
    qed
  next
    case False
    with key_iv_regs_cases [OF x ch] show ?thesis by (simp add: prepare_n_regs_low)
  qed
  show ?thesis
    using k c p
    by (simp add: hica_muc_chan_prepare_def Let_def case_prod_beta writel_seq_regs
        chan_ctrl_regs_other)
qed

lemma prepare_then_unprepare_clean:
  assumes z: "\<forall>x \<in> set (key_iv_regs ch). regs s x = 0" and ch: "ch < MUC_CHAN_NUM"
    and x: "x \<in> set (key_iv_regs ch)"
  shows "regs (hica_muc_chan_unprepare ch rid no (snd (hica_muc_chan_prepare ch rid s))) x = 0"
  using z x prepare_key_iv_regs [OF x ch, of s rid]
  by (auto simp: unprepare_regs)


lemma push_n_ring_status_regs_low:
  "ch \<noteq> MUC_CHAN_PKG1 \<Longrightarrow> x < 0x1080 \<Longrightarrow> regs (snd (push_n_ring_status is_dst ch s)) x = regs s x"
  by (simp add: push_n_ring_status_def Let_def writel_regs writew_regs_other reg_defs
      MUC_CHAN_PKG1_def)

lemma push_n_set_buffers_regs [simp]:
  "regs (snd (push_n_set_buffers ch rid st dt si di dn s)) = regs s"
  by (simp add: push_n_set_buffers_def Let_def case_prod_beta split: sum.splits)

lemma push_n_rings_regs_low:
  "ch \<noteq> MUC_CHAN_PKG1 \<Longrightarrow> x < 0x1080 \<Longrightarrow> regs (snd (push_n_rings ch rid st dt dn s)) x = regs s x"
  by (simp add: push_n_rings_def case_prod_beta push_n_ring_status_regs_low split: sum.splits)

lemma push_n_regs_low:
  "ch \<noteq> MUC_CHAN_PKG1 \<Longrightarrow> x < 0x1080 \<Longrightarrow> regs (snd (hica_muc_chan_push_n ch rid s)) x = regs s x"
  by (simp add: hica_muc_chan_push_n_def Let_def push_n_rings_regs_low)

lemma push_0_regs_low:
  "x < 0x1014 \<Longrightarrow> x \<noteq> 0x1000 \<Longrightarrow> regs (snd (hica_muc_chan_push_0 ch rid s)) x = regs s x"
  by (auto simp: hica_muc_chan_push_0_def Let_def writel_regs writel_seq_regs seq_regs_iff
      MUC_CHAN0_CTRL_def MUC_CHAN0_DATA_IN0_def)

lemma push_key_iv_regs:
  assumes "x \<in> set (key_iv_regs c)" "c < MUC_CHAN_NUM"
  shows "regs (snd (hica_muc_chan_push ch rid s)) x = regs s x"
  using key_iv_regs_cases [OF assms]
  by (auto simp: hica_muc_chan_push_def case_prod_beta push_0_regs_low push_n_regs_low)

lemma emit_key_iv_regs:
  assumes "x \<in> set (key_iv_regs c)" "c < MUC_CHAN_NUM"
  shows "regs (hica_muc_chan_emit ch s) x = regs s x"
  using key_iv_regs_cases [OF assms]
  by (auto simp: hica_muc_chan_emit_def hica_muc_chan_emit_0_def hica_muc_chan_emit_n_def Let_def
      writel_regs writew_regs_other reg_defs MUC_CHAN_PKG1_def)

text \<open>
  C4. After \<open>hica_muc_chan_unprepare\<close>: the key registers of the channel that cover
  the request's key read 0; for a mode other than ECB so do the IV-output registers
  that cover the IV; on channel 0 the data-input registers, for a mode other than ECB
  the IV-input registers, and the whole flat buffer are 0; on a ring channel, for a
  mode other than ECB, the IV buffer is 0. Unprepare writes nothing but zeros to the
  registers. Consequently a channel whose key and IV registers all read 0 when a
  request is prepared has them all at 0 again after the request is unprepared:
  prepare writes no other of these registers than unprepare erases, and push and emit
  write none of them on any channel.
\<close>

theorem unprepare_erases:
  "(\<forall>x \<in> set (seq_regs (MUC_CHANn_KEY0 ch) (keysize (rq_tfm (reqs s rid)))).
       regs (hica_muc_chan_unprepare ch rid no_output s) x = 0)
   \<and> (mode (ctrl (rq_tfm (reqs s rid))) \<noteq> MUC_MODE_ECB \<longrightarrow>
        (\<forall>x \<in> set (seq_regs (MUC_CHANn_IV_OUT0 ch) (ivsize (rq_tfm (reqs s rid)))).
            regs (hica_muc_chan_unprepare ch rid no_output s) x = 0))
   \<and> (ch = MUC_CHAN_PKG1 \<longrightarrow>
        (\<forall>x \<in> set (seq_regs MUC_CHAN0_DATA_IN0 (chunksize (rq_tfm (reqs s rid)))).
            regs (hica_muc_chan_unprepare ch rid no_output s) x = 0)
        \<and> (mode (ctrl (rq_tfm (reqs s rid))) \<noteq> MUC_MODE_ECB \<longrightarrow>
             (\<forall>x \<in> set (seq_regs MUC_CHAN0_IV_IN0 (ivsize (rq_tfm (reqs s rid)))).
                 regs (hica_muc_chan_unprepare ch rid no_output s) x = 0))
        \<and> (\<forall>k < unat (inout_size (chans s ch)).
             inout (chans (hica_muc_chan_unprepare ch rid no_output s) ch) k = 0))
   \<and> (ch \<noteq> MUC_CHAN_PKG1 \<and> mode (ctrl (rq_tfm (reqs s rid))) \<noteq> MUC_MODE_ECB \<longrightarrow>
        (\<forall>k < MUC_IV_SIZE. chan_iv (chans (hica_muc_chan_unprepare ch rid no_output s) ch) k = 0))
   \<and> (\<forall>x. regs s x = 0 \<longrightarrow> regs (hica_muc_chan_unprepare ch rid no_output s) x = 0)
   \<and> (ch < MUC_CHAN_NUM \<and> (\<forall>x \<in> set (key_iv_regs ch). regs s x = 0) \<longrightarrow>
        (\<forall>x \<in> set (key_iv_regs ch).
            regs (hica_muc_chan_unprepare ch rid no_output (snd (hica_muc_chan_prepare ch rid s))) x = 0))
   \<and> (c < MUC_CHAN_NUM \<longrightarrow>
        (\<forall>x \<in> set (key_iv_regs c).
            regs (snd (hica_muc_chan_push ch rid s)) x = regs s x
            \<and> regs (hica_muc_chan_emit ch s) x = regs s x))"
proof (intro conjI impI ballI allI)
  fix x
  assume "ch < MUC_CHAN_NUM \<and> (\<forall>x \<in> set (key_iv_regs ch). regs s x = 0)"
    and "x \<in> set (key_iv_regs ch)"
  then show "regs (hica_muc_chan_unprepare ch rid no_output (snd (hica_muc_chan_prepare ch rid s))) x = 0"
    by (intro prepare_then_unprepare_clean) auto
qed (simp_all add: unprepare_regs unprepare_inout unprepare_chan_iv push_key_iv_regs emit_key_iv_regs)

theorem unprepare_erases_witness:
  "regs (accepted_dev aes_cbc 4096) 0xB0 \<noteq> 0
   \<and> chan_iv (chans (accepted_dev aes_cbc 4096) 1) 0 \<noteq> 0
   \<and> regs (hica_muc_chan_unprepare 1 0 False (accepted_dev aes_cbc 4096)) 0xB0 = 0
   \<and> regs (hica_muc_chan_unprepare 1 0 False (accepted_dev aes_cbc 4096)) 0xBC = 0
   \<and> regs (hica_muc_chan_unprepare 1 0 False (accepted_dev aes_cbc 4096)) 0x20 = 0
   \<and> chan_iv (chans (hica_muc_chan_unprepare 1 0 False (accepted_dev aes_cbc 4096)) 1) 0 = 0
   \<and> chan_iv (chans (hica_muc_chan_unprepare 1 0 False (accepted_dev aes_cbc 4096)) 1) 15 = 0"
proof -
  have t: "keysize (rq_tfm (reqs (accepted_dev aes_cbc 4096) 0)) = 16"
    "ivsize (rq_tfm (reqs (accepted_dev aes_cbc 4096) 0)) = 16"
    "mode (ctrl (rq_tfm (reqs (accepted_dev aes_cbc 4096) 0))) \<noteq> MUC_MODE_ECB"
    by (simp_all add: accepted_dev_def eval_defs cong: eval_congs)
  have n: "regs (accepted_dev aes_cbc 4096) 0xB0 \<noteq> 0"
    "chan_iv (chans (accepted_dev aes_cbc 4096) 1) 0 \<noteq> 0"
    by (simp_all add: accepted_dev_def eval_defs cong: eval_congs)
  have m: "seq_regs (MUC_CHANn_KEY0 1) 16 = [0xB0, 0xB4, 0xB8, 0xBC]"
    "seq_regs (MUC_CHANn_IV_OUT0 1) 16 = [0x20, 0x24, 0x28, 0x2C]"
    by (simp_all add: seq_regs_def seq_offsets_def upt_rec reg_defs)
  from unprepare_erases [of 1 "accepted_dev aes_cbc 4096" 0 False 1] t m n
  show ?thesis
    by (simp add: MUC_CHAN_PKG1_def MUC_IV_SIZE_def)
qed

subsection \<open>Descriptor flags\<close>

lemma list_append_buf_flags:
  assumes "list_append_buf chan rq is_dst iter old = Inr b"
  shows "flags b = 0 \<or> flags b = MUC_BUF_FLAG_END_OF_LIST
           \<or> flags b = MUC_BUF_FLAG_SET_IV OR MUC_BUF_FLAG_END_OF_LIST"
  using assms by (auto simp: list_append_buf_def Let_def split: if_splits)

lemma flag_values_no_dummy:
  "(0::u32) AND MUC_BUF_FLAG_DUMMY = 0"
  "MUC_BUF_FLAG_END_OF_LIST AND MUC_BUF_FLAG_DUMMY = 0"
  "(MUC_BUF_FLAG_SET_IV OR MUC_BUF_FLAG_END_OF_LIST) AND MUC_BUF_FLAG_DUMMY = 0"
  by (simp_all add: MUC_BUF_FLAG_END_OF_LIST_def MUC_BUF_FLAG_SET_IV_def MUC_BUF_FLAG_DUMMY_def BIT_def)

lemma list_append_buf_no_dummy:
  "list_append_buf chan rq is_dst iter old = Inr b \<Longrightarrow> no_dummy b"
  using list_append_buf_flags [of chan rq is_dst iter old b]
  by (auto simp: no_dummy_def flag_values_no_dummy)

lemma ring_write_all:
  "\<forall>b \<in> set l. P b \<Longrightarrow> P b' \<Longrightarrow> \<forall>b \<in> set (ring_write l i b'). P b"
  by (auto simp: ring_write_def dest: set_update_subset_insert [THEN subsetD])

lemma list_append_loop_no_dummy:
  "\<forall>b \<in> set l. no_dummy b
     \<Longrightarrow> \<forall>b \<in> set (fst (snd (list_append_loop chan rq is_dst n i iter l))). no_dummy b"
proof (induction chan rq is_dst n i iter l rule: list_append_loop.induct)
  case (1 chan rq is_dst n i iter l)
  show ?case
  proof (cases "offset iter < runlen (rq_ctx rq) \<and> n < unat (list_size chan)")
    case False
    then show ?thesis using "1.prems" by (subst list_append_loop.simps) auto
  next
    case True
    show ?thesis
    proof (cases "list_append_buf chan rq is_dst iter (l ! unat i)")
      case (Inl e)
      then show ?thesis using True "1.prems" by (subst list_append_loop.simps) simp
    next
      case (Inr b)
      have "\<forall>b \<in> set (ring_write l i b). no_dummy b"
        using "1.prems" list_append_buf_no_dummy [OF Inr] by (rule ring_write_all)
      from "1.IH" [OF True Inr this] show ?thesis
        using True Inr by (subst list_append_loop.simps) simp
    qed
  qed
qed


lemma list_append_no_dummy:
  "\<forall>b \<in> set l. no_dummy b
     \<Longrightarrow> \<forall>b \<in> set (fst (snd (hica_muc_list_append l i iter chan rq is_dst))). no_dummy b"
  by (simp add: hica_muc_list_append_def list_append_loop_no_dummy)

lemma fixup_buf_no_dummy: "no_dummy (fixup_buf chan old)"
  by (simp add: no_dummy_def fixup_buf_def flag_values_no_dummy)

lemma push_n_set_buffers_fixup:
  assumes "eof (rq_ctx (reqs s rid))"
  shows "push_n_set_buffers ch rid st dt src_i dst_i dst_n s =
     (ERR EINPROGRESS,
      upd_chan ch (\<lambda>c. c\<lparr>
        src := ring_write (src (chans s ch)) src_i (fixup_buf (chans s ch) (src (chans s ch) ! unat src_i)),
        dst := ring_write (dst (chans s ch))
                 (if dst_i + dst_n \<ge> list_size (chans s ch)
                  then dst_i + dst_n - list_size (chans s ch) else dst_i + dst_n)
                 (fixup_buf (chans s ch)
                    (dst (chans s ch) ! unat (if dst_i + dst_n \<ge> list_size (chans s ch)
                       then dst_i + dst_n - list_size (chans s ch) else dst_i + dst_n))),
        src_emit_n := 1, dst_emit_n := 1\<rparr>) s)"
  using assms by (simp add: push_n_set_buffers_def Let_def fixup_buf_def)

lemma push_n_set_buffers_clean:
  assumes "rings_clean (chans s c)"
  shows "rings_clean (chans (snd (push_n_set_buffers ch rid st dt si di dn s)) c)"
proof (cases "eof (rq_ctx (reqs s rid))")
  case True
  then show ?thesis
    using assms
    by (auto simp: push_n_set_buffers_fixup rings_clean_def fixup_buf_no_dummy
        dest!: ring_write_all [where P = no_dummy, rotated, OF fixup_buf_no_dummy, rule_format, rotated])
next
  case False
  have s: "\<forall>b \<in> set (src (chans s ch)). no_dummy b \<Longrightarrow>
      \<forall>b \<in> set (fst (snd (hica_muc_list_append (src (chans s ch)) si (rc_src (rq_ctx (reqs s rid)))
          (chans s ch) (reqs s rid) False))). no_dummy b"
    by (rule list_append_no_dummy)
  show ?thesis
    using False assms s
    apply (simp add: push_n_set_buffers_def Let_def case_prod_beta rings_clean_def split: sum.splits)
    apply (auto intro: list_append_no_dummy [rule_format])
    done
qed


lemma push_n_rings_clean:
  "rings_clean (chans s c) \<Longrightarrow> rings_clean (chans (snd (push_n_rings ch rid st dt dn s)) c)"
  by (simp add: push_n_rings_def case_prod_beta push_n_set_buffers_clean split: sum.splits)

lemma iv_get_chans [simp]: "chans (hica_muc_chan_iv_get ch rid s) = chans s"
  by (simp add: hica_muc_chan_iv_get_def Let_def)

lemma push_n_clean:
  "rings_clean (chans s c) \<Longrightarrow> rings_clean (chans (snd (hica_muc_chan_push_n ch rid s)) c)"
  by (simp add: hica_muc_chan_push_n_def Let_def push_n_rings_clean)

lemma rings_clean_cong:
  "src c' = src c \<Longrightarrow> dst c' = dst c \<Longrightarrow> rings_clean c' = rings_clean c"
  by (simp add: rings_clean_def)

lemma rings_clean_upd [simp]:
  "rings_clean (c\<lparr>dirty := d\<rparr>) = rings_clean c"
  "rings_clean (c\<lparr>req := r\<rparr>) = rings_clean c"
  "rings_clean (c\<lparr>inout := io\<rparr>) = rings_clean c"
  "rings_clean (c\<lparr>inout_size := n\<rparr>) = rings_clean c"
  "rings_clean (c\<lparr>chan_iv := iv\<rparr>) = rings_clean c"
  "rings_clean (c\<lparr>src_emit_n := e\<rparr>) = rings_clean c"
  "rings_clean (c\<lparr>dst_emit_n := e\<rparr>) = rings_clean c"
  "rings_clean (c\<lparr>list_size := n\<rparr>) = rings_clean c"
  by (simp_all add: rings_clean_def)

lemma push_0_clean [simp]:
  "rings_clean (chans (snd (hica_muc_chan_push_0 ch rid s)) c) = rings_clean (chans s c)"
  by (simp add: hica_muc_chan_push_0_def Let_def scatterwalk_copy_from_def)

lemma push_clean:
  "rings_clean (chans s c) \<Longrightarrow> rings_clean (chans (snd (hica_muc_chan_push ch rid s)) c)"
  using push_n_clean [of s c ch rid]
  by (auto simp: hica_muc_chan_push_def case_prod_beta)

lemma emit_clean [simp]:
  "rings_clean (chans (hica_muc_chan_emit ch s) c) = rings_clean (chans s c)"
  by (simp add: hica_muc_chan_emit_def hica_muc_chan_emit_0_def hica_muc_chan_emit_n_def Let_def)

lemma unprepare_clean [simp]:
  "rings_clean (chans (hica_muc_chan_unprepare ch rid no s) c) = rings_clean (chans s c)"
  by (simp add: hica_muc_chan_unprepare_def hica_muc_chan_unprepare_0_def
      hica_muc_chan_unprepare_n_def Let_def)

lemma prepare_clean [simp]:
  "rings_clean (chans (snd (hica_muc_chan_prepare ch rid s)) c) = rings_clean (chans s c)"
  by (simp add: hica_muc_chan_prepare_def hica_muc_chan_prepare_0_def hica_muc_chan_prepare_n_def
      prepare_n_setup_def scatterwalk_copy_from_def Let_def case_prod_beta split: option.splits)

lemma encdec_clean:
  "rings_clean (chans (snd (hica_muc_alg_encdec rid decr s)) c) = rings_clean (chans s c)"
  by (simp add: hica_muc_alg_encdec_def Let_def case_prod_beta split: option.splits)

lemma process_chan_clean:
  "rings_clean (chans (snd ms) c) \<Longrightarrow> rings_clean (chans (snd (process_chan ch ms)) c)"
  by (cases ms) (auto simp: process_chan_def case_prod_beta split: req_slot.splits intro!: push_clean)

lemma process_clean:
  "rings_clean (chans s c) \<Longrightarrow> rings_clean (chans (snd (hica_muc_process s)) c)"
proof -
  have "rings_clean (chans (snd ms) c) \<Longrightarrow> rings_clean (chans (snd (fold process_chan chs ms)) c)"
    for chs ms
    by (induction chs arbitrary: ms) (simp_all add: process_chan_clean)
  then show "rings_clean (chans s c) \<Longrightarrow> rings_clean (chans (snd (hica_muc_process s)) c)"
    by (simp add: hica_muc_process_def)
qed

lemma clear_dirty_bits_clean [simp]:
  "rings_clean (chans (clear_dirty_bits val s) c) = rings_clean (chans s c)"
proof -
  have "rings_clean (chans (fold (\<lambda>ch t. if val AND BIT ch \<noteq> 0
          then upd_chan ch (\<lambda>c. c\<lparr>dirty := False\<rparr>) t else t) chs s) c) = rings_clean (chans s c)"
    for chs
    by (induction chs arbitrary: s) auto
  then show ?thesis by (simp add: clear_dirty_bits_def)
qed

lemma handle_clean:
  "rings_clean (chans (snd (hica_muc_handle s)) c) = rings_clean (chans s c)"
  by (simp add: handle_eq)

lemma set_req_of_mask_clean [simp]:
  "rings_clean (chans (set_req_of_mask m r s) c) = rings_clean (chans s c)"
proof -
  have "rings_clean (chans (fold (\<lambda>ch t. if m AND BIT ch \<noteq> 0
          then upd_chan ch (\<lambda>c. c\<lparr>req := r\<rparr>) t else t) chs s) c) = rings_clean (chans s c)"
    for chs
    by (induction chs arbitrary: s) auto
  then show ?thesis by (simp add: set_req_of_mask_def)
qed

lemma replicate_zero_clean:
  "\<forall>b \<in> set (replicate n \<lparr>addr = 0, flags = 0, len = 0, iv_addr = 0\<rparr>). no_dummy b"
  by (simp add: no_dummy_def)

lemma chan_init_clean:
  "rings_clean (chans s c) \<Longrightarrow> rings_clean (chans (snd (hica_muc_chan_init env ch s)) c)"
  by (auto simp: hica_muc_chan_init_def Let_def rings_clean_def no_dummy_def split: option.splits)

lemma setup_channels_clean:
  "rings_clean (chans s c) \<Longrightarrow> rings_clean (chans (snd (setup_channels env m chs s)) c)"
proof (induction chs arbitrary: s)
  case Nil
  then show ?case by simp
next
  case (Cons a chs)
  have u: "rings_clean (chans (upd_chan a (\<lambda>c. c\<lparr>req := ERR_PTR EINVAL\<rparr>) s) c)"
    using Cons.prems by auto
  have i: "rings_clean (chans (snd (hica_muc_chan_init env a s)) c)"
    using Cons.prems by (rule chan_init_clean)
  show ?case
    using Cons.IH [OF u] Cons.IH [OF i] i
    by (simp add: case_prod_beta)
qed

lemma probe_finish_clean:
  "rings_clean (chans s c) \<Longrightarrow> rings_clean (chans (snd (probe_finish env m s)) c)"
  by (simp add: probe_finish_def Let_def case_prod_beta setup_channels_clean)

lemma probe_clean:
  "rings_clean (chans s c) \<Longrightarrow> rings_clean (chans (snd (hica_muc_probe env s)) c)"
  by (simp add: hica_muc_probe_def probe_bring_up_def Let_def probe_finish_clean)

lemma list_append_buf_pad:
  assumes "list_append_buf chan rq is_dst iter old = Inr b" "cryptlen rq \<le> offset iter"
  shows "addr b = pad_addr chan"
    and "flags b = MUC_BUF_FLAG_END_OF_LIST
         \<or> (\<not> is_dst \<and> mode (ctrl (rq_tfm rq)) \<noteq> MUC_MODE_ECB \<and> offset iter < chunksize (rq_tfm rq)
             \<and> flags b = MUC_BUF_FLAG_SET_IV OR MUC_BUF_FLAG_END_OF_LIST)"
  using assms by (auto simp: list_append_buf_def Let_def split: if_splits)


lemma all_rings_clean_preserved:
  assumes "all_rings_clean s"
  shows "all_rings_clean (snd (hica_muc_probe env s))"
    and "all_rings_clean (snd (hica_muc_alg_encdec rid decr s))"
    and "all_rings_clean (snd (hica_muc_process s))"
    and "all_rings_clean (snd (hica_muc_handle s))"
  using assms
  by (simp_all add: all_rings_clean_def probe_clean encdec_clean process_clean handle_clean)

text \<open>
  C10 (as amended). No ring slot ever holds a descriptor with the dummy flag: a device
  whose rings are free of it stays so under probe, request submission, the sweeper and
  the interrupt handler. Every descriptor that \<open>hica_muc_list_append\<close> stores is
  free of it; a padding descriptor (one that starts at or after \<open>cryptlen\<close>) points
  at the pad buffer of the channel and carries the end-of-list flag alone, except a
  source descriptor of a mode other than ECB that starts before the first chunk
  boundary, which carries set-iv and end-of-list. The two descriptors of the stall
  fixup point at the pad buffer and carry the end-of-list flag alone.
\<close>

theorem no_dummy_descriptor:
  "(all_rings_clean s \<longrightarrow>
      all_rings_clean (snd (hica_muc_probe env s))
      \<and> all_rings_clean (snd (hica_muc_alg_encdec rid decr s))
      \<and> all_rings_clean (snd (hica_muc_process s))
      \<and> all_rings_clean (snd (hica_muc_handle s)))
   \<and> (list_append_buf chan rq is_dst iter old = Inr b \<longrightarrow>
        no_dummy b
        \<and> (cryptlen rq \<le> offset iter \<longrightarrow>
             addr b = pad_addr chan
             \<and> (flags b = MUC_BUF_FLAG_END_OF_LIST
                 \<or> (\<not> is_dst \<and> mode (ctrl (rq_tfm rq)) \<noteq> MUC_MODE_ECB
                     \<and> offset iter < chunksize (rq_tfm rq)
                     \<and> flags b = MUC_BUF_FLAG_SET_IV OR MUC_BUF_FLAG_END_OF_LIST))))
   \<and> (eof (rq_ctx (reqs s rid)) \<longrightarrow>
        push_n_set_buffers ch rid src_todo dst_todo src_i dst_i dst_n s =
          (ERR EINPROGRESS,
           upd_chan ch (\<lambda>c. c\<lparr>
             src := ring_write (src (chans s ch)) src_i
                      (fixup_buf (chans s ch) (src (chans s ch) ! unat src_i)),
             dst := ring_write (dst (chans s ch))
                      (if dst_i + dst_n \<ge> list_size (chans s ch)
                       then dst_i + dst_n - list_size (chans s ch) else dst_i + dst_n)
                      (fixup_buf (chans s ch)
                         (dst (chans s ch) ! unat (if dst_i + dst_n \<ge> list_size (chans s ch)
                            then dst_i + dst_n - list_size (chans s ch) else dst_i + dst_n))),
             src_emit_n := 1, dst_emit_n := 1\<rparr>) s))
   \<and> no_dummy (fixup_buf chan old)
   \<and> addr (fixup_buf chan old) = pad_addr chan
   \<and> flags (fixup_buf chan old) = MUC_BUF_FLAG_END_OF_LIST"
proof (intro conjI impI)
  assume "eof (rq_ctx (reqs s rid))"
  then show "push_n_set_buffers ch rid src_todo dst_todo src_i dst_i dst_n s =
          (ERR EINPROGRESS,
           upd_chan ch (\<lambda>c. c\<lparr>
             src := ring_write (src (chans s ch)) src_i
                      (fixup_buf (chans s ch) (src (chans s ch) ! unat src_i)),
             dst := ring_write (dst (chans s ch))
                      (if dst_i + dst_n \<ge> list_size (chans s ch)
                       then dst_i + dst_n - list_size (chans s ch) else dst_i + dst_n)
                      (fixup_buf (chans s ch)
                         (dst (chans s ch) ! unat (if dst_i + dst_n \<ge> list_size (chans s ch)
                            then dst_i + dst_n - list_size (chans s ch) else dst_i + dst_n))),
             src_emit_n := 1, dst_emit_n := 1\<rparr>) s)"
    by (rule push_n_set_buffers_fixup)
next
  assume a: "list_append_buf chan rq is_dst iter old = Inr b" and c: "cryptlen rq \<le> offset iter"
  show "flags b = MUC_BUF_FLAG_END_OF_LIST
                 \<or> (\<not> is_dst \<and> mode (ctrl (rq_tfm rq)) \<noteq> MUC_MODE_ECB
                     \<and> offset iter < chunksize (rq_tfm rq)
                     \<and> flags b = MUC_BUF_FLAG_SET_IV OR MUC_BUF_FLAG_END_OF_LIST)"
    by (rule list_append_buf_pad [OF a c])
qed (simp_all add: all_rings_clean_preserved list_append_buf_no_dummy list_append_buf_pad
       fixup_buf_no_dummy, simp_all add: fixup_buf_def)

theorem no_dummy_descriptor_witness:
  "all_rings_clean (dev_of aes_cbc 4096 [1, 1])
   \<and> all_rings_clean (snd (hica_muc_process (accepted_dev aes_cbc 4096)))
   \<and> flags (src (chans (snd (hica_muc_process (accepted_dev aes_cbc 4096))) 1) ! 0)
       = MUC_BUF_FLAG_SET_IV OR MUC_BUF_FLAG_END_OF_LIST"
proof -
  have a: "all_rings_clean (dev_of aes_cbc 4096 [1, 1])"
    by (simp add: all_rings_clean_def rings_clean_def no_dummy_def fixture_defs)
  have f: "flags (src (chans (snd (hica_muc_process (accepted_dev aes_cbc 4096))) 1) ! 0)
       = MUC_BUF_FLAG_SET_IV OR MUC_BUF_FLAG_END_OF_LIST"
    by (simp add: accepted_dev_def hica_muc_chan_emit_def hica_muc_chan_emit_n_def eval_defs
        ring_wrap_1 cong: eval_congs)
  from no_dummy_descriptor [of "dev_of aes_cbc 4096 [1, 1]" env 0 False]
  have b: "all_rings_clean (accepted_dev aes_cbc 4096)"
    using a by (simp add: accepted_dev_def)
  from no_dummy_descriptor [of "accepted_dev aes_cbc 4096" env 0 False] b a f
  show ?thesis by simp
qed

text \<open>
  C10 as stated fails for a padding descriptor: a CFB request of 5 bytes from a
  scatterlist node of 5 bytes gets a second source descriptor of 11 bytes at the pad
  buffer, flagged set-iv and end-of-list.
\<close>

theorem padding_descriptor_counterexample:
  "(case hica_muc_chan_push 1 0 (ring_dev aes_cfb 5) of
      (r, s') \<Rightarrow>
        r = ERR EINPROGRESS \<and> src_emit_n (chans s' 1) = 2
        \<and> addr (src (chans s' 1) ! 0) = 0x10000 \<and> len (src (chans s' 1) ! 0) = 5
        \<and> flags (src (chans s' 1) ! 0) = 0
        \<and> addr (src (chans s' 1) ! 1) = pad_addr (chans s' 1) \<and> len (src (chans s' 1) ! 1) = 11
        \<and> flags (src (chans s' 1) ! 1) = MUC_BUF_FLAG_SET_IV OR MUC_BUF_FLAG_END_OF_LIST
        \<and> flags (src (chans s' 1) ! 1) \<noteq> MUC_BUF_FLAG_END_OF_LIST)"
  by (simp add: ring_dev_def aes_cfb_def eval_defs ring_wrap_1 cong: eval_congs)

subsection \<open>The end-of-frame stall\<close>





lemma iv_get_regs [simp]: "regs (hica_muc_chan_iv_get ch rid s) = regs s"
  by (simp add: hica_muc_chan_iv_get_def Let_def upd_req_def)

lemma iv_get_eof [simp]:
  "eof (rq_ctx (reqs (hica_muc_chan_iv_get ch rid s) r)) = eof (rq_ctx (reqs s r))"
  by (simp add: hica_muc_chan_iv_get_def Let_def upd_req_def)

lemma upd_r_ctx_eof [simp]:
  "eof (rq_ctx (reqs (upd_r_ctx rid (\<lambda>c. c\<lparr>eof := True\<rparr>) s) rid))"
  by (simp add: upd_r_ctx_def upd_req_def)









subsection \<open>Ring pointers\<close>

lemma list_append_buf_err: "list_append_buf chan rq d it b = Inl e \<Longrightarrow> e = EFAULT"
  by (auto simp: list_append_buf_def Let_def split: if_splits)

lemma list_append_loop_err:
  "fst (list_append_loop chan rq d n i it l) = Inl e \<Longrightarrow> e = EFAULT"
proof (induction chan rq d n i it l rule: list_append_loop.induct)
  case (1 chan rq is_dst n i iter l)
  note u = list_append_loop.simps [of chan rq is_dst n i iter l]
  show ?case
  proof (cases "offset iter < runlen (rq_ctx rq) \<and> n < unat (list_size chan)")
    case True
    show ?thesis
    proof (cases "list_append_buf chan rq is_dst iter (l ! unat i)")
      case (Inl e')
      from "1.prems" have "e' = e"
        unfolding u using True Inl by simp
      with list_append_buf_err [OF Inl] show ?thesis
        by simp
    next
      case (Inr b)
      from "1.prems" have "fst (list_append_loop chan rq is_dst (Suc n)
          (if i + 1 \<ge> list_size chan then 0 else i + 1)
          (snd (sg_iter_inc iter (len b))) (ring_write l i b)) = Inl e"
        unfolding u using True Inr by simp
      then show ?thesis
        by (rule "1.IH" [OF True Inr])
    qed
  next
    case False
    from "1.prems" show ?thesis
      unfolding u using False by auto
  qed
qed

lemma list_append_not_eio [simp]:
  "fst (hica_muc_list_append l i it chan rq d) \<noteq> Inl EIO"
proof
  assume "fst (hica_muc_list_append l i it chan rq d) = Inl EIO"
  then have "EIO = EFAULT"
    unfolding hica_muc_list_append_def by (rule list_append_loop_err)
  then show False by simp
qed


















subsection \<open>The IV split at the first chunk boundary\<close>

lemma sg_iter_inc_offset: "offset (snd (sg_iter_inc iter n)) = offset iter + n"
  by (simp add: sg_iter_inc_def sg_iter_normalize_def case_prod_beta)

lemma ring_write_length [simp]: "length (ring_write l i b) = length l"
  by (simp add: ring_write_def)

lemma ring_write_nth:
  "unat i < length l \<Longrightarrow> ring_write l i b ! j = (if j = unat i then b else l ! j)"
  by (simp add: ring_write_def nth_list_update)

lemma eol_no_set_iv:
  "MUC_BUF_FLAG_END_OF_LIST AND MUC_BUF_FLAG_SET_IV = 0"
  by (simp add: MUC_BUF_FLAG_END_OF_LIST_def MUC_BUF_FLAG_SET_IV_def BIT_def)

lemma list_append_buf_tail:
  assumes b: "list_append_buf chan rq False iter old = Inr b"
    and c: "chunksize (rq_tfm rq) \<le> offset iter"
    and r: "offset iter < runlen (rq_ctx rq)"
  shows "flags b AND MUC_BUF_FLAG_SET_IV = 0"
    and "len b \<noteq> 0"
    and "unat (offset iter) + unat (len b) \<le> unat (runlen (rq_ctx rq))"
proof -
  have n: "\<not> offset iter < chunksize (rq_tfm rq)"
    using c by (simp add: not_less)
  have m: "runlen (rq_ctx rq) - offset iter \<noteq> 0"
    using r by auto
  have u: "unat (runlen (rq_ctx rq) - offset iter) = unat (runlen (rq_ctx rq)) - unat (offset iter)"
    using r by (simp add: unat_sub)
  show "flags b AND MUC_BUF_FLAG_SET_IV = 0"
    using b n by (auto simp: list_append_buf_def Let_def eol_no_set_iv split: if_splits)
  have v: "sg_iter_valid iter \<Longrightarrow> sg_iter_len iter \<noteq> 0"
    by (auto simp: sg_iter_valid_def sg_iter_len_def split: list.splits)
  show "len b \<noteq> 0"
    using b n m v
    by (auto simp: list_append_buf_def Let_def min_def MUC_BUF_LEN_MAX_def split: if_splits)
  have "len b \<le> runlen (rq_ctx rq) - offset iter"
    using b n by (auto simp: list_append_buf_def Let_def min_le_iff_disj split: if_splits)
  then have "unat (len b) \<le> unat (runlen (rq_ctx rq)) - unat (offset iter)"
    by (simp add: word_le_nat_alt u)
  moreover have "unat (offset iter) < unat (runlen (rq_ctx rq))"
    using r by (simp add: word_less_nat_alt)
  ultimately show "unat (offset iter) + unat (len b) \<le> unat (runlen (rq_ctx rq))"
    by arith
qed


lemma ring_next:
  assumes "unat i < unat ls"
  shows "unat (if i + 1 \<ge> ls then 0 else i + 1) = (unat i + 1) mod unat (ls::u32)"
proof -
  have "unat ls < 2 ^ 32"
    using unsigned_less [of ls, where 'a = nat] by simp
  with assms have "unat i + unat (1::u32) < 2 ^ LENGTH(32)"
    by simp
  then have u: "unat (i + 1) = unat i + 1"
    by (simp add: unat_add_lem [THEN iffD1])
  show ?thesis
  proof (cases "unat ls \<le> unat i + 1")
    case True
    with assms have "unat i + 1 = unat ls" by arith
    with True show ?thesis
      by (simp add: word_le_nat_alt u)
  next
    case False
    then show ?thesis
      by (simp add: word_le_nat_alt u)
  qed
qed

lemma mod_slot_Suc: "((x + 1) mod N + k) mod N = (x + Suc k) mod (N::nat)"
proof -
  have "((x + 1) mod N + k) mod N = (x + 1 + k) mod N"
    by (rule mod_add_left_eq)
  then show ?thesis by simp
qed

lemma mod_slot_neq:
  assumes "x < N" "k < N - 1"
  shows "((x + 1) mod N + k) mod N \<noteq> (x::nat)"
proof -
  have "(x + Suc k) mod N = (if x + Suc k < N then x + Suc k else x + Suc k - N)"
    using assms by (simp add: mod_if)
  also have "\<dots> \<noteq> x"
    using assms by auto
  finally show ?thesis
    by (metis mod_slot_Suc)
qed


lemma list_append_loop_tail:
  assumes "list_append_loop chan rq d n i iter l = (Inr m, l', it')"
    and "chunksize (rq_tfm rq) \<le> offset iter"
    and "offset iter \<le> runlen (rq_ctx rq)"
    and "unat i < unat (list_size chan)"
    and "length l = unat (list_size chan)"
    and "n \<le> unat (list_size chan)"
    and "\<not> d"
  shows "n \<le> m \<and> m \<le> unat (list_size chan) \<and> length l' = length l
    \<and> chunksize (rq_tfm rq) \<le> offset it' \<and> offset it' \<le> runlen (rq_ctx rq)
    \<and> (\<forall>k < m - n. flags (l' ! ((unat i + k) mod length l)) AND MUC_BUF_FLAG_SET_IV = 0
          \<and> len (l' ! ((unat i + k) mod length l)) \<noteq> 0)
    \<and> (\<forall>j < length l. (\<forall>k < m - n. j \<noteq> (unat i + k) mod length l) \<longrightarrow> l' ! j = l ! j)"
  using assms
proof (induction chan rq d n i iter l rule: list_append_loop.induct)
  case (1 chan rq d n i iter l)
  let ?N = "unat (list_size chan)"
  from "1.prems"(7) have d: "d = False" by simp
  note u = list_append_loop.simps [of chan rq d n i iter l]
  show ?case
  proof (cases "offset iter < runlen (rq_ctx rq) \<and> n < ?N")
    case False
    with "1.prems"(1) have "m = n" "l' = l" "it' = iter"
      unfolding u by auto
    with "1.prems" show ?thesis by simp
  next
    case True
    show ?thesis
    proof (cases "list_append_buf chan rq d iter (l ! unat i)")
      case (Inl e)
      with True "1.prems"(1) show ?thesis
        unfolding u by simp
    next
      case (Inr b)
      let ?i = "if i + 1 \<ge> list_size chan then 0 else i + 1"
      let ?it = "snd (sg_iter_inc iter (len b))"
      let ?l = "ring_write l i b"
      from True "1.prems"(1) Inr
      have r: "list_append_loop chan rq d (Suc n) ?i ?it ?l = (Inr m, l', it')"
        unfolding u by simp
      note t = list_append_buf_tail [OF Inr [unfolded d] "1.prems"(2) True [THEN conjunct1]]
      have lt: "unat (offset iter) + unat (len b) < 2 ^ LENGTH(32)"
        using t(3) unsigned_less [of "runlen (rq_ctx rq)", where 'a = nat]
        by simp
      then have o: "unat (offset iter + len b) = unat (offset iter) + unat (len b)"
        by (simp add: unat_add_lem [THEN iffD1])
      have p1: "chunksize (rq_tfm rq) \<le> offset ?it"
        using "1.prems"(2) by (simp add: sg_iter_inc_offset word_le_nat_alt o)
      have p2: "offset ?it \<le> runlen (rq_ctx rq)"
        using t(3) by (simp add: sg_iter_inc_offset word_le_nat_alt o)
      have i: "unat ?i = (unat i + 1) mod ?N"
        by (rule ring_next [OF "1.prems"(4)])
      have p3: "unat ?i < ?N"
        using "1.prems"(4) by (simp only: i) simp
      have p4: "length ?l = ?N"
        using "1.prems"(5) by simp
      have p5: "Suc n \<le> ?N"
        using True by simp
      note ih = "1.IH" [OF True Inr r p1 p2 p3 p4 p5 "1.prems"(7)]
      have len: "length l = ?N"
        by (rule "1.prems"(5))
      have w: "?l ! j = (if j = unat i then b else l ! j)" for j
        using "1.prems"(4) len by (simp add: ring_write_nth)
      from ih have m: "Suc n \<le> m" "m \<le> ?N" "length l' = ?N"
        using p4 by simp_all
      have q: "flags (l' ! ((unat ?i + k) mod ?N)) AND MUC_BUF_FLAG_SET_IV = 0
          \<and> len (l' ! ((unat ?i + k) mod ?N)) \<noteq> 0" if "k < m - Suc n" for k
        using ih that p4 by simp
      have f: "l' ! j = ?l ! j" if "j < ?N" "\<forall>k < m - Suc n. j \<noteq> (unat ?i + k) mod ?N" for j
        using ih that p4 by simp
      have first: "l' ! unat i = b"
      proof -
        have "\<forall>k < m - Suc n. unat i \<noteq> (unat ?i + k) mod ?N"
        proof (intro allI impI)
          fix k assume "k < m - Suc n"
          with m have "k < ?N - 1" by arith
          from mod_slot_neq [OF "1.prems"(4) this, symmetric]
          show "unat i \<noteq> (unat ?i + k) mod ?N"
            unfolding i .
        qed
        from f [OF "1.prems"(4) this] show ?thesis
          by (simp add: w)
      qed
      have slots: "flags (l' ! ((unat i + k) mod ?N)) AND MUC_BUF_FLAG_SET_IV = 0
          \<and> len (l' ! ((unat i + k) mod ?N)) \<noteq> 0" if "k < m - n" for k
      proof (cases k)
        case 0
        with "1.prems"(4) first t show ?thesis by simp
      next
        case (Suc k')
        with that have "k' < m - Suc n" by arith
        from q [OF this] show ?thesis
          unfolding i mod_slot_Suc Suc .
      qed
      have frame: "l' ! j = l ! j" if "j < ?N" "\<forall>k < m - n. j \<noteq> (unat i + k) mod ?N" for j
      proof -
        have "0 < m - n" using m by arith
        with that(2) have ne: "j \<noteq> unat i"
          using "1.prems"(4) by (metis add.right_neutral mod_less)
        have "\<forall>k < m - Suc n. j \<noteq> (unat ?i + k) mod ?N"
        proof (intro allI impI)
          fix k assume "k < m - Suc n"
          then have "Suc k < m - n" by arith
          with that(2) have "j \<noteq> (unat i + Suc k) mod ?N" by blast
          then show "j \<noteq> (unat ?i + k) mod ?N"
            unfolding i mod_slot_Suc .
        qed
        from f [OF that(1) this] ne show ?thesis
          by (simp add: w)
      qed
      from ih have o': "chunksize (rq_tfm rq) \<le> offset it'" "offset it' \<le> runlen (rq_ctx rq)"
        by simp_all
      from m o' slots frame show ?thesis
        by (simp add: len)
    qed
  qed
qed


lemma list_append_buf_first:
  assumes "mode (ctrl (rq_tfm rq)) \<noteq> MUC_MODE_ECB"
    and "iter = sg_iter_init (e # es)"
    and "chunksize (rq_tfm rq) < sg_length e"
    and "0 < chunksize (rq_tfm rq)" and "chunksize (rq_tfm rq) \<le> MUC_BLOCK_SIZE"
    and "chunksize (rq_tfm rq) \<le> runlen (rq_ctx rq)"
  shows "\<exists>b. list_append_buf chan rq False iter old = Inr b
    \<and> len b = chunksize (rq_tfm rq)
    \<and> flags b = MUC_BUF_FLAG_SET_IV OR MUC_BUF_FLAG_END_OF_LIST
    \<and> iv_addr b = chan_iv_addr chan"
proof -
  have v: "sg_iter_valid iter" "sg_iter_len iter = sg_length e" "offset iter = 0"
    using assms(2,3,4) by (auto simp: sg_iter_valid_def sg_iter_len_def sg_iter_init_def)
  have m: "chunksize (rq_tfm rq) \<le> MUC_BUF_LEN_MAX"
    using assms(5) by (simp add: MUC_BLOCK_SIZE_def MUC_BUF_LEN_MAX_def word_le_nat_alt)
  have "chunksize (rq_tfm rq) \<le> min (sg_length e) (min (runlen (rq_ctx rq)) MUC_BUF_LEN_MAX)"
    using assms(3,6) m by simp
  with assms(1,4,6) v show ?thesis
    by (simp add: list_append_buf_def Let_def)
qed

lemma desc_start_ge:
  "0 < k \<Longrightarrow> ds \<noteq> [] \<Longrightarrow> unat (len (ds ! 0)) \<le> desc_start ds k"
  by (cases ds; cases k) (simp_all add: desc_start_def)

lemma emitted_nth:
  "k < n \<Longrightarrow> emitted l i n ! k = l ! ((unat i + k) mod length l)"
  by (simp add: emitted_def)

lemma set_iv_flag:
  "(MUC_BUF_FLAG_SET_IV OR MUC_BUF_FLAG_END_OF_LIST) AND MUC_BUF_FLAG_SET_IV \<noteq> 0"
  by (simp add: MUC_BUF_FLAG_END_OF_LIST_def MUC_BUF_FLAG_SET_IV_def BIT_def)

lemma list_append_first_call:
  assumes "mode (ctrl (rq_tfm rq)) \<noteq> MUC_MODE_ECB"
    and "iter = sg_iter_init (e # es)"
    and "chunksize (rq_tfm rq) < sg_length e"
    and "0 < chunksize (rq_tfm rq)" and "chunksize (rq_tfm rq) \<le> MUC_BLOCK_SIZE"
    and "chunksize (rq_tfm rq) \<le> runlen (rq_ctx rq)"
    and "unat i < unat (list_size chan)" and "length l = unat (list_size chan)"
    and "hica_muc_list_append l i iter chan rq False = (Inr n, l', it')"
  shows "0 < n" and "n \<le> unat (list_size chan)"
    and "chunksize (rq_tfm rq) \<le> offset it'" and "offset it' \<le> runlen (rq_ctx rq)"
    and "len (emitted l' i n ! 0) = chunksize (rq_tfm rq)"
    and "flags (emitted l' i n ! 0) = MUC_BUF_FLAG_SET_IV OR MUC_BUF_FLAG_END_OF_LIST"
    and "iv_addr (emitted l' i n ! 0) = chan_iv_addr chan"
    and "\<forall>k < n. 0 < k \<longrightarrow> flags (emitted l' i n ! k) AND MUC_BUF_FLAG_SET_IV = 0
            \<and> len (emitted l' i n ! k) \<noteq> 0"
proof -
  let ?N = "unat (list_size chan)"
  let ?c = "chunksize (rq_tfm rq)"
  from list_append_buf_first [OF assms(1-6), of chan "l ! unat i"]
  obtain b where b: "list_append_buf chan rq False iter (l ! unat i) = Inr b"
    "len b = ?c" "flags b = MUC_BUF_FLAG_SET_IV OR MUC_BUF_FLAG_END_OF_LIST"
    "iv_addr b = chan_iv_addr chan"
    by blast
  let ?i = "if i + 1 \<ge> list_size chan then 0 else i + 1"
  let ?it = "snd (sg_iter_inc iter (len b))"
  let ?l = "ring_write l i b"
  have o: "offset iter = 0"
    using assms(2) by (simp add: sg_iter_init_def)
  have c: "offset iter < runlen (rq_ctx rq) \<and> 0 < ?N"
    using assms(4,6,7) o by auto
  have r: "list_append_loop chan rq False (Suc 0) ?i ?it ?l = (Inr n, l', it')"
    using assms(9) c b(1) unfolding hica_muc_list_append_def
    by (subst (asm) list_append_loop.simps) simp
  have p1: "?c \<le> offset ?it" and p2: "offset ?it \<le> runlen (rq_ctx rq)"
    using assms(6) by (simp_all add: sg_iter_inc_offset o b(2))
  have i: "unat ?i = (unat i + 1) mod ?N"
    by (rule ring_next [OF assms(7)])
  have p3: "unat ?i < ?N"
    using assms(7) unfolding i by simp
  have p4: "length ?l = ?N"
    using assms(8) by simp
  have p5: "Suc 0 \<le> ?N"
    using assms(7) by simp
  note t = list_append_loop_tail [OF r p1 p2 p3 p4 p5, simplified p4]
  from t have m: "Suc 0 \<le> n" "n \<le> ?N" "length l' = ?N"
    by simp_all
  show "0 < n" "n \<le> ?N"
    using m by simp_all
  show "?c \<le> offset it'" "offset it' \<le> runlen (rq_ctx rq)"
    using t by simp_all
  have q: "flags (l' ! ((unat ?i + k) mod ?N)) AND MUC_BUF_FLAG_SET_IV = 0
      \<and> len (l' ! ((unat ?i + k) mod ?N)) \<noteq> 0" if "k < n - Suc 0" for k
    using t that by simp
  have f: "l' ! j = ?l ! j" if "j < ?N" "\<forall>k < n - Suc 0. j \<noteq> (unat ?i + k) mod ?N" for j
    using t that by simp
  have first: "l' ! unat i = b"
  proof -
    have "\<forall>k < n - Suc 0. unat i \<noteq> (unat ?i + k) mod ?N"
    proof (intro allI impI)
      fix k assume "k < n - Suc 0"
      with m have "k < ?N - 1" by arith
      from mod_slot_neq [OF assms(7) this, symmetric]
      show "unat i \<noteq> (unat ?i + k) mod ?N"
        unfolding i .
    qed
    from f [OF assms(7) this] assms(7,8) show ?thesis
      by (simp add: ring_write_nth)
  qed
  have e0: "emitted l' i n ! 0 = b"
    using m assms(7) first by (simp add: emitted_nth)
  show "len (emitted l' i n ! 0) = ?c"
    "flags (emitted l' i n ! 0) = MUC_BUF_FLAG_SET_IV OR MUC_BUF_FLAG_END_OF_LIST"
    "iv_addr (emitted l' i n ! 0) = chan_iv_addr chan"
    by (simp_all add: e0 b)
  show "\<forall>k < n. 0 < k \<longrightarrow> flags (emitted l' i n ! k) AND MUC_BUF_FLAG_SET_IV = 0
            \<and> len (emitted l' i n ! k) \<noteq> 0"
  proof (intro allI impI)
    fix k assume k: "k < n" "0 < k"
    then obtain k' where k': "k = Suc k'" "k' < n - Suc 0"
      by (cases k) auto
    have "emitted l' i n ! k = l' ! ((unat ?i + k') mod ?N)"
      using k(1) unfolding i mod_slot_Suc by (simp add: emitted_nth m(3) k'(1))
    with q [OF k'(2)] show "flags (emitted l' i n ! k) AND MUC_BUF_FLAG_SET_IV = 0
            \<and> len (emitted l' i n ! k) \<noteq> 0"
      by simp
  qed
qed


lemma list_append_later_call:
  assumes "chunksize (rq_tfm rq) \<le> offset iter" and "offset iter \<le> runlen (rq_ctx rq)"
    and "unat i < unat (list_size chan)" and "length l = unat (list_size chan)"
    and "hica_muc_list_append l i iter chan rq False = (Inr n, l', it')"
  shows "\<forall>k < n. flags (emitted l' i n ! k) AND MUC_BUF_FLAG_SET_IV = 0
            \<and> len (emitted l' i n ! k) \<noteq> 0"
    and "chunksize (rq_tfm rq) \<le> offset it'" and "offset it' \<le> runlen (rq_ctx rq)"
proof -
  note t = list_append_loop_tail [OF assms(5) [unfolded hica_muc_list_append_def] assms(1-4)]
  from t show "chunksize (rq_tfm rq) \<le> offset it'" "offset it' \<le> runlen (rq_ctx rq)"
    by simp_all
  from t show "\<forall>k < n. flags (emitted l' i n ! k) AND MUC_BUF_FLAG_SET_IV = 0
            \<and> len (emitted l' i n ! k) \<noteq> 0"
    by (simp add: emitted_nth)
qed

lemma desc_bounds:
  assumes "0 < n" and "length ds = n" and "unat (len (ds ! 0)) = c" and "0 < c"
    and "\<forall>k < n. 0 < k \<longrightarrow> len (ds ! k) \<noteq> 0"
  shows "\<forall>k < n. (desc_end ds k = c) = (k = 0)"
    and "\<forall>k < n. \<not> (desc_start ds k < c \<and> c < desc_end ds k)"
proof -
  have ne: "ds \<noteq> []"
    using assms(1,2) by auto
  have s0: "desc_start ds 0 = 0"
    by (simp add: desc_start_def)
  have e0: "desc_end ds 0 = c"
    by (simp add: desc_end_def s0 assms(3))
  have ge: "c \<le> desc_start ds k" if "0 < k" for k
    using desc_start_ge [OF that ne] assms(3) by simp
  have gt: "c < desc_end ds k" if "0 < k" "k < n" for k
  proof -
    from assms(5) that have "len (ds ! k) \<noteq> 0" by simp
    then have "0 < unat (len (ds ! k))"
      by (simp add: unat_gt_0)
    with ge [OF that(1)] show ?thesis
      by (simp add: desc_end_def)
  qed
  show "\<forall>k < n. (desc_end ds k = c) = (k = 0)"
  proof (intro allI impI)
    fix k assume "k < n"
    with gt [of k] e0 show "(desc_end ds k = c) = (k = 0)"
      by (cases "k = 0") auto
  qed
  show "\<forall>k < n. \<not> (desc_start ds k < c \<and> c < desc_end ds k)"
  proof (intro allI impI)
    fix k assume "k < n"
    with ge [of k] e0 show "\<not> (desc_start ds k < c \<and> c < desc_end ds k)"
      by (cases "k = 0") auto
  qed
qed

lemma emitted_length [simp]: "length (emitted l i n) = n"
  by (simp add: emitted_def)

text \<open>
  C5 (as amended). \<open>hica_muc_list_append\<close> is called for the source ring with a valid
  ring index and returns the count \<open>n\<close>; \<open>emitted l' i n\<close> are the descriptors it
  stored, in order. On the first call for a request in a mode other than ECB (the
  iterator is fresh) whose first scatterlist node is longer than the chunk size, when
  the chunk size is between 1 and \<open>MUC_BLOCK_SIZE\<close> and the run length is at least
  one chunk: at least one descriptor is stored; the first has the length of one chunk,
  carries set-iv and end-of-list, and its IV field is the IV buffer of the channel; it
  is the only descriptor that ends at the chunk boundary and the only one with
  set-iv; no descriptor begins before the boundary and ends after it; the iterator is
  left at or past the boundary. On every later call (the iterator is at or past the
  boundary) no descriptor carries set-iv and none is empty, so that none ends at the
  boundary or crosses it.
\<close>

theorem iv_boundary_split:
  assumes "unat i < unat (list_size chan)" and "length l = unat (list_size chan)"
    and "hica_muc_list_append l i iter chan rq False = (Inr n, l', it')"
  shows "(mode (ctrl (rq_tfm rq)) \<noteq> MUC_MODE_ECB \<and> iter = sg_iter_init (e # es)
          \<and> chunksize (rq_tfm rq) < sg_length e
          \<and> 0 < chunksize (rq_tfm rq) \<and> chunksize (rq_tfm rq) \<le> MUC_BLOCK_SIZE
          \<and> chunksize (rq_tfm rq) \<le> runlen (rq_ctx rq) \<longrightarrow>
            0 < n
            \<and> len (emitted l' i n ! 0) = chunksize (rq_tfm rq)
            \<and> flags (emitted l' i n ! 0) = MUC_BUF_FLAG_SET_IV OR MUC_BUF_FLAG_END_OF_LIST
            \<and> iv_addr (emitted l' i n ! 0) = chan_iv_addr chan
            \<and> (\<forall>k < n. (desc_end (emitted l' i n) k = unat (chunksize (rq_tfm rq))) = (k = 0))
            \<and> (\<forall>k < n. (flags (emitted l' i n ! k) AND MUC_BUF_FLAG_SET_IV \<noteq> 0) = (k = 0))
            \<and> (\<forall>k < n. \<not> (desc_start (emitted l' i n) k < unat (chunksize (rq_tfm rq))
                            \<and> unat (chunksize (rq_tfm rq)) < desc_end (emitted l' i n) k))
            \<and> chunksize (rq_tfm rq) \<le> offset it' \<and> offset it' \<le> runlen (rq_ctx rq))
       \<and> (chunksize (rq_tfm rq) \<le> offset iter \<and> offset iter \<le> runlen (rq_ctx rq) \<longrightarrow>
            (\<forall>k < n. flags (emitted l' i n ! k) AND MUC_BUF_FLAG_SET_IV = 0
                      \<and> len (emitted l' i n ! k) \<noteq> 0)
            \<and> chunksize (rq_tfm rq) \<le> offset it' \<and> offset it' \<le> runlen (rq_ctx rq))"
proof (intro conjI impI)
  assume a: "mode (ctrl (rq_tfm rq)) \<noteq> MUC_MODE_ECB \<and> iter = sg_iter_init (e # es)
          \<and> chunksize (rq_tfm rq) < sg_length e
          \<and> 0 < chunksize (rq_tfm rq) \<and> chunksize (rq_tfm rq) \<le> MUC_BLOCK_SIZE
          \<and> chunksize (rq_tfm rq) \<le> runlen (rq_ctx rq)"
  then have b: "mode (ctrl (rq_tfm rq)) \<noteq> MUC_MODE_ECB" "iter = sg_iter_init (e # es)"
    "chunksize (rq_tfm rq) < sg_length e" "0 < chunksize (rq_tfm rq)"
    "chunksize (rq_tfm rq) \<le> MUC_BLOCK_SIZE" "chunksize (rq_tfm rq) \<le> runlen (rq_ctx rq)"
    by simp_all
  note f = list_append_first_call [OF b assms]
  show "0 < n" by (rule f)
  show "len (emitted l' i n ! 0) = chunksize (rq_tfm rq)" by (rule f)
  show h: "flags (emitted l' i n ! 0) = MUC_BUF_FLAG_SET_IV OR MUC_BUF_FLAG_END_OF_LIST" by (rule f)
  show "iv_addr (emitted l' i n ! 0) = chan_iv_addr chan" by (rule f)
  show "chunksize (rq_tfm rq) \<le> offset it'" by (rule f)
  show "offset it' \<le> runlen (rq_ctx rq)" by (rule f)
  have c: "0 < unat (chunksize (rq_tfm rq))"
    using b(4) by (simp add: word_less_nat_alt)
  have t: "\<forall>k < n. 0 < k \<longrightarrow> len (emitted l' i n ! k) \<noteq> 0"
    using f(8) by simp
  note d = desc_bounds [OF f(1) emitted_length [of l' i n] f(5) [THEN arg_cong [of _ _ unat]] c t]
  show "\<forall>k < n. (desc_end (emitted l' i n) k = unat (chunksize (rq_tfm rq))) = (k = 0)"
    by (rule d)
  show "\<forall>k < n. \<not> (desc_start (emitted l' i n) k < unat (chunksize (rq_tfm rq))
                            \<and> unat (chunksize (rq_tfm rq)) < desc_end (emitted l' i n) k)"
    by (rule d)
  show "\<forall>k < n. (flags (emitted l' i n ! k) AND MUC_BUF_FLAG_SET_IV \<noteq> 0) = (k = 0)"
  proof (intro allI impI)
    fix k assume "k < n"
    with f(8) h set_iv_flag show "(flags (emitted l' i n ! k) AND MUC_BUF_FLAG_SET_IV \<noteq> 0) = (k = 0)"
      by (cases "k = 0") auto
  qed
next
  assume a: "chunksize (rq_tfm rq) \<le> offset iter \<and> offset iter \<le> runlen (rq_ctx rq)"
  note f = list_append_later_call [OF a [THEN conjunct1] a [THEN conjunct2] assms]
  show "\<forall>k < n. flags (emitted l' i n ! k) AND MUC_BUF_FLAG_SET_IV = 0
                      \<and> len (emitted l' i n ! k) \<noteq> 0" by (rule f)
  show "chunksize (rq_tfm rq) \<le> offset it'" by (rule f)
  show "offset it' \<le> runlen (rq_ctx rq)" by (rule f)
qed

end
